theory Spec2Isabelle
  imports Complex_Main "HOL-Library.Word" "HOL-Library.AList" "HOL-Library.Log_Nat"
    "HOL-Library.Sublist"
begin

section \<open>The workshop blockchain server (server.js)\<close>

text \<open>
  A shallow embedding of the ledger and mining core of \<^verbatim>\<open>server.js\<close>.

  Conventions of the embedding.
  \<^item> JavaScript numbers that carry token amounts (\<^verbatim>\<open>balance\<close>, \<^verbatim>\<open>amount\<close>, \<^verbatim>\<open>fee\<close>,
    \<^verbatim>\<open>miningRewards\<close>) are IEEE 754 binary64 values, the type \<open>jsnum\<close>: a finite double is
    given by its rational value, and \<^verbatim>\<open>+\<close>, \<^verbatim>\<open>-\<close> and \<^verbatim>\<open><\<close> are the operations of the
    standard, rounding to nearest with ties to even, with gradual underflow, overflow to
    the infinities, and \<^verbatim>\<open>NaN\<close>. The two zeros are one value: \<^verbatim>\<open><\<close>, \<^verbatim>\<open>+\<close>, \<^verbatim>\<open>-\<close>,
    \<^verbatim>\<open>parseFloat\<close> and template literals, which is all the program applies to these
    numbers, do not tell them apart.
  \<^item> The fields \<^verbatim>\<open>amount\<close> and \<^verbatim>\<open>fee\<close> of a payload are JSON values: a number, a
    string, or anything else (a boolean, \<^verbatim>\<open>null\<close>, an array, an object, or nothing at
    all). Between numbers \<^verbatim>\<open>+\<close> is the double sum, next to a string it concatenates.
    How numbers and strings convert into each other, and what \<^verbatim>\<open>+\<close>, \<^verbatim>\<open><\<close> and
    \<^verbatim>\<open>parseFloat\<close> make of the other values, is fixed by the language and left open
    here: the environment record gives it.
  \<^item> Counters, timestamps (\<^verbatim>\<open>Date.now()\<close>, in milliseconds) and block numbers are
    natural numbers.
  \<^item> \<^verbatim>\<open>crypto.SHA256\<close> and the number formatting of template literals for token
    amounts are parameters, collected in the environment record. The digest is a
    256-bit word; \<^verbatim>\<open>.toString()\<close> is its rendering as 64 lower-case hex digits.
  \<^item> The \<^verbatim>\<open>participants\<close> Map is an association list in insertion order (the order in
    which \<^verbatim>\<open>Map.prototype.values\<close> iterates); the key of an entry is the reference
    to the participant object stored under it.
  \<^item> Every value the handlers read from outside (\<^verbatim>\<open>Date.now()\<close>, \<^verbatim>\<open>Math.random()\<close>)
    is an argument.
\<close>

subsection \<open>JavaScript numbers\<close>

datatype jsnum = Fin rat | PInf | NInf | NaN

definition pow2 :: "int \<Rightarrow> rat" where
  "pow2 e = (if 0 \<le> e then 2 ^ nat e else 1 / 2 ^ nat (- e))"

text \<open>
  The binary exponent of a positive rational: the \<open>e\<close> with \<open>2^e \<le> x < 2^(e + 1)\<close>
  (lemma \<open>exponent_unique\<close>).
\<close>

definition exponent :: "rat \<Rightarrow> int" where
  "exponent x =
     (if 1 \<le> x then int (floorlog 2 (nat \<lfloor>x\<rfloor>)) - 1
      else - int (floorlog 2 (nat \<lceil>1 / x\<rceil> - 1)))"

definition round_half_even :: "rat \<Rightarrow> int" where
  "round_half_even y =
     (let n = \<lfloor>y\<rfloor>; d = y - of_int n
      in if d < 1 / 2 then n else if 1 / 2 < d then n + 1 else if even n then n else n + 1)"

definition overflow :: rat where
  "overflow = 2 ^ 1024"

text \<open>
  The double nearest to a rational. A double with exponent \<open>e\<close> is a multiple of
  \<open>2^(e - 52)\<close>; below \<open>2^(-1022)\<close> the doubles are the multiples of \<open>2^(-1074)\<close>; a result
  of magnitude \<open>2^1024\<close> or more is an infinity.
\<close>

definition round64 :: "rat \<Rightarrow> jsnum" where
  "round64 x =
     (if x = 0 then Fin 0
      else (let e = max (exponent \<bar>x\<bar>) (- 1022);
                u = pow2 (e - 52);
                r = of_int (round_half_even (x / u)) * u
            in if overflow \<le> \<bar>r\<bar> then (if 0 < x then PInf else NInf) else Fin r))"

fun fneg :: "jsnum \<Rightarrow> jsnum" where
  "fneg (Fin a) = Fin (- a)"
| "fneg PInf = NInf"
| "fneg NInf = PInf"
| "fneg NaN = NaN"

text \<open>\<^verbatim>\<open>x + y\<close> on numbers.\<close>

fun fadd :: "jsnum \<Rightarrow> jsnum \<Rightarrow> jsnum" where
  "fadd NaN y = NaN"
| "fadd x NaN = NaN"
| "fadd PInf NInf = NaN"
| "fadd NInf PInf = NaN"
| "fadd PInf y = PInf"
| "fadd x PInf = PInf"
| "fadd NInf y = NInf"
| "fadd x NInf = NInf"
| "fadd (Fin a) (Fin b) = round64 (a + b)"

text \<open>\<^verbatim>\<open>x - y\<close> on numbers.\<close>

definition fsub :: "jsnum \<Rightarrow> jsnum \<Rightarrow> jsnum" where
  "fsub x y = fadd x (fneg y)"

text \<open>\<^verbatim>\<open>x < y\<close> on numbers.\<close>

fun flt :: "jsnum \<Rightarrow> jsnum \<Rightarrow> bool" where
  "flt NaN y = False"
| "flt x NaN = False"
| "flt (Fin a) (Fin b) = (a < b)"
| "flt NInf NInf = False"
| "flt NInf y = True"
| "flt x PInf = (x \<noteq> PInf)"
| "flt x NInf = False"
| "flt PInf y = False"

text \<open>
  The value of a number as a rational (0 for what is not finite), whether it is a whole
  number, and its magnitude.
\<close>

fun val :: "jsnum \<Rightarrow> rat" where
  "val (Fin q) = q"
| "val PInf = 0"
| "val NInf = 0"
| "val NaN = 0"

fun whole :: "jsnum \<Rightarrow> bool" where
  "whole (Fin q) = (of_int \<lfloor>q\<rfloor> = q)"
| "whole PInf = False"
| "whole NInf = False"
| "whole NaN = False"

definition mag :: "jsnum \<Rightarrow> rat" where
  "mag x = \<bar>val x\<bar>"

text \<open>\<open>2^(-50)\<close>, a double far below the distance between the doubles next to 100.\<close>

definition tiny :: jsnum where
  "tiny = Fin (1 / 2 ^ 50)"

text \<open>
  A field of a payload: a number, a string, or another JSON value (a boolean, \<^verbatim>\<open>null\<close>,
  an array, an object, or nothing at all), the last kept as its JSON text.
\<close>

datatype payload = Number jsnum | Str string | Other string

subsection \<open>Data model\<close>

record participant =
  pid :: string
  nickname :: string
  role :: string
  balance :: jsnum
  miningRewards :: "jsnum option"
  blocksMined :: "nat option"
  online :: bool
  joinedAt :: nat

record transaction =
  txid :: rat
  tx_from :: string
  tx_to :: string
  amount :: jsnum
  fee :: jsnum
  tx_timestamp :: nat
  tx_hash :: string

record block =
  number :: nat
  previousHash :: string
  merkleRoot :: string
  timestamp :: nat
  transactions :: "transaction list"
  miner :: string
  hash :: string

record stats_t =
  totalTransactions :: nat
  totalBlocks :: nat
  activeUsers :: nat
  activeMiners :: nat

record workshopState =
  participants :: "(string \<times> participant) list"
  mempool :: "transaction list"
  blockchain :: "block list"
  currentMiner :: "string option"
  nextMiningTime :: "nat option"
  stats :: stats_t

text \<open>
  The environment: the digest; the conversions between numbers and strings, namely the
  rendering of a number as a string (in a template literal, or next to a string under
  \<^verbatim>\<open>+\<close>), the number a string converts to in a comparison, and \<^verbatim>\<open>parseFloat\<close> of a
  string; and, for a field that is neither number nor string, the value of
  \<^verbatim>\<open>balance < (amount + fee)\<close> and \<^verbatim>\<open>parseFloat\<close> of the field.
\<close>

record env =
  SHA256 :: "string \<Rightarrow> 256 word"
  numToString :: "jsnum \<Rightarrow> string"
  toNumber :: "string \<Rightarrow> jsnum"
  parseFloat_str :: "string \<Rightarrow> jsnum"
  lt_sum_other :: "jsnum \<Rightarrow> payload \<Rightarrow> payload \<Rightarrow> bool"
  parseFloat_other :: "string \<Rightarrow> jsnum"

text \<open>
  The validation failures, named as in the specification. The handlers emit them as
  messages to the calling socket:
  \<^item> \<open>DuplicateNicknameError\<close>: \<^verbatim>\<open>join-error\<close>, \<^verbatim>\<open>Nickname already taken!\<close>
  \<^item> \<open>RoleError\<close>: \<^verbatim>\<open>transaction-error\<close>, \<^verbatim>\<open>Only users can send transactions!\<close>, and
    \<^verbatim>\<open>mining-error\<close>, \<^verbatim>\<open>Only miners can mine blocks!\<close>
  \<^item> \<open>FundsError\<close>: \<^verbatim>\<open>transaction-error\<close>, \<^verbatim>\<open>Insufficient balance!\<close>
  \<^item> \<open>RecipientError\<close>: \<^verbatim>\<open>transaction-error\<close>, \<^verbatim>\<open>Recipient not found!\<close>
  \<^item> \<open>CapacityError\<close>: \<^verbatim>\<open>transaction-error\<close>, \<^verbatim>\<open>Mempool is full! Wait for next block.\<close>
  \<^item> \<open>TurnError\<close>: \<^verbatim>\<open>mining-error\<close>, \<^verbatim>\<open>Not your turn to mine!\<close>
  \<^item> \<open>EmptyPoolError\<close>: \<^verbatim>\<open>mining-error\<close>, \<^verbatim>\<open>No transactions to mine!\<close>
\<close>

datatype error =
  DuplicateNicknameError | RoleError | FundsError | RecipientError
  | CapacityError | TurnError | EmptyPoolError

text \<open>
  \<^verbatim>\<open>parseFloat(v)\<close>. It renders its argument as a string and reads a number back from
  it; for a number that is the number itself.
\<close>

definition parseFloat :: "env \<Rightarrow> payload \<Rightarrow> jsnum" where
  "parseFloat E v =
     (case v of Number x \<Rightarrow> x | Str s \<Rightarrow> parseFloat_str E s | Other j \<Rightarrow> parseFloat_other E j)"

text \<open>
  \<^verbatim>\<open>sender.balance < (amount + fee)\<close> on the fields of the payload as they arrived. For
  two numbers the sum is their double sum. When one of the two is a string, \<^verbatim>\<open>+\<close>
  concatenates, a number being rendered as a string first, and the balance is compared
  with the number the concatenation converts to.
\<close>

definition insufficient :: "env \<Rightarrow> jsnum \<Rightarrow> payload \<Rightarrow> payload \<Rightarrow> bool" where
  "insufficient E b a f =
     (case a of
        Number x \<Rightarrow>
          (case f of
             Number y \<Rightarrow> flt b (fadd x y)
           | Str t \<Rightarrow> flt b (toNumber E (numToString E x @ t))
           | Other j \<Rightarrow> lt_sum_other E b a f)
      | Str s \<Rightarrow>
          (case f of
             Number y \<Rightarrow> flt b (toNumber E (s @ numToString E y))
           | Str t \<Rightarrow> flt b (toNumber E (s @ t))
           | Other j \<Rightarrow> lt_sum_other E b a f)
      | Other i \<Rightarrow> lt_sum_other E b a f)"

subsection \<open>Strings and digests\<close>

definition sentinel :: string where
  "sentinel = ''0000000000000000000000000000000000000000000000000000000000000000''"

definition genesis_hash :: string where
  "genesis_hash = ''genesis_block_hash_0000000000000000000000000000000000000000000000''"

definition hex_digit :: "nat \<Rightarrow> char" where
  "hex_digit n = ''0123456789abcdef'' ! (n mod 16)"

text \<open>\<^verbatim>\<open>WordArray.toString()\<close>: 64 hex digits, most significant nibble first.\<close>

definition toString_hex :: "256 word \<Rightarrow> string" where
  "toString_hex w = map (\<lambda>i. hex_digit (unat (drop_bit (4 * (63 - i)) w))) [0..<64]"

definition sha256_hex :: "env \<Rightarrow> string \<Rightarrow> string" where
  "sha256_hex E s = toString_hex (SHA256 E s)"

text \<open>A non-negative integer inside a template literal: its decimal digits.\<close>

fun decimal :: "nat \<Rightarrow> string" where
  "decimal n =
     (if n < 10 then [''0123456789'' ! n]
      else decimal (n div 10) @ [''0123456789'' ! (n mod 10)])"

declare decimal.simps [simp del]

definition generateTransactionHash :: "env \<Rightarrow> transaction \<Rightarrow> string" where
  "generateTransactionHash E tx =
     sha256_hex E (tx_from tx @ '':'' @ tx_to tx @ '':'' @ numToString E (amount tx) @ '':''
                   @ numToString E (fee tx) @ '':'' @ decimal (tx_timestamp tx))"

definition generateBlockHash :: "env \<Rightarrow> block \<Rightarrow> string" where
  "generateBlockHash E b =
     sha256_hex E (previousHash b @ '':'' @ merkleRoot b @ '':'' @ decimal (timestamp b)
                   @ '':'' @ decimal (number b))"

subsection \<open>Merkle tree\<close>

text \<open>
  One pass of the inner \<^verbatim>\<open>for\<close> loop, which walks the level two elements at a time.
  \<^verbatim>\<open>currentLevel[i + 1] || left\<close> takes \<^verbatim>\<open>left\<close> when the right element is missing
  and also when it is the empty string, which JavaScript treats as false.
\<close>

fun nextLevel :: "env \<Rightarrow> string list \<Rightarrow> string list" where
  "nextLevel E [] = []"
| "nextLevel E [left] = [sha256_hex E (left @ left)]"
| "nextLevel E (left # r # rest) =
     sha256_hex E (left @ (if r = [] then left else r)) # nextLevel E rest"

lemma length_nextLevel: "length (nextLevel E xs) = (length xs + 1) div 2"
  by (induction E xs rule: nextLevel.induct) simp_all

text \<open>The \<^verbatim>\<open>while (currentLevel.length > 1)\<close> loop; it returns the last level.\<close>

function whileLevel :: "env \<Rightarrow> string list \<Rightarrow> string list" where
  "whileLevel E currentLevel =
     (if length currentLevel > 1 then whileLevel E (nextLevel E currentLevel) else currentLevel)"
  by pat_completeness auto
termination
  by (relation "measure (\<lambda>(E, xs). length xs)") (auto simp: length_nextLevel)

declare whileLevel.simps [simp del]

text \<open>
  \<^verbatim>\<open>currentLevel[0]\<close> of an empty array would be \<^verbatim>\<open>undefined\<close>; the loop is entered with
  at least two elements and never produces an empty level (lemma \<open>whileLevel_single\<close>),
  so that branch is dead and rendered as the empty string.
\<close>

definition buildMerkleTree :: "env \<Rightarrow> string list \<Rightarrow> string" where
  "buildMerkleTree E txHashes =
     (if length txHashes = 0 then sentinel
      else if length txHashes = 1 then txHashes ! 0
      else (case whileLevel E txHashes of [] \<Rightarrow> [] | h # _ \<Rightarrow> h))"

text \<open>
  The Merkle root as the specification words it: pair adjacent elements left to right,
  duplicate the last one of an odd level, hash each pair's concatenation, repeat until
  one hash remains.
\<close>

fun spec_pairs :: "env \<Rightarrow> string list \<Rightarrow> string list" where
  "spec_pairs E [] = []"
| "spec_pairs E [l] = [sha256_hex E (l @ l)]"
| "spec_pairs E (l # r # rest) = sha256_hex E (l @ r) # spec_pairs E rest"

lemma length_spec_pairs: "length (spec_pairs E xs) = (length xs + 1) div 2"
  by (induction E xs rule: spec_pairs.induct) simp_all

function spec_reduce :: "env \<Rightarrow> string list \<Rightarrow> string list" where
  "spec_reduce E level =
     (if length level \<le> 1 then level else spec_reduce E (spec_pairs E level))"
  by pat_completeness auto
termination
  by (relation "measure (\<lambda>(E, xs). length xs)") (auto simp: length_spec_pairs)

declare spec_reduce.simps [simp del]

definition spec_merkleRoot :: "env \<Rightarrow> string list \<Rightarrow> string" where
  "spec_merkleRoot E hashes =
     (case hashes of [] \<Rightarrow> sentinel | [h] \<Rightarrow> h | _ \<Rightarrow> hd (spec_reduce E hashes))"

subsection \<open>The participants Map\<close>

text \<open>
  \<^verbatim>\<open>Map.get\<close> is \<^const>\<open>map_of\<close>. \<^verbatim>\<open>Map.set\<close> is \<^const>\<open>AList.update\<close>: an existing key keeps its
  place in the iteration order and gets the new value, a new key goes to the end.
\<close>

definition values_of :: "(string \<times> participant) list \<Rightarrow> participant list" where
  "values_of ps = map snd ps"

text \<open>Assignment to a field of the object stored under key \<open>k\<close>.\<close>

definition mutate :: "string \<Rightarrow> (participant \<Rightarrow> participant)
    \<Rightarrow> (string \<times> participant) list \<Rightarrow> (string \<times> participant) list" where
  "mutate k f ps = map (\<lambda>(k', p). if k' = k then (k', f p) else (k', p)) ps"

text \<open>
  \<^verbatim>\<open>Array.from(participants.values()).find(pred)\<close>, keeping the key of the object found
  so that a later assignment to the object can be applied to the Map.
\<close>

definition find_entry :: "(participant \<Rightarrow> bool) \<Rightarrow> (string \<times> participant) list
    \<Rightarrow> (string \<times> participant) option" where
  "find_entry P ps = find (\<lambda>(k, p). P p) ps"

definition updateStats :: "workshopState \<Rightarrow> workshopState" where
  "updateStats st =
     st\<lparr>stats := (stats st)\<lparr>
        activeUsers := length (filter (\<lambda>p. role p = ''user'' \<and> online p) (values_of (participants st))),
        activeMiners := length (filter (\<lambda>p. role p = ''miner'' \<and> online p) (values_of (participants st)))\<rparr>\<rparr>"

subsection \<open>Start-up\<close>

definition workshopState0 :: workshopState where
  "workshopState0 =
     \<lparr>participants = [], mempool = [], blockchain = [], currentMiner = None,
      nextMiningTime = None,
      stats = \<lparr>totalTransactions = 0, totalBlocks = 0, activeUsers = 0, activeMiners = 0\<rparr>\<rparr>"

definition genesisBlock :: "nat \<Rightarrow> block" where
  "genesisBlock now =
     \<lparr>number = 0, previousHash = sentinel, merkleRoot = sentinel, timestamp = now,
      transactions = [], miner = ''Genesis'', hash = genesis_hash\<rparr>"

definition initializeBlockchain :: "nat \<Rightarrow> workshopState \<Rightarrow> workshopState" where
  "initializeBlockchain now st = st\<lparr>blockchain := blockchain st @ [genesisBlock now]\<rparr>"

subsection \<open>Miner selection and the mining trigger\<close>

text \<open>
  \<open>rnd\<close> is the value of \<^verbatim>\<open>Math.random()\<close>, a double; its product with the length is the
  double nearest to the exact product. An index outside the array reads \<^verbatim>\<open>undefined\<close>,
  which the caller treats like \<^verbatim>\<open>null\<close>.
\<close>

definition getRandomMiner :: "rat \<Rightarrow> workshopState \<Rightarrow> participant option" where
  "getRandomMiner rnd st =
     (let miners = filter (\<lambda>p. role p = ''miner'' \<and> online p) (values_of (participants st))
      in if length miners = 0 then None
         else (case round64 (rnd * of_nat (length miners)) of
                 Fin q \<Rightarrow>
                   (let randomIndex = \<lfloor>q\<rfloor>
                    in if 0 \<le> randomIndex \<and> nat randomIndex < length miners
                       then Some (miners ! nat randomIndex) else None)
               | PInf \<Rightarrow> None | NInf \<Rightarrow> None | NaN \<Rightarrow> None))"

text \<open>
  \<^verbatim>\<open>if (workshopState.currentMiner)\<close>: \<^verbatim>\<open>null\<close> and the empty string are false, every
  other string is true.
\<close>

fun truthy :: "string option \<Rightarrow> bool" where
  "truthy None = False"
| "truthy (Some s) = (s \<noteq> [])"

text \<open>
  The body of \<^verbatim>\<open>triggerMining\<close> up to the scheduling of the timeout; \<open>now\<close> is
  \<^verbatim>\<open>Date.now()\<close>. The timeout it schedules is the event \<open>MiningTimeout\<close> below.
\<close>

definition triggerMining :: "rat \<times> nat \<Rightarrow> workshopState \<Rightarrow> workshopState" where
  "triggerMining trig st =
     (if truthy (currentMiner st) then st
      else (case getRandomMiner (fst trig) st of
              None \<Rightarrow> st
            | Some availableMiner \<Rightarrow>
                st\<lparr>currentMiner := Some (nickname availableMiner),
                   nextMiningTime := Some (snd trig + 30000)\<rparr>))"

text \<open>The callback of the 30 second timeout; \<open>nick\<close> is the nickname it closed over.\<close>

definition miningTimeout :: "string \<Rightarrow> rat \<times> nat \<Rightarrow> workshopState \<Rightarrow> workshopState" where
  "miningTimeout nick trig st =
     (if currentMiner st = Some nick
      then (let st1 = st\<lparr>currentMiner := None\<rparr>
            in if length (mempool st1) > 0 then triggerMining trig st1 else st1)
      else st)"

text \<open>The callback of the 45 second interval.\<close>

definition sweep :: "rat \<times> nat \<Rightarrow> workshopState \<Rightarrow> workshopState" where
  "sweep trig st =
     (if length (mempool st) > 0 \<and> \<not> truthy (currentMiner st) then triggerMining trig st else st)"

subsection \<open>Handlers\<close>

text \<open>
  Each handler returns the state it leaves behind and what it emits: the error of a
  validation failure, or the object it broadcasts. \<open>sid\<close> is \<^verbatim>\<open>socket.id\<close>.
\<close>

definition join_workshop :: "string \<Rightarrow> string \<Rightarrow> string \<Rightarrow> nat \<Rightarrow> workshopState
    \<Rightarrow> workshopState \<times> (error + participant)" where
  "join_workshop sid nick rl now st =
     (case find (\<lambda>p. nickname p = nick \<and> online p) (values_of (participants st)) of
        Some existingParticipant \<Rightarrow> (st, Inl DuplicateNicknameError)
      | None \<Rightarrow>
          (let p = \<lparr>pid = sid, nickname = nick, role = rl,
                    balance = (if rl = ''user'' then Fin 100 else Fin 0),
                    miningRewards = (if rl = ''miner'' then Some (Fin 0) else None),
                    blocksMined = (if rl = ''miner'' then Some 0 else None),
                    online = True, joinedAt = now\<rparr>
           in (updateStats (st\<lparr>participants := AList.update sid p (participants st)\<rparr>), Inr p)))"

text \<open>
  \<open>a\<close> and \<open>f\<close> are the payload's \<^verbatim>\<open>amount\<close> and \<^verbatim>\<open>fee\<close>, \<open>idv\<close> the value of
  \<^verbatim>\<open>Date.now() + Math.random()\<close>, \<open>now\<close> the transaction's timestamp, \<open>trig\<close> what
  \<^verbatim>\<open>triggerMining\<close> reads. The funds are tested on the payload as it arrived; the
  transaction carries \<^verbatim>\<open>parseFloat\<close> of its fields, and these are what the sender is
  debited. The transaction object is built with \<^verbatim>\<open>hash: null\<close> (here the empty string)
  and the hash is assigned next.
\<close>

definition send_transaction :: "env \<Rightarrow> string \<Rightarrow> string \<Rightarrow> payload \<Rightarrow> payload \<Rightarrow> rat \<Rightarrow> nat
    \<Rightarrow> rat \<times> nat \<Rightarrow> workshopState \<Rightarrow> workshopState \<times> (error + transaction)" where
  "send_transaction E sid to a f idv now trig st =
     (case map_of (participants st) sid of
        None \<Rightarrow> (st, Inl RoleError)
      | Some sender \<Rightarrow>
          if role sender \<noteq> ''user'' then (st, Inl RoleError)
          else if insufficient E (balance sender) a f then (st, Inl FundsError)
          else (case find (\<lambda>p. nickname p = to \<and> online p) (values_of (participants st)) of
                  None \<Rightarrow> (st, Inl RecipientError)
                | Some recipient \<Rightarrow>
                    (let tx0 = \<lparr>txid = idv, tx_from = nickname sender, tx_to = nickname recipient,
                                amount = parseFloat E a, fee = parseFloat E f,
                                tx_timestamp = now, tx_hash = []\<rparr>;
                         tx = tx0\<lparr>tx_hash := generateTransactionHash E tx0\<rparr>
                     in if length (mempool st) \<ge> 5 then (st, Inl CapacityError)
                        else (let st1 = st\<lparr>mempool := mempool st @ [tx]\<rparr>;
                                  st2 = st1\<lparr>stats := (stats st1)\<lparr>totalTransactions :=
                                                totalTransactions (stats st1) + 1\<rparr>\<rparr>;
                                  st3 = st2\<lparr>participants :=
                                          mutate sid (\<lambda>p. p\<lparr>balance :=
                                              fsub (balance p) (fadd (amount tx) (fee tx))\<rparr>)
                                            (participants st2)\<rparr>;
                                  st4 = (if length (mempool st3) \<ge> 3 then triggerMining trig st3 else st3)
                              in (st4, Inr tx)))))"

text \<open>
  The \<^verbatim>\<open>forEach\<close> body of the mining handler: the first participant carrying the
  nickname \<^verbatim>\<open>tx.to\<close>, online or not, is credited; nobody is when there is none.
\<close>

definition creditRecipient :: "transaction \<Rightarrow> (string \<times> participant) list
    \<Rightarrow> (string \<times> participant) list" where
  "creditRecipient tx ps =
     (case find_entry (\<lambda>p. nickname p = tx_to tx) ps of
        None \<Rightarrow> ps
      | Some (k, recipient) \<Rightarrow> mutate k (\<lambda>p. p\<lparr>balance := fadd (balance p) (amount tx)\<rparr>) ps)"

text \<open>
  \<^verbatim>\<open>miner.miningRewards += totalFees\<close> and \<^verbatim>\<open>miner.blocksMined++\<close>; a \<^verbatim>\<open>null\<close> field
  would count as 0.
\<close>

definition rewardMiner :: "jsnum \<Rightarrow> participant \<Rightarrow> participant" where
  "rewardMiner totalFees m =
     m\<lparr>miningRewards := Some (fadd (case miningRewards m of None \<Rightarrow> Fin 0 | Some r \<Rightarrow> r) totalFees),
       blocksMined := Some ((case blocksMined m of None \<Rightarrow> 0 | Some n \<Rightarrow> n) + 1)\<rparr>"

text \<open>
  \<open>now\<close> is the block's timestamp. The block object is built with \<^verbatim>\<open>hash: null\<close> (here
  the empty string) and the hash is assigned next. The 5 second timer set at the end is
  the event \<open>RetriggerTimer\<close> below.
\<close>

definition mine_block :: "env \<Rightarrow> string \<Rightarrow> nat \<Rightarrow> workshopState
    \<Rightarrow> workshopState \<times> (error + block)" where
  "mine_block E sid now st =
     (case map_of (participants st) sid of
        None \<Rightarrow> (st, Inl RoleError)
      | Some miner_p \<Rightarrow>
          if role miner_p \<noteq> ''miner'' then (st, Inl RoleError)
          else if currentMiner st \<noteq> Some (nickname miner_p) then (st, Inl TurnError)
          else if length (mempool st) = 0 then (st, Inl EmptyPoolError)
          else (let transactionsToMine = take 5 (mempool st);
                    st1 = st\<lparr>mempool := drop 5 (mempool st)\<rparr>;
                    txHashes = map tx_hash transactionsToMine;
                    root = buildMerkleTree E txHashes;
                    prevHash = (case blockchain st1 of [] \<Rightarrow> sentinel
                                | _ # _ \<Rightarrow> hash (last (blockchain st1)));
                    newBlock0 = \<lparr>number = length (blockchain st1), previousHash = prevHash,
                                 merkleRoot = root, timestamp = now,
                                 transactions = transactionsToMine, miner = nickname miner_p,
                                 hash = []\<rparr>;
                    newBlock = newBlock0\<lparr>hash := generateBlockHash E newBlock0\<rparr>;
                    st2 = st1\<lparr>blockchain := blockchain st1 @ [newBlock]\<rparr>;
                    st3 = st2\<lparr>stats := (stats st2)\<lparr>totalBlocks := totalBlocks (stats st2) + 1\<rparr>\<rparr>;
                    st4 = st3\<lparr>participants :=
                            foldl (\<lambda>ps tx. creditRecipient tx ps) (participants st3) transactionsToMine\<rparr>;
                    totalFees = foldl (\<lambda>sum tx. fadd sum (fee tx)) (Fin 0) transactionsToMine;
                    st5 = st4\<lparr>participants := mutate sid (rewardMiner totalFees) (participants st4)\<rparr>;
                    st6 = st5\<lparr>currentMiner := None\<rparr>
                in (st6, Inr newBlock)))"

definition disconnect :: "string \<Rightarrow> workshopState \<Rightarrow> workshopState" where
  "disconnect sid st =
     (case map_of (participants st) sid of
        None \<Rightarrow> st
      | Some p \<Rightarrow> updateStats (st\<lparr>participants := mutate sid (\<lambda>p. p\<lparr>online := False\<rparr>) (participants st)\<rparr>))"

subsection \<open>The server as a transition system\<close>

text \<open>
  The server together with the transport: \<open>sockets\<close> are the ids of the open
  connections. socket.io gives every connection an id of its own, delivers the events of
  a socket only while it is connected and \<^verbatim>\<open>disconnect\<close> once. The timers are events that
  may fire at any moment, and \<^verbatim>\<open>Math.random()\<close> may return any rational in \<open>[0, 1)\<close>, which
  is more than the program's schedule and its doubles allow; what holds in every
  reachable state of this system holds in every state of the program.
\<close>

record system =
  ws :: workshopState
  sockets :: "string list"

datatype event =
  Connect string
| JoinWorkshop string string string nat
| SendTransaction string string payload payload rat nat "rat \<times> nat"
| MineBlock string nat
| Disconnect string
| MiningTimeout string "rat \<times> nat"
| RetriggerTimer "rat \<times> nat"
| Sweep "rat \<times> nat"

definition random_ok :: "rat \<times> nat \<Rightarrow> bool" where
  "random_ok trig = (0 \<le> fst trig \<and> fst trig < 1)"

fun admissible :: "event \<Rightarrow> system \<Rightarrow> bool" where
  "admissible (Connect sid) sys =
     (sid \<notin> set (sockets sys) \<and> sid \<notin> set (map fst (participants (ws sys))))"
| "admissible (JoinWorkshop sid nick rl now) sys = (sid \<in> set (sockets sys))"
| "admissible (SendTransaction sid to a f idv now trig) sys =
     (sid \<in> set (sockets sys) \<and> random_ok trig)"
| "admissible (MineBlock sid now) sys = (sid \<in> set (sockets sys))"
| "admissible (Disconnect sid) sys = (sid \<in> set (sockets sys))"
| "admissible (MiningTimeout nick trig) sys = random_ok trig"
| "admissible (RetriggerTimer trig) sys = random_ok trig"
| "admissible (Sweep trig) sys = random_ok trig"

fun fire :: "env \<Rightarrow> event \<Rightarrow> system \<Rightarrow> system" where
  "fire E (Connect sid) sys = sys\<lparr>sockets := sid # sockets sys\<rparr>"
| "fire E (JoinWorkshop sid nick rl now) sys = sys\<lparr>ws := fst (join_workshop sid nick rl now (ws sys))\<rparr>"
| "fire E (SendTransaction sid to a f idv now trig) sys =
     sys\<lparr>ws := fst (send_transaction E sid to a f idv now trig (ws sys))\<rparr>"
| "fire E (MineBlock sid now) sys = sys\<lparr>ws := fst (mine_block E sid now (ws sys))\<rparr>"
| "fire E (Disconnect sid) sys =
     sys\<lparr>ws := disconnect sid (ws sys), sockets := removeAll sid (sockets sys)\<rparr>"
| "fire E (MiningTimeout nick trig) sys = sys\<lparr>ws := miningTimeout nick trig (ws sys)\<rparr>"
| "fire E (RetriggerTimer trig) sys = sys\<lparr>ws := triggerMining trig (ws sys)\<rparr>"
| "fire E (Sweep trig) sys = sys\<lparr>ws := sweep trig (ws sys)\<rparr>"

definition boot :: "nat \<Rightarrow> system" where
  "boot now = \<lparr>ws = initializeBlockchain now workshopState0, sockets = []\<rparr>"

inductive reachable :: "env \<Rightarrow> system \<Rightarrow> bool" for E :: env where
  start: "reachable E (boot now)"
| step: "reachable E sys \<Longrightarrow> admissible ev sys \<Longrightarrow> reachable E (fire E ev sys)"

text \<open>A run from start-up, for concrete scenarios.\<close>

fun run :: "env \<Rightarrow> event list \<Rightarrow> system \<Rightarrow> system" where
  "run E [] sys = sys"
| "run E (ev # evs) sys = run E evs (fire E ev sys)"

fun admissible_run :: "env \<Rightarrow> event list \<Rightarrow> system \<Rightarrow> bool" where
  "admissible_run E [] sys = True"
| "admissible_run E (ev # evs) sys = (admissible ev sys \<and> admissible_run E evs (fire E ev sys))"

section \<open>Double arithmetic\<close>

lemma round_half_even_int [simp]: "round_half_even (of_int k) = k"
  by (simp add: round_half_even_def)

lemma round_half_even_near:
  assumes "\<bar>y - of_int m\<bar> < 1 / 2"
  shows "round_half_even y = m"
proof (cases "of_int m \<le> y")
  case True
  with assms have "\<lfloor>y\<rfloor> = m" by (intro floor_unique) simp_all
  with assms True show ?thesis by (simp add: round_half_even_def Let_def)
next
  case False
  with assms have "\<lfloor>y\<rfloor> = m - 1" by (intro floor_unique) simp_all
  with assms False show ?thesis by (simp add: round_half_even_def Let_def)
qed

lemma round_half_even_tie:
  "round_half_even (of_int n + 1 / 2) = (if even n then n else n + 1)"
proof -
  have "\<lfloor>(of_int n :: rat) + 1 / 2\<rfloor> = n" by (intro floor_unique) simp_all
  then show ?thesis by (simp add: round_half_even_def Let_def)
qed

lemma pow2_pos: "0 < pow2 e"
  by (simp add: pow2_def)

lemma pow2_le_one: "e \<le> 0 \<Longrightarrow> pow2 e \<le> 1"
  by (cases "e = 0") (simp_all add: pow2_def field_simps)

lemma exponent_unique:
  assumes "0 < x" "pow2 e \<le> x" "x < pow2 (e + 1)"
  shows "exponent x = e"
proof (cases "1 \<le> x")
  case True
  have e0: "0 \<le> e"
  proof (rule ccontr)
    assume "\<not> 0 \<le> e"
    then have "e + 1 \<le> 0" by simp
    then have "pow2 (e + 1) \<le> 1" by (rule pow2_le_one)
    with assms(3) True show False by simp
  qed
  define j where "j = nat e"
  from e0 assms(2,3) have b: "2 ^ j \<le> x" "x < 2 ^ Suc j"
    by (simp_all add: pow2_def j_def nat_add_distrib)
  define n where "n = nat \<lfloor>x\<rfloor>"
  from b(1) have "(2 :: int) ^ j \<le> \<lfloor>x\<rfloor>" by (simp add: le_floor_iff)
  then have l: "2 ^ j \<le> n" unfolding n_def by (simp add: le_nat_iff)
  from b(2) have "\<lfloor>x\<rfloor> < (2 :: int) ^ Suc j" by (simp add: floor_less_iff)
  then have u: "n < 2 ^ Suc j" unfolding n_def using True by (simp add: nat_less_iff)
  from u have "floorlog 2 n \<le> Suc j" by (simp add: floorlog_le_iff)
  moreover from l have "Suc j \<le> floorlog 2 n" by (intro floorlog_ge_SucI) simp_all
  ultimately have "floorlog 2 n = Suc j" by simp
  with True e0 show ?thesis by (simp add: exponent_def n_def j_def)
next
  case False
  then have x1: "x < 1" by simp
  have e0: "e < 0"
  proof (rule ccontr)
    assume "\<not> e < 0"
    then have "1 \<le> pow2 e" by (simp add: pow2_def)
    with assms(2) x1 show False by simp
  qed
  define j where "j = nat (- e)"
  from e0 have j: "0 < j" "e = - int j" by (simp_all add: j_def)
  have pe: "pow2 e = 1 / 2 ^ j" using e0 by (simp add: pow2_def j_def)
  have pe1: "pow2 (e + 1) = 1 / 2 ^ (j - 1)"
    using e0 by (cases "e + 1 = 0") (simp_all add: pow2_def j_def nat_diff_distrib)
  from assms(1,2) have "1 / x \<le> 2 ^ j" unfolding pe by (simp add: field_simps)
  then have c1: "\<lceil>1 / x\<rceil> \<le> (2 :: int) ^ j" by (simp add: ceiling_le_iff)
  from assms(1,3) have "2 ^ (j - 1) < 1 / x" unfolding pe1 by (simp add: field_simps)
  then have c2: "(2 :: int) ^ (j - 1) < \<lceil>1 / x\<rceil>" by (simp add: less_ceiling_iff)
  define m where "m = nat \<lceil>1 / x\<rceil> - 1"
  have c0: "0 \<le> \<lceil>1 / x\<rceil> - 1"
    using c2 zero_less_power [of "2 :: int" "j - 1"] by linarith
  have m: "m = nat (\<lceil>1 / x\<rceil> - 1)" unfolding m_def by arith
  from c2 have l: "2 ^ (j - 1) \<le> m" unfolding m using c0 by (simp add: le_nat_iff)
  from c1 have u: "m < 2 ^ j" unfolding m using c0 by (simp add: nat_less_iff)
  from u have "floorlog 2 m \<le> j" by (simp add: floorlog_le_iff)
  moreover from l j(1) have "j \<le> floorlog 2 m" by (intro floorlog_geI) simp_all
  ultimately have "floorlog 2 m = j" by simp
  with False j show ?thesis by (simp add: exponent_def m_def)
qed

text \<open>A rational that is a multiple of the unit of its binade is a double.\<close>

lemma round64_exact:
  assumes "x \<noteq> 0" "x / pow2 (max (exponent \<bar>x\<bar>) (- 1022) - 52) = of_int k" "\<bar>x\<bar> < overflow"
  shows "round64 x = Fin x"
proof -
  let ?u = "pow2 (max (exponent \<bar>x\<bar>) (- 1022) - 52)"
  have "?u \<noteq> 0" using pow2_pos [of "max (exponent \<bar>x\<bar>) (- 1022) - 52"] by simp
  with assms(2) have "of_int k * ?u = x" by (simp add: field_simps)
  then have "of_int (round_half_even (x / ?u)) * ?u = x"
    by (simp only: assms(2) round_half_even_int)
  with assms(1,3) show ?thesis
    by (simp only: round64_def Let_def if_False not_le [symmetric] simp_thms)
qed

text \<open>Rounding a rational of known binade \<open>e\<close>, above the subnormal range.\<close>

lemma round64_eval:
  assumes "x \<noteq> 0" "pow2 e \<le> \<bar>x\<bar>" "\<bar>x\<bar> < pow2 (e + 1)" "- 1022 \<le> e"
    "round_half_even (x / pow2 (e - 52)) = m" "\<bar>of_int m * pow2 (e - 52)\<bar> < overflow"
  shows "round64 x = Fin (of_int m * pow2 (e - 52))"
proof -
  from assms(1) have "0 < \<bar>x\<bar>" by simp
  from exponent_unique [OF this assms(2,3)] assms(4)
  have "max (exponent \<bar>x\<bar>) (- 1022) = e" by simp
  with assms(1,5,6) show ?thesis
    by (simp only: round64_def Let_def if_False not_le [symmetric] simp_thms)
qed

text \<open>Integers below \<open>2^53\<close> in magnitude are doubles, and so are their sums.\<close>

lemma exponent_int:
  assumes "0 < n" "n < 2 ^ 53"
  shows "0 \<le> exponent (of_int n) \<and> exponent (of_int n) \<le> 52"
proof -
  from assms have "nat n < 2 ^ 53" by (simp add: nat_less_iff)
  then have "floorlog 2 (nat n) \<le> 53" by (simp add: floorlog_le_iff)
  moreover have "1 \<le> floorlog 2 (nat n)"
    using assms(1) floorlog_geI [of 2 1 "nat n"] by simp
  moreover have "1 \<le> (of_int n :: rat)" using assms(1) by simp
  ultimately show ?thesis by (simp add: exponent_def)
qed

lemma round64_int:
  assumes "\<bar>n\<bar> < 2 ^ 53"
  shows "round64 (of_int n) = Fin (of_int n)"
proof (cases "n = 0")
  case True
  then show ?thesis by (simp add: round64_def)
next
  case False
  then have "0 < \<bar>n\<bar>" by simp
  from exponent_int [OF this assms] obtain e where e: "e = exponent (of_int \<bar>n\<bar>)" "0 \<le> e" "e \<le> 52"
    by blast
  have ex: "max (exponent \<bar>of_int n :: rat\<bar>) (- 1022) = e" using e(1,2) by simp
  define k where "k = nat (52 - e)"
  have u: "pow2 (e - 52) = 1 / 2 ^ k"
    using e(3) by (cases "e = 52") (simp_all add: pow2_def k_def)
  have q: "(of_int n :: rat) / pow2 (max (exponent \<bar>of_int n :: rat\<bar>) (- 1022) - 52) = of_int (n * 2 ^ k)"
    unfolding ex u by simp
  have "\<bar>of_int n :: rat\<bar> < 2 ^ 53"
    using assms by (metis of_int_abs of_int_less_numeral_power_cancel_iff)
  also have "\<dots> \<le> 2 ^ 1024" by (rule power_increasing) simp_all
  finally have b: "\<bar>of_int n :: rat\<bar> < overflow" by (simp only: overflow_def)
  from False have "(of_int n :: rat) \<noteq> 0" by simp
  from round64_exact [OF this q b] show ?thesis .
qed

lemma round64_numeral [simp]:
  "(numeral k :: int) < 2 ^ 53 \<Longrightarrow> round64 (numeral k) = Fin (numeral k)"
  "(numeral k :: int) < 2 ^ 53 \<Longrightarrow> round64 (- numeral k) = Fin (- numeral k)"
  "round64 0 = Fin 0" "round64 1 = Fin 1"
  using round64_int [of "numeral k"] round64_int [of "- numeral k"] round64_int [of 1]
  by (simp_all add: round64_def)

lemma fsub_Fin [simp]: "fsub (Fin a) (Fin b) = round64 (a - b)"
  by (simp add: fsub_def)

lemma mag_nonneg [simp]: "0 \<le> mag x"
  by (simp add: mag_def)

lemma whole_int: "whole x \<Longrightarrow> \<exists>n. x = Fin (of_int n)"
  by (cases x) (auto intro: sym)

lemma fadd_whole:
  assumes "whole x" "whole y" "mag x + mag y < 2 ^ 53"
  shows "fadd x y = Fin (val x + val y)" "whole (fadd x y)" "mag (fadd x y) \<le> mag x + mag y"
proof -
  from assms(1,2) obtain a b where ab: "x = Fin (of_int a)" "y = Fin (of_int b)"
    by (auto dest!: whole_int)
  from assms(3) have "(of_int (\<bar>a\<bar> + \<bar>b\<bar>) :: rat) < of_int (2 ^ 53)"
    unfolding ab mag_def by simp
  then have "\<bar>a\<bar> + \<bar>b\<bar> < 2 ^ 53" by (simp only: of_int_less_iff)
  then have "\<bar>a + b\<bar> < 2 ^ 53" by linarith
  from round64_int [OF this] have r: "fadd x y = Fin (of_int (a + b))" by (simp add: ab)
  then show "fadd x y = Fin (val x + val y)" by (simp add: ab)
  from r show "whole (fadd x y)" by (simp del: of_int_add)
  from r show "mag (fadd x y) \<le> mag x + mag y" by (simp add: ab mag_def)
qed

lemma fsub_whole:
  assumes "whole x" "whole y" "mag x + mag y < 2 ^ 53"
  shows "fsub x y = Fin (val x - val y)"
proof -
  from assms(2) have "whole (fneg y)" "mag (fneg y) = mag y" "val (fneg y) = - val y"
    by (cases y; simp add: mag_def; metis of_int_minus floor_of_int)+
  with fadd_whole(1) [of x "fneg y"] assms show ?thesis by (simp add: fsub_def)
qed

lemma foldl_fadd_whole:
  "whole x \<Longrightarrow> \<forall>y\<in>set ys. whole y \<Longrightarrow> mag x + sum_list (map mag ys) < 2 ^ 53 \<Longrightarrow>
   foldl fadd x ys = Fin (val x + sum_list (map val ys)) \<and> whole (foldl fadd x ys) \<and>
   mag (foldl fadd x ys) \<le> mag x + sum_list (map mag ys)"
proof (induction ys arbitrary: x)
  case Nil
  then show ?case by (cases x) simp_all
next
  case (Cons y ys)
  have m: "0 \<le> sum_list (map mag ys)" by (rule sum_list_nonneg) auto
  with Cons.prems have b: "mag x + mag y < 2 ^ 53" by simp
  from Cons.prems have w: "whole x" "whole y" by simp_all
  from fadd_whole [OF w b] Cons.prems
  have "foldl fadd (fadd x y) ys = Fin (val (fadd x y) + sum_list (map val ys)) \<and>
      whole (foldl fadd (fadd x y) ys) \<and>
      mag (foldl fadd (fadd x y) ys) \<le> mag (fadd x y) + sum_list (map mag ys)"
    by (intro Cons.IH) simp_all
  then have IH: "foldl fadd x (y # ys) = Fin (val (fadd x y) + sum_list (map val ys))"
    "whole (foldl fadd x (y # ys))"
    "mag (foldl fadd x (y # ys)) \<le> mag (fadd x y) + sum_list (map mag ys)"
    unfolding foldl_Cons by blast+
  have v: "val (fadd x y) = val x + val y" by (simp only: fadd_whole(1) [OF w b] val.simps)
  have 1: "foldl fadd x (y # ys) = Fin (val x + sum_list (map val (y # ys)))"
    unfolding IH(1) v by simp
  have 3: "mag (foldl fadd x (y # ys)) \<le> mag x + sum_list (map mag (y # ys))"
    using IH(3) fadd_whole(3) [OF w b] by simp
  from 1 IH(2) 3 show ?case by blast
qed

text \<open>
  Sums that are not exact: next to 100 the doubles are \<open>2^(-46)\<close> apart, so adding
  \<open>tiny\<close> to 100 or taking it from 100 gives 100 again.
\<close>

lemma round64_tiny: "round64 (1 / 2 ^ 50) = Fin (1 / 2 ^ 50)"
  using round64_eval [of "1 / 2 ^ 50" "- 50" "2 ^ 52"]
  by (simp add: pow2_def round_half_even_def overflow_def Let_def)

lemma round64_above_100: "round64 (100 + 1 / 2 ^ 50) = Fin 100"
  using round64_eval [of "100 + 1 / 2 ^ 50" 6 "100 * 2 ^ 46"]
    round_half_even_near [of "(100 + 1 / 2 ^ 50) / pow2 (6 - 52)" "100 * 2 ^ 46"]
  by (simp add: pow2_def overflow_def)

lemma round64_below_100: "round64 (100 - 1 / 2 ^ 50) = Fin 100"
  using round64_eval [of "100 - 1 / 2 ^ 50" 6 "100 * 2 ^ 46"]
    round_half_even_near [of "(100 - 1 / 2 ^ 50) / pow2 (6 - 52)" "100 * 2 ^ 46"]
  by (simp add: pow2_def overflow_def)

lemma tiny_arith [simp]:
  "fadd (Fin 100) tiny = Fin 100" "fsub (Fin 100) tiny = Fin 100"
  "fadd tiny (Fin 0) = tiny" "fadd (Fin 0) tiny = tiny" "flt (Fin 100) tiny = False"
  using round64_tiny round64_above_100 round64_below_100
  by (simp_all add: tiny_def del: fsub_Fin add: fsub_def)

lemma val_tiny: "val tiny = 1 / 2 ^ 50"
  by (simp add: tiny_def)

text \<open>Sums of binary fractions that are exact.\<close>

lemma round64_quarters [simp]:
  "round64 (3 / 4) = Fin (3 / 4)" "round64 (397 / 4) = Fin (397 / 4)"
  using round64_eval [of "3 / 4" "- 1" "3 * 2 ^ 51"]
    round_half_even_near [of "(3 / 4) / pow2 (- 1 - 52)" "3 * 2 ^ 51"]
    round64_eval [of "397 / 4" 6 "397 * 2 ^ 44"]
    round_half_even_near [of "(397 / 4) / pow2 (6 - 52)" "397 * 2 ^ 44"]
  by (simp_all add: pow2_def overflow_def)

text \<open>
  Two well-known roundings, as a check of \<open>round64\<close>: the doubles nearest to 0.1 and 0.2
  add up to 0.30000000000000004, and ten times the double nearest to 0.7 is 7 (a tie,
  resolved to the even neighbour) although the exact product is below 7.
\<close>

lemma round64_tenth_plus_fifth:
  "round64 (1 / 10) = Fin (3602879701896397 / 36028797018963968)"
  "round64 (2 / 10) = Fin (3602879701896397 / 18014398509481984)"
  "fadd (Fin (3602879701896397 / 36028797018963968)) (Fin (3602879701896397 / 18014398509481984))
     = Fin (1351079888211149 / 4503599627370496)"
  "round64 (3 / 10) = Fin (5404319552844595 / 18014398509481984)"
  using round64_eval [of "1 / 10" "- 4" 7205759403792794]
    round_half_even_near [of "(1 / 10) / pow2 (- 4 - 52)" 7205759403792794]
    round64_eval [of "2 / 10" "- 3" 7205759403792794]
    round_half_even_near [of "(2 / 10) / pow2 (- 3 - 52)" 7205759403792794]
    round64_eval [of "3602879701896397 / 36028797018963968 + 3602879701896397 / 18014398509481984"
      "- 2" 5404319552844596]
    round_half_even_tie [of 5404319552844595]
    round64_eval [of "3 / 10" "- 2" 5404319552844595]
    round_half_even_near [of "(3 / 10) / pow2 (- 2 - 52)" 5404319552844595]
  by (simp_all add: pow2_def overflow_def)

lemma round64_seven_tenths:
  "round64 (7 / 10) = Fin (3152519739159347 / 4503599627370496)"
  "round64 (3152519739159347 / 4503599627370496 * 10) = Fin 7"
  using round64_eval [of "7 / 10" "- 1" 6305039478318694]
    round_half_even_near [of "(7 / 10) / pow2 (- 1 - 52)" 6305039478318694]
    round64_eval [of "3152519739159347 / 4503599627370496 * 10" 2 7881299347898368]
    round_half_even_tie [of 7881299347898367]
  by (simp_all add: pow2_def overflow_def)

lemma floor_seven_tenths: "\<lfloor>3152519739159347 / 4503599627370496 * 10 :: rat\<rfloor> = 6"
  by (rule floor_unique) simp_all

text \<open>
  And a submission of 0.1 with fee 0.2 from a balance of 100: the balance left is the
  double nearest to 99.7, which together with the pooled amount and fee is more than 100.
\<close>

lemma round64_send_tenths:
  "fsub (Fin 100) (Fin (1351079888211149 / 4503599627370496)) = Fin (7015763794513101 / 70368744177664)"
  "round64 (997 / 10) = Fin (7015763794513101 / 70368744177664)"
  "7015763794513101 / 70368744177664 + 3602879701896397 / 36028797018963968
     + 3602879701896397 / 18014398509481984 = (100 + 103 / 2 ^ 55 :: rat)"
  using round64_eval [of "100 - 1351079888211149 / 4503599627370496" 6 7015763794513101]
    round_half_even_near [of "(100 - 1351079888211149 / 4503599627370496) / pow2 (6 - 52)"
      7015763794513101]
    round64_eval [of "997 / 10" 6 7015763794513101]
    round_half_even_near [of "(997 / 10) / pow2 (6 - 52)" 7015763794513101]
  by (simp_all add: pow2_def overflow_def)

section \<open>Digests and the Merkle root\<close>

lemma length_toString_hex: "length (toString_hex w) = 64"
  by (simp add: toString_hex_def)

lemma hex_digit_in: "hex_digit n \<in> set ''0123456789abcdef''"
  unfolding hex_digit_def by (rule nth_mem) simp

lemma set_toString_hex: "set (toString_hex w) \<subseteq> set ''0123456789abcdef''"
  unfolding toString_hex_def using hex_digit_in by auto

lemma sha256_hex_nonempty: "sha256_hex E s \<noteq> []"
  using length_toString_hex [of "SHA256 E s"] by (auto simp: sha256_hex_def)

lemma sha256_hex_not_genesis: "sha256_hex E s \<noteq> genesis_hash"
proof
  assume "sha256_hex E s = genesis_hash"
  then have "length (sha256_hex E s) = length genesis_hash" by simp
  then show False by (simp add: sha256_hex_def length_toString_hex genesis_hash_def)
qed

lemma nextLevel_spec_pairs: "\<forall>h\<in>set xs. h \<noteq> [] \<Longrightarrow> nextLevel E xs = spec_pairs E xs"
  by (induction E xs rule: nextLevel.induct) simp_all

lemma nextLevel_nonempty: "h \<in> set (nextLevel E xs) \<Longrightarrow> h \<noteq> []"
  by (induction E xs rule: nextLevel.induct) (auto simp: sha256_hex_nonempty sha256_hex_nonempty [THEN not_sym])

lemma whileLevel_spec_reduce:
  "\<forall>h\<in>set xs. h \<noteq> [] \<Longrightarrow> whileLevel E xs = spec_reduce E xs"
proof (induction E xs rule: whileLevel.induct)
  case (1 E xs)
  show ?case
  proof (cases "length xs > 1")
    case True
    have "\<forall>h\<in>set (nextLevel E xs). h \<noteq> []" using nextLevel_nonempty by blast
    with "1.IH" True have "whileLevel E (nextLevel E xs) = spec_reduce E (nextLevel E xs)" by simp
    with True "1.prems" show ?thesis
      by (subst whileLevel.simps, subst spec_reduce.simps) (simp add: nextLevel_spec_pairs)
  next
    case False
    then show ?thesis
      by (subst whileLevel.simps, subst spec_reduce.simps) simp
  qed
qed

lemma whileLevel_single: "xs \<noteq> [] \<Longrightarrow> length (whileLevel E xs) = 1"
proof (induction E xs rule: whileLevel.induct)
  case (1 E xs)
  show ?case
  proof (cases "length xs > 1")
    case True
    then have "nextLevel E xs \<noteq> []" using length_nextLevel [of E xs] by (cases "nextLevel E xs") auto
    with "1.IH" True show ?thesis by (subst whileLevel.simps) simp
  next
    case False
    with "1.prems" have "length xs = 1" by (cases xs) auto
    then show ?thesis by (subst whileLevel.simps) simp
  qed
qed

lemma buildMerkleTree_while:
  "2 \<le> length hs \<Longrightarrow> whileLevel E hs = [buildMerkleTree E hs]"
proof -
  assume a: "2 \<le> length hs"
  then have "hs \<noteq> []" by auto
  from whileLevel_single [OF this, of E] obtain h where "whileLevel E hs = [h]"
    by (cases "whileLevel E hs") auto
  with a \<open>hs \<noteq> []\<close> show ?thesis by (simp add: buildMerkleTree_def)
qed

text \<open>A concrete environment for the worked scenarios.\<close>

definition demo_env :: env where
  "demo_env =
     \<lparr>SHA256 = (\<lambda>s. of_nat (length s)), numToString = (\<lambda>x. decimal (nat \<lfloor>val x\<rfloor>)),
      toNumber = (\<lambda>s. NaN), parseFloat_str = (\<lambda>s. NaN),
      lt_sum_other = (\<lambda>b a f. False), parseFloat_other = (\<lambda>s. NaN)\<rparr>"

section \<open>Effects of the handlers\<close>

lemma triggerMining_fields [simp]:
  "participants (triggerMining trig st) = participants st"
  "mempool (triggerMining trig st) = mempool st"
  "blockchain (triggerMining trig st) = blockchain st"
  "stats (triggerMining trig st) = stats st"
  by (simp_all add: triggerMining_def split: option.split)

lemma miningTimeout_fields [simp]:
  "participants (miningTimeout nick trig st) = participants st"
  "mempool (miningTimeout nick trig st) = mempool st"
  "blockchain (miningTimeout nick trig st) = blockchain st"
  "stats (miningTimeout nick trig st) = stats st"
  by (simp_all add: miningTimeout_def Let_def)

lemma sweep_fields [simp]:
  "participants (sweep trig st) = participants st"
  "mempool (sweep trig st) = mempool st"
  "blockchain (sweep trig st) = blockchain st"
  "stats (sweep trig st) = stats st"
  by (simp_all add: sweep_def)

lemma updateStats_fields [simp]:
  "participants (updateStats st) = participants st"
  "mempool (updateStats st) = mempool st"
  "blockchain (updateStats st) = blockchain st"
  "currentMiner (updateStats st) = currentMiner st"
  "nextMiningTime (updateStats st) = nextMiningTime st"
  "totalTransactions (stats (updateStats st)) = totalTransactions (stats st)"
  "totalBlocks (stats (updateStats st)) = totalBlocks (stats st)"
  by (simp_all add: updateStats_def)

lemma join_workshop_fields [simp]:
  "mempool (fst (join_workshop sid nick rl now st)) = mempool st"
  "blockchain (fst (join_workshop sid nick rl now st)) = blockchain st"
  "currentMiner (fst (join_workshop sid nick rl now st)) = currentMiner st"
  by (simp_all add: join_workshop_def Let_def split: option.split)

lemma disconnect_fields [simp]:
  "mempool (disconnect sid st) = mempool st"
  "blockchain (disconnect sid st) = blockchain st"
  "currentMiner (disconnect sid st) = currentMiner st"
  by (simp_all add: disconnect_def split: option.split)

text \<open>
  The conditions of a submission, in the order the handler tests them: the sender is a
  registered user, the funds test passes, somebody online carries the recipient
  nickname; and the pool has room.
\<close>

definition valid_parties :: "env \<Rightarrow> string \<Rightarrow> string \<Rightarrow> payload \<Rightarrow> payload \<Rightarrow> workshopState \<Rightarrow> bool" where
  "valid_parties E sid to a f st =
     (case map_of (participants st) sid of
        None \<Rightarrow> False
      | Some sender \<Rightarrow> role sender = ''user'' \<and> \<not> insufficient E (balance sender) a f
          \<and> (\<exists>p\<in>set (values_of (participants st)). nickname p = to \<and> online p))"

definition accepts :: "env \<Rightarrow> string \<Rightarrow> string \<Rightarrow> payload \<Rightarrow> payload \<Rightarrow> workshopState \<Rightarrow> bool" where
  "accepts E sid to a f st = (valid_parties E sid to a f st \<and> length (mempool st) < 5)"

lemma find_Some_pred: "find P xs = Some x \<Longrightarrow> P x \<and> x \<in> set xs"
  by (induction xs) (auto split: if_splits)

lemma send_transaction_reject:
  "\<not> accepts E sid to a f st \<Longrightarrow> \<exists>e. send_transaction E sid to a f idv now trig st = (st, Inl e)"
  by (auto simp: send_transaction_def accepts_def valid_parties_def Let_def find_None_iff
      split: option.splits dest: find_Some_pred)


text \<open>The state an accepted submission leaves before the trigger is considered.\<close>

definition submitted :: "env \<Rightarrow> string \<Rightarrow> string \<Rightarrow> string \<Rightarrow> payload \<Rightarrow> payload \<Rightarrow> rat \<Rightarrow> nat
    \<Rightarrow> workshopState \<Rightarrow> workshopState" where
  "submitted E sid frm to a f idv now st =
     st\<lparr>mempool := mempool st @ [\<lparr>txid = idv, tx_from = frm, tx_to = to,
                amount = parseFloat E a, fee = parseFloat E f, tx_timestamp = now,
                tx_hash = generateTransactionHash E \<lparr>txid = idv, tx_from = frm, tx_to = to,
                  amount = parseFloat E a, fee = parseFloat E f, tx_timestamp = now, tx_hash = []\<rparr>\<rparr>],
        stats := (stats st)\<lparr>totalTransactions := totalTransactions (stats st) + 1\<rparr>,
        participants := mutate sid
          (\<lambda>p. p\<lparr>balance := fsub (balance p) (fadd (parseFloat E a) (parseFloat E f))\<rparr>)
          (participants st)\<rparr>"

lemma send_transaction_accept:
  assumes "accepts E sid to a f st"
  shows "\<exists>sender. map_of (participants st) sid = Some sender \<and>
     send_transaction E sid to a f idv now trig st =
       ((if length (mempool (submitted E sid (nickname sender) to a f idv now st)) \<ge> 3
         then triggerMining trig (submitted E sid (nickname sender) to a f idv now st)
         else submitted E sid (nickname sender) to a f idv now st),
        Inr (last (mempool (submitted E sid (nickname sender) to a f idv now st))))"
proof -
  from assms obtain sender where s: "map_of (participants st) sid = Some sender"
    "role sender = ''user''" "\<not> insufficient E (balance sender) a f" "length (mempool st) < 5"
    and ex: "\<exists>p\<in>set (values_of (participants st)). nickname p = to \<and> online p"
    by (auto simp: accepts_def valid_parties_def split: option.splits)
  from ex obtain r where r: "find (\<lambda>p. nickname p = to \<and> online p) (values_of (participants st)) = Some r"
    by (cases "find (\<lambda>p. nickname p = to \<and> online p) (values_of (participants st))")
       (auto simp: find_None_iff)
  then have "nickname r = to" by (auto dest: find_Some_pred)
  with s r show ?thesis
    by (simp add: send_transaction_def submitted_def Let_def)
qed

text \<open>Who may commit a block: the caller is a miner and holds the assignment.\<close>

definition may_mine :: "string \<Rightarrow> workshopState \<Rightarrow> bool" where
  "may_mine sid st =
     (case map_of (participants st) sid of
        None \<Rightarrow> False
      | Some m \<Rightarrow> role m = ''miner'' \<and> currentMiner st = Some (nickname m))"

text \<open>The block a successful \<open>mine_block\<close> builds.\<close>

definition block_of :: "env \<Rightarrow> string \<Rightarrow> nat \<Rightarrow> workshopState \<Rightarrow> block" where
  "block_of E nick now st =
     (let b = \<lparr>number = length (blockchain st), previousHash = hash (last (blockchain st)),
               merkleRoot = buildMerkleTree E (map tx_hash (take 5 (mempool st))),
               timestamp = now, transactions = take 5 (mempool st), miner = nick, hash = []\<rparr>
      in b\<lparr>hash := generateBlockHash E b\<rparr>)"

lemma mine_block_reject:
  "\<not> (may_mine sid st \<and> mempool st \<noteq> []) \<Longrightarrow> \<exists>e. mine_block E sid now st = (st, Inl e)"
  by (auto simp: mine_block_def may_mine_def split: option.splits)


lemma mine_block_commit:
  assumes "map_of (participants st) sid = Some m" "role m = ''miner''"
    "currentMiner st = Some (nickname m)" "mempool st \<noteq> []" "blockchain st \<noteq> []"
  shows "mine_block E sid now st =
     (st\<lparr>mempool := drop 5 (mempool st),
         blockchain := blockchain st @ [block_of E (nickname m) now st],
         stats := (stats st)\<lparr>totalBlocks := totalBlocks (stats st) + 1\<rparr>,
         participants := mutate sid
           (rewardMiner (foldl (\<lambda>sum tx. fadd sum (fee tx)) (Fin 0) (take 5 (mempool st))))
            (foldl (\<lambda>ps tx. creditRecipient tx ps) (participants st) (take 5 (mempool st))),
         currentMiner := None\<rparr>,
      Inr (block_of E (nickname m) now st))"
  using assms by (cases "blockchain st") (simp_all add: mine_block_def Let_def block_of_def)

lemma mine_block_mempool:
  "mempool (fst (mine_block E sid now st)) = mempool st \<or>
   mempool (fst (mine_block E sid now st)) = drop 5 (mempool st)"
  by (simp add: mine_block_def Let_def split: option.split)

lemma mine_block_blockchain:
  "blockchain (fst (mine_block E sid now st)) = blockchain st \<or>
   (\<exists>nick. blockchain st \<noteq> [] \<longrightarrow>
      blockchain (fst (mine_block E sid now st)) = blockchain st @ [block_of E nick now st])"
  by (cases "blockchain st") (auto simp add: mine_block_def Let_def block_of_def split: option.split)

lemma send_transaction_blockchain [simp]:
  "blockchain (fst (send_transaction E sid to a f idv now trig st)) = blockchain st"
  by (simp add: send_transaction_def Let_def split: option.split)

lemma send_transaction_mempool:
  "mempool (fst (send_transaction E sid to a f idv now trig st)) = mempool st \<or>
   (length (mempool st) < 5 \<and>
    (\<exists>tx. mempool (fst (send_transaction E sid to a f idv now trig st)) = mempool st @ [tx]))"
  by (simp add: send_transaction_def Let_def split: option.split)

section \<open>Invariants\<close>

text \<open>
  What the invariants need of a participant entry: its key, nickname and online flag.
  Balances and rewards are the only fields that submissions and mining change.
\<close>

definition shape :: "(string \<times> participant) list \<Rightarrow> (string \<times> string \<times> bool) list" where
  "shape ps = map (\<lambda>(k, p). (k, nickname p, online p)) ps"

definition keys_inv :: "system \<Rightarrow> bool" where
  "keys_inv sys =
     (distinct (map fst (shape (participants (ws sys)))) \<and>
      (\<forall>(k, n, b)\<in>set (shape (participants (ws sys))). b = (k \<in> set (sockets sys))))"


definition miner_inv :: "(string \<times> participant) list \<Rightarrow> bool" where
  "miner_inv ps =
     (\<forall>(k, p)\<in>set ps. role p = ''miner'' \<longrightarrow>
         miningRewards p \<noteq> None \<and> blocksMined p \<noteq> None)"

lemma map_fst_shape [simp]: "map fst (shape ps) = map fst ps"
  by (simp add: shape_def case_prod_unfold)

lemma map_fst_mutate [simp]: "map fst (mutate k f ps) = map fst ps"
  by (induction ps) (auto simp: mutate_def)

lemma map_of_mutate:
  "map_of (mutate k f ps) k' = (if k' = k then map_option f (map_of ps k) else map_of ps k')"
  by (induction ps) (auto simp: mutate_def)

lemma shape_mutate:
  "(\<And>p. nickname (f p) = nickname p \<and> online (f p) = online p) \<Longrightarrow>
   shape (mutate k f ps) = shape ps"
  by (induction ps) (auto simp: mutate_def shape_def)

lemma set_mutate:
  "(k', p') \<in> set (mutate k f ps) \<Longrightarrow> \<exists>p. (k', p) \<in> set ps \<and> (p' = p \<or> p' = f p)"
  by (induction ps) (auto simp: mutate_def split: if_splits)

lemma shape_creditRecipient [simp]: "shape (creditRecipient tx ps) = shape ps"
  by (simp add: creditRecipient_def shape_mutate split: option.split)

lemma shape_foldl_credit [simp]:
  "shape (foldl (\<lambda>ps tx. creditRecipient tx ps) ps txs) = shape ps"
  by (induction txs arbitrary: ps) simp_all

lemma shape_send_transaction [simp]:
  "shape (participants (fst (send_transaction E sid to a f idv now trig st))) = shape (participants st)"
  by (simp add: send_transaction_def Let_def shape_mutate split: option.split)

lemma shape_rewardMiner: "shape (mutate sid (rewardMiner fees) ps) = shape ps"
  by (rule shape_mutate) (simp add: rewardMiner_def)

lemma shape_mine_block [simp]:
  "shape (participants (fst (mine_block E sid now st))) = shape (participants st)"
  by (simp add: mine_block_def Let_def shape_rewardMiner split: option.split)

lemma shape_update:
  "shape (AList.update k p ps) = AList.update k (nickname p, online p) (shape ps)"
  by (induction ps) (auto simp: shape_def)


lemma set_update_any:
  "x \<in> set (AList.update k v al) \<Longrightarrow> x = (k, v) \<or> x \<in> set al"
  by (induction al) (auto split: if_splits)

lemma shape_offline:
  "shape (mutate sid (\<lambda>p. p\<lparr>online := False\<rparr>) ps)
     = map (\<lambda>(k, n, b). if k = sid then (k, n, False) else (k, n, b)) (shape ps)"
  by (induction ps) (auto simp: mutate_def shape_def)



subsection \<open>Keys and connections\<close>

lemma keys_inv_step:
  assumes "keys_inv sys" "admissible ev sys"
  shows "keys_inv (fire E ev sys)"
proof (cases ev)
  case (Connect sid)
  with assms show ?thesis
    by (auto simp: keys_inv_def dest!: arg_cong [where f = "map fst"] split: prod.splits)
       (metis fst_conv image_eqI map_fst_shape set_map)
next
  case (JoinWorkshop sid nick rl now)
  with assms show ?thesis
    by (auto simp: keys_inv_def join_workshop_def Let_def shape_update distinct_update
        split: option.splits dest!: set_update_any)
next
  case (Disconnect sid)
  with assms show ?thesis
    apply (auto simp: keys_inv_def disconnect_def shape_offline split: option.splits if_splits)
      apply (metis map_of_eq_None_iff map_fst_shape fst_conv image_eqI set_map)
    done
qed (use assms in \<open>auto simp: keys_inv_def\<close>)

subsection \<open>Nicknames and miners\<close>





lemma miner_inv_mutate:
  assumes "miner_inv ps" "\<And>p. role (f p) = role p"
    "\<And>p. role p = ''miner'' \<Longrightarrow> miningRewards p \<noteq> None \<and> blocksMined p \<noteq> None \<Longrightarrow>
       miningRewards (f p) \<noteq> None \<and> blocksMined (f p) \<noteq> None"
  shows "miner_inv (mutate k f ps)"
  unfolding miner_inv_def
proof (clarify)
  fix k' p' assume "(k', p') \<in> set (mutate k f ps)" "role p' = ''miner''"
  then obtain p where p: "(k', p) \<in> set ps" "p' = p \<or> p' = f p"
    by (auto dest: set_mutate)
  from p(1) assms(1) have old: "role p = ''miner'' \<longrightarrow> miningRewards p \<noteq> None \<and> blocksMined p \<noteq> None"
    unfolding miner_inv_def by auto
  from p(2) show "miningRewards p' \<noteq> None \<and> blocksMined p' \<noteq> None"
  proof
    assume "p' = p" with old \<open>role p' = ''miner''\<close> show ?thesis by simp
  next
    assume "p' = f p"
    with \<open>role p' = ''miner''\<close> assms(2) have "role p = ''miner''" by simp
    with old assms(3) \<open>p' = f p\<close> show ?thesis by simp
  qed
qed

lemma miner_inv_credit: "miner_inv ps \<Longrightarrow> miner_inv (creditRecipient tx ps)"
  unfolding creditRecipient_def
  by (cases "find_entry (\<lambda>p. nickname p = tx_to tx) ps") (auto intro: miner_inv_mutate)

lemma miner_inv_foldl_credit:
  "miner_inv ps \<Longrightarrow> miner_inv (foldl (\<lambda>ps tx. creditRecipient tx ps) ps txs)"
  by (induction txs arbitrary: ps) (simp_all add: miner_inv_credit)

lemma miner_inv_send:
  "miner_inv (participants st) \<Longrightarrow>
   miner_inv (participants (fst (send_transaction E sid to a f idv now trig st)))"
  by (auto simp: send_transaction_def Let_def intro: miner_inv_mutate split: option.split)

lemma miner_inv_mine:
  "miner_inv (participants st) \<Longrightarrow> miner_inv (participants (fst (mine_block E sid now st)))"
  by (auto simp: mine_block_def Let_def rewardMiner_def
      intro!: miner_inv_mutate miner_inv_foldl_credit split: option.split)

lemma miner_inv_join:
  "miner_inv (participants st) \<Longrightarrow> miner_inv (participants (fst (join_workshop sid nick rl now st)))"
  by (auto simp: miner_inv_def join_workshop_def Let_def split: option.splits dest!: set_update_any)

lemma miner_inv_disconnect:
  "miner_inv (participants st) \<Longrightarrow> miner_inv (participants (disconnect sid st))"
  by (auto simp: disconnect_def intro: miner_inv_mutate split: option.split)

lemma miner_inv_step:
  "miner_inv (participants (ws sys)) \<Longrightarrow> miner_inv (participants (ws (fire E ev sys)))"
  by (cases ev) (simp_all add: miner_inv_send miner_inv_mine miner_inv_join miner_inv_disconnect)

subsection \<open>The pool bound\<close>

lemma pool_step:
  assumes "length (mempool (ws sys)) \<le> 5"
  shows "length (mempool (ws (fire E ev sys))) \<le> 5"
proof (cases ev)
  case (SendTransaction sid to a f idv now trig)
  with assms send_transaction_mempool [of E sid to a f idv now trig "ws sys"]
  show ?thesis by auto
next
  case (MineBlock sid now)
  with assms mine_block_mempool [of E sid now "ws sys"] show ?thesis by auto
qed (use assms in simp_all)

subsection \<open>The chain\<close>

definition chain_ok :: "env \<Rightarrow> block list \<Rightarrow> bool" where
  "chain_ok E bs =
     (bs \<noteq> [] \<and> hash (bs ! 0) = genesis_hash \<and>
      (\<forall>N<length bs. number (bs ! N) = N \<and>
         (0 < N \<longrightarrow> previousHash (bs ! N) = hash (bs ! (N - 1)) \<and>
                    hash (bs ! N) = generateBlockHash E (bs ! N) \<and>
                    merkleRoot (bs ! N) = buildMerkleTree E (map tx_hash (transactions (bs ! N))))))"

lemma generateBlockHash_hash [simp]:
  "generateBlockHash E (b\<lparr>hash := h\<rparr>) = generateBlockHash E b"
  by (simp add: generateBlockHash_def)

lemma block_of_fields [simp]:
  "number (block_of E nick now st) = length (blockchain st)"
  "previousHash (block_of E nick now st) = hash (last (blockchain st))"
  "merkleRoot (block_of E nick now st) = buildMerkleTree E (map tx_hash (take 5 (mempool st)))"
  "transactions (block_of E nick now st) = take 5 (mempool st)"
  "timestamp (block_of E nick now st) = now"
  "miner (block_of E nick now st) = nick"
  "hash (block_of E nick now st) = generateBlockHash E (block_of E nick now st)"
  by (simp_all add: block_of_def Let_def generateBlockHash_def)

lemma chain_ok_append:
  assumes "chain_ok E (blockchain st)"
  shows "chain_ok E (blockchain st @ [block_of E nick now st])"
proof -
  let ?bs = "blockchain st" and ?b = "block_of E nick now st"
  from assms have ne: "?bs \<noteq> []" by (simp add: chain_ok_def)
  have "number ((?bs @ [?b]) ! N) = N \<and>
         (0 < N \<longrightarrow> previousHash ((?bs @ [?b]) ! N) = hash ((?bs @ [?b]) ! (N - 1)) \<and>
                    hash ((?bs @ [?b]) ! N) = generateBlockHash E ((?bs @ [?b]) ! N) \<and>
                    merkleRoot ((?bs @ [?b]) ! N) = buildMerkleTree E (map tx_hash (transactions ((?bs @ [?b]) ! N))))"
    if "N < length (?bs @ [?b])" for N
  proof (cases "N < length ?bs")
    case True
    with assms show ?thesis by (auto simp: chain_ok_def nth_append)
  next
    case False
    with that have N: "N = length ?bs" by simp
    with ne have "0 < N" by simp
    with N ne show ?thesis by (simp add: nth_append last_conv_nth)
  qed
  with assms ne show ?thesis unfolding chain_ok_def by (simp add: nth_append)
qed

lemma chain_step:
  assumes "chain_ok E (blockchain (ws sys))"
  shows "chain_ok E (blockchain (ws (fire E ev sys)))"
proof (cases ev)
  case (MineBlock sid now)
  from assms have "blockchain (ws sys) \<noteq> []" by (simp add: chain_ok_def)
  with MineBlock assms mine_block_blockchain [of E sid now "ws sys"] chain_ok_append [OF assms]
  show ?thesis by auto
qed (use assms in simp_all)

lemma chain_ok_boot: "chain_ok E (blockchain (ws (boot now)))"
  by (simp add: chain_ok_def boot_def initializeBlockchain_def workshopState0_def genesisBlock_def)

subsection \<open>Invariants of the reachable states\<close>

lemma reachable_keys: "reachable E sys \<Longrightarrow> keys_inv sys"
proof (induction rule: reachable.induct)
  case (start now)
  show ?case
    by (simp add: keys_inv_def boot_def initializeBlockchain_def workshopState0_def shape_def)
next
  case (step sys ev)
  then show ?case by (simp add: keys_inv_step)
qed


lemma reachable_miner: "reachable E sys \<Longrightarrow> miner_inv (participants (ws sys))"
proof (induction rule: reachable.induct)
  case (start now)
  show ?case
    by (simp add: miner_inv_def boot_def initializeBlockchain_def workshopState0_def)
next
  case (step sys ev)
  then show ?case by (simp add: miner_inv_step)
qed

lemma reachable_pool: "reachable E sys \<Longrightarrow> length (mempool (ws sys)) \<le> 5"
proof (induction rule: reachable.induct)
  case (start now)
  show ?case by (simp add: boot_def initializeBlockchain_def workshopState0_def)
next
  case (step sys ev)
  then show ?case by (simp add: pool_step)
qed

lemma reachable_chain: "reachable E sys \<Longrightarrow> chain_ok E (blockchain (ws sys))"
proof (induction rule: reachable.induct)
  case (start now)
  show ?case by (rule chain_ok_boot)
next
  case (step sys ev)
  then show ?case by (simp add: chain_step)
qed

lemma reachable_run:
  "reachable E sys \<Longrightarrow> admissible_run E evs sys \<Longrightarrow> reachable E (run E evs sys)"
  by (induction evs arbitrary: sys) (auto intro: reachable.step)

section \<open>Worked scenarios\<close>

definition demo_tx :: "string \<Rightarrow> string \<Rightarrow> jsnum \<Rightarrow> jsnum \<Rightarrow> rat \<Rightarrow> nat \<Rightarrow> transaction" where
  "demo_tx frm to a f idv now =
     (let tx0 = \<lparr>txid = idv, tx_from = frm, tx_to = to, amount = a, fee = f,
                 tx_timestamp = now, tx_hash = []\<rparr>
      in tx0\<lparr>tx_hash := generateTransactionHash demo_env tx0\<rparr>)"

lemma demo_tx_fields [simp]:
  "tx_from (demo_tx frm to a f idv now) = frm"
  "tx_to (demo_tx frm to a f idv now) = to"
  "amount (demo_tx frm to a f idv now) = a"
  "fee (demo_tx frm to a f idv now) = f"
  "tx_timestamp (demo_tx frm to a f idv now) = now"
  by (simp_all add: demo_tx_def)

definition demo_joined_events :: "event list" where
  "demo_joined_events =
     [Connect ''s1'', JoinWorkshop ''s1'' ''alice'' ''user'' 1000,
      Connect ''s2'', JoinWorkshop ''s2'' ''bob'' ''user'' 2000,
      Connect ''s3'', JoinWorkshop ''s3'' ''mike'' ''miner'' 3000]"

definition demo_joined :: system where
  "demo_joined = run demo_env demo_joined_events (boot 0)"

definition demo_assigned :: system where
  "demo_assigned =
     run demo_env [SendTransaction ''s1'' ''bob'' (Number (Fin 10)) (Number (Fin 1)) (8001 / 2) 4000 (0, 4000), Sweep (0, 5000)]
       demo_joined"

definition alice :: participant where
  "alice = \<lparr>pid = ''s1'', nickname = ''alice'', role = ''user'', balance = Fin 100,
            miningRewards = None, blocksMined = None, online = True, joinedAt = 1000\<rparr>"

definition bob :: participant where
  "bob = \<lparr>pid = ''s2'', nickname = ''bob'', role = ''user'', balance = Fin 100,
            miningRewards = None, blocksMined = None, online = True, joinedAt = 2000\<rparr>"

definition mike :: participant where
  "mike = \<lparr>pid = ''s3'', nickname = ''mike'', role = ''miner'', balance = Fin 0,
            miningRewards = Some (Fin 0), blocksMined = Some 0, online = True, joinedAt = 3000\<rparr>"

lemma demo_joined_eq:
  "demo_joined =
     \<lparr>ws = \<lparr>participants = [(''s1'', alice), (''s2'', bob), (''s3'', mike)], mempool = [],
             blockchain = [genesisBlock 0], currentMiner = None, nextMiningTime = None,
             stats = \<lparr>totalTransactions = 0, totalBlocks = 0, activeUsers = 2, activeMiners = 1\<rparr>\<rparr>,
      sockets = [''s3'', ''s2'', ''s1'']\<rparr>"
  by (simp add: demo_joined_def demo_joined_events_def alice_def bob_def mike_def
      join_workshop_def updateStats_def values_of_def boot_def initializeBlockchain_def
      workshopState0_def Let_def)

lemma demo_joined_reachable: "reachable demo_env demo_joined"
  unfolding demo_joined_def
  by (rule reachable_run [OF reachable.start])
     (simp add: demo_joined_events_def join_workshop_def updateStats_def values_of_def boot_def
        initializeBlockchain_def workshopState0_def Let_def)

lemma demo_assigned_eq:
  "demo_assigned =
     \<lparr>ws = \<lparr>participants = [(''s1'', alice\<lparr>balance := Fin 89\<rparr>), (''s2'', bob), (''s3'', mike)],
             mempool = [demo_tx ''alice'' ''bob'' (Fin 10) (Fin 1) (8001 / 2) 4000],
             blockchain = [genesisBlock 0], currentMiner = Some ''mike'',
             nextMiningTime = Some 35000,
             stats = \<lparr>totalTransactions = 1, totalBlocks = 0, activeUsers = 2, activeMiners = 1\<rparr>\<rparr>,
      sockets = [''s3'', ''s2'', ''s1'']\<rparr>"
  by (simp add: demo_assigned_def demo_joined_eq demo_tx_def alice_def bob_def mike_def
      send_transaction_def insufficient_def parseFloat_def sweep_def triggerMining_def getRandomMiner_def values_of_def
      mutate_def Let_def)

lemma demo_assigned_reachable: "reachable demo_env demo_assigned"
  unfolding demo_assigned_def
  by (rule reachable_run [OF demo_joined_reachable]) (simp add: random_ok_def demo_joined_eq)

definition demo_full_events :: "event list" where
  "demo_full_events =
     [Connect ''s1'', JoinWorkshop ''s1'' ''alice'' ''user'' 1000,
      Connect ''s2'', JoinWorkshop ''s2'' ''bob'' ''user'' 2000,
      SendTransaction ''s1'' ''bob'' (Number (Fin 10)) (Number (Fin 1)) (6001 / 2) 3000 (0, 3000),
      SendTransaction ''s1'' ''bob'' (Number (Fin 10)) (Number (Fin 1)) (6003 / 2) 3001 (0, 3001),
      SendTransaction ''s1'' ''bob'' (Number (Fin 10)) (Number (Fin 1)) (6005 / 2) 3002 (0, 3002),
      SendTransaction ''s1'' ''bob'' (Number (Fin 10)) (Number (Fin 1)) (6007 / 2) 3003 (0, 3003),
      SendTransaction ''s1'' ''bob'' (Number (Fin 10)) (Number (Fin 1)) (6009 / 2) 3004 (0, 3004)]"

definition demo_full :: system where
  "demo_full = run demo_env demo_full_events (boot 0)"

lemma demo_full_eq:
  "demo_full =
     \<lparr>ws = \<lparr>participants = [(''s1'', alice\<lparr>balance := Fin 45\<rparr>), (''s2'', bob)],
             mempool = [demo_tx ''alice'' ''bob'' (Fin 10) (Fin 1) (6001 / 2) 3000,
                        demo_tx ''alice'' ''bob'' (Fin 10) (Fin 1) (6003 / 2) 3001,
                        demo_tx ''alice'' ''bob'' (Fin 10) (Fin 1) (6005 / 2) 3002,
                        demo_tx ''alice'' ''bob'' (Fin 10) (Fin 1) (6007 / 2) 3003,
                        demo_tx ''alice'' ''bob'' (Fin 10) (Fin 1) (6009 / 2) 3004],
             blockchain = [genesisBlock 0], currentMiner = None, nextMiningTime = None,
             stats = \<lparr>totalTransactions = 5, totalBlocks = 0, activeUsers = 2, activeMiners = 0\<rparr>\<rparr>,
      sockets = [''s2'', ''s1'']\<rparr>"
  by (simp add: demo_full_def demo_full_events_def demo_tx_def alice_def bob_def
      join_workshop_def send_transaction_def insufficient_def parseFloat_def triggerMining_def getRandomMiner_def
      updateStats_def values_of_def mutate_def boot_def initializeBlockchain_def
      workshopState0_def Let_def)

lemma demo_full_reachable: "reachable demo_env demo_full"
  unfolding demo_full_def
  by (rule reachable_run [OF reachable.start])
     (simp add: demo_full_events_def join_workshop_def send_transaction_def insufficient_def parseFloat_def triggerMining_def
        getRandomMiner_def updateStats_def values_of_def mutate_def boot_def
        initializeBlockchain_def workshopState0_def random_ok_def Let_def)

definition demo_mined :: system where
  "demo_mined = fire demo_env (MineBlock ''s3'' 6000) demo_assigned"

lemma demo_mined_reachable: "reachable demo_env demo_mined"
  unfolding demo_mined_def
  by (rule reachable.step [OF demo_assigned_reachable]) (simp add: demo_assigned_eq)

lemma demo_mined_eq:
  "demo_mined =
     \<lparr>ws = \<lparr>participants = [(''s1'', alice\<lparr>balance := Fin 89\<rparr>), (''s2'', bob\<lparr>balance := Fin 110\<rparr>),
                             (''s3'', mike\<lparr>miningRewards := Some (Fin 1), blocksMined := Some 1\<rparr>)],
             mempool = [],
             blockchain = [genesisBlock 0, block_of demo_env ''mike'' 6000 (ws demo_assigned)],
             currentMiner = None, nextMiningTime = Some 35000,
             stats = \<lparr>totalTransactions = 1, totalBlocks = 1, activeUsers = 2, activeMiners = 1\<rparr>\<rparr>,
      sockets = [''s3'', ''s2'', ''s1'']\<rparr>"
  unfolding demo_mined_def
  by (simp add: demo_assigned_eq mine_block_commit [where m = mike] mike_def)
     (simp add: alice_def bob_def mike_def creditRecipient_def find_entry_def mutate_def
        rewardMiner_def)

lemma demo_mined_by:
  "mine_block demo_env ''s3'' 6000 (ws demo_assigned)
      = (ws demo_mined, Inr (block_of demo_env ''mike'' 6000 (ws demo_assigned)))"
  unfolding demo_mined_def
  by (simp add: mine_block_commit [where m = mike] demo_assigned_eq mike_def)

definition demo_sent :: system where
  "demo_sent =
     fire demo_env (SendTransaction ''s1'' ''bob'' (Number (Fin 10)) (Number (Fin 1)) (8001 / 2) 4000 (0, 4000)) demo_joined"

lemma demo_sent_eq:
  "send_transaction demo_env ''s1'' ''bob'' (Number (Fin 10)) (Number (Fin 1)) (8001 / 2) 4000 (0, 4000) (ws demo_joined)
     = (ws demo_sent, Inr (demo_tx ''alice'' ''bob'' (Fin 10) (Fin 1) (8001 / 2) 4000))"
  by (simp add: demo_sent_def demo_joined_eq demo_tx_def alice_def bob_def mike_def
      send_transaction_def insufficient_def parseFloat_def values_of_def mutate_def Let_def)

lemma demo_sent_state:
  "demo_sent =
     \<lparr>ws = \<lparr>participants = [(''s1'', alice\<lparr>balance := Fin 89\<rparr>), (''s2'', bob), (''s3'', mike)],
             mempool = [demo_tx ''alice'' ''bob'' (Fin 10) (Fin 1) (8001 / 2) 4000],
             blockchain = [genesisBlock 0], currentMiner = None, nextMiningTime = None,
             stats = \<lparr>totalTransactions = 1, totalBlocks = 0, activeUsers = 2, activeMiners = 1\<rparr>\<rparr>,
      sockets = [''s3'', ''s2'', ''s1'']\<rparr>"
  by (simp add: demo_sent_def demo_joined_eq demo_tx_def alice_def bob_def mike_def
      send_transaction_def insufficient_def parseFloat_def values_of_def mutate_def Let_def)

lemma demo_sent_reachable: "reachable demo_env demo_sent"
  unfolding demo_sent_def
  by (rule reachable.step [OF demo_joined_reachable]) (simp add: random_ok_def demo_joined_eq)

subsection \<open>Scenario: a recipient that changes its nickname before the block is mined\<close>

definition robert :: participant where
  "robert = \<lparr>pid = ''s2'', nickname = ''robert'', role = ''user'', balance = Fin 100,
            miningRewards = None, blocksMined = None, online = True, joinedAt = 4500\<rparr>"

definition demo_renamed :: system where
  "demo_renamed =
     run demo_env [JoinWorkshop ''s2'' ''robert'' ''user'' 4500, Sweep (0, 5000)] demo_sent"

lemma demo_renamed_eq:
  "demo_renamed =
     \<lparr>ws = \<lparr>participants = [(''s1'', alice\<lparr>balance := Fin 89\<rparr>), (''s2'', robert), (''s3'', mike)],
             mempool = [demo_tx ''alice'' ''bob'' (Fin 10) (Fin 1) (8001 / 2) 4000],
             blockchain = [genesisBlock 0], currentMiner = Some ''mike'',
             nextMiningTime = Some 35000,
             stats = \<lparr>totalTransactions = 1, totalBlocks = 0, activeUsers = 2, activeMiners = 1\<rparr>\<rparr>,
      sockets = [''s3'', ''s2'', ''s1'']\<rparr>"
  by (simp add: demo_renamed_def demo_sent_state alice_def bob_def mike_def robert_def
      join_workshop_def updateStats_def sweep_def triggerMining_def getRandomMiner_def
      values_of_def Let_def)

lemma demo_renamed_reachable: "reachable demo_env demo_renamed"
  unfolding demo_renamed_def
  by (rule reachable_run [OF demo_sent_reachable]) (simp add: random_ok_def demo_sent_state)

subsection \<open>Scenario: an assignment to the miner with the empty nickname\<close>

definition blank :: participant where
  "blank = \<lparr>pid = ''s3'', nickname = [], role = ''miner'', balance = Fin 0,
            miningRewards = Some (Fin 0), blocksMined = Some 0, online = True, joinedAt = 3000\<rparr>"

definition mike4 :: participant where
  "mike4 = \<lparr>pid = ''s4'', nickname = ''mike'', role = ''miner'', balance = Fin 0,
            miningRewards = Some (Fin 0), blocksMined = Some 0, online = True, joinedAt = 3500\<rparr>"

definition demo_blank_events :: "event list" where
  "demo_blank_events =
     [Connect ''s1'', JoinWorkshop ''s1'' ''alice'' ''user'' 1000,
      Connect ''s2'', JoinWorkshop ''s2'' ''bob'' ''user'' 2000,
      Connect ''s3'', JoinWorkshop ''s3'' [] ''miner'' 3000,
      Connect ''s4'', JoinWorkshop ''s4'' ''mike'' ''miner'' 3500,
      SendTransaction ''s1'' ''bob'' (Number (Fin 10)) (Number (Fin 1)) (8001 / 2) 4000 (0, 4000),
      SendTransaction ''s1'' ''bob'' (Number (Fin 10)) (Number (Fin 1)) (8003 / 2) 4001 (0, 4001),
      SendTransaction ''s1'' ''bob'' (Number (Fin 10)) (Number (Fin 1)) (8005 / 2) 4002 (0, 4002)]"

definition demo_blank :: system where
  "demo_blank = run demo_env demo_blank_events (boot 0)"

lemma demo_blank_eq:
  "demo_blank =
     \<lparr>ws = \<lparr>participants = [(''s1'', alice\<lparr>balance := Fin 67\<rparr>), (''s2'', bob), (''s3'', blank),
                             (''s4'', mike4)],
             mempool = [demo_tx ''alice'' ''bob'' (Fin 10) (Fin 1) (8001 / 2) 4000,
                        demo_tx ''alice'' ''bob'' (Fin 10) (Fin 1) (8003 / 2) 4001,
                        demo_tx ''alice'' ''bob'' (Fin 10) (Fin 1) (8005 / 2) 4002],
             blockchain = [genesisBlock 0], currentMiner = Some [],
             nextMiningTime = Some 34002,
             stats = \<lparr>totalTransactions = 3, totalBlocks = 0, activeUsers = 2, activeMiners = 2\<rparr>\<rparr>,
      sockets = [''s4'', ''s3'', ''s2'', ''s1'']\<rparr>"
  by (simp add: demo_blank_def demo_blank_events_def demo_tx_def alice_def bob_def blank_def
      mike4_def join_workshop_def send_transaction_def insufficient_def parseFloat_def triggerMining_def getRandomMiner_def
      updateStats_def values_of_def mutate_def boot_def initializeBlockchain_def
      workshopState0_def Let_def)

lemma demo_blank_reachable: "reachable demo_env demo_blank"
  unfolding demo_blank_def
  by (rule reachable_run [OF reachable.start])
     (simp add: demo_blank_events_def join_workshop_def send_transaction_def insufficient_def parseFloat_def triggerMining_def
        getRandomMiner_def updateStats_def values_of_def mutate_def boot_def
        initializeBlockchain_def workshopState0_def random_ok_def Let_def)

subsection \<open>Scenario: a nickname that an offline participant also carries\<close>

definition old_bob :: participant where
  "old_bob = \<lparr>pid = ''s0'', nickname = ''bob'', role = ''user'', balance = Fin 100,
            miningRewards = None, blocksMined = None, online = False, joinedAt = 500\<rparr>"

definition demo_reuse_events :: "event list" where
  "demo_reuse_events =
     [Connect ''s0'', JoinWorkshop ''s0'' ''bob'' ''user'' 500, Disconnect ''s0'',
      Connect ''s1'', JoinWorkshop ''s1'' ''alice'' ''user'' 1000,
      Connect ''s2'', JoinWorkshop ''s2'' ''bob'' ''user'' 2000,
      Connect ''s3'', JoinWorkshop ''s3'' ''mike'' ''miner'' 3000]"

definition demo_reuse_joined :: system where
  "demo_reuse_joined = run demo_env demo_reuse_events (boot 0)"

definition demo_reuse :: system where
  "demo_reuse =
     run demo_env [SendTransaction ''s1'' ''bob'' (Number (Fin 10)) (Number (Fin 1)) (8001 / 2) 4000 (0, 4000), Sweep (0, 5000)]
       demo_reuse_joined"

lemma demo_reuse_joined_eq:
  "demo_reuse_joined =
     \<lparr>ws = \<lparr>participants = [(''s0'', old_bob), (''s1'', alice), (''s2'', bob), (''s3'', mike)],
             mempool = [], blockchain = [genesisBlock 0], currentMiner = None,
             nextMiningTime = None,
             stats = \<lparr>totalTransactions = 0, totalBlocks = 0, activeUsers = 2, activeMiners = 1\<rparr>\<rparr>,
      sockets = [''s3'', ''s2'', ''s1'']\<rparr>"
  by (simp add: demo_reuse_joined_def demo_reuse_events_def old_bob_def alice_def bob_def mike_def
      join_workshop_def disconnect_def updateStats_def values_of_def mutate_def boot_def
      initializeBlockchain_def workshopState0_def Let_def)

lemma demo_reuse_eq:
  "demo_reuse =
     \<lparr>ws = \<lparr>participants = [(''s0'', old_bob), (''s1'', alice\<lparr>balance := Fin 89\<rparr>), (''s2'', bob),
                             (''s3'', mike)],
             mempool = [demo_tx ''alice'' ''bob'' (Fin 10) (Fin 1) (8001 / 2) 4000],
             blockchain = [genesisBlock 0], currentMiner = Some ''mike'',
             nextMiningTime = Some 35000,
             stats = \<lparr>totalTransactions = 1, totalBlocks = 0, activeUsers = 2, activeMiners = 1\<rparr>\<rparr>,
      sockets = [''s3'', ''s2'', ''s1'']\<rparr>"
  by (simp add: demo_reuse_def demo_reuse_joined_eq demo_tx_def old_bob_def alice_def bob_def
      mike_def send_transaction_def insufficient_def parseFloat_def sweep_def triggerMining_def getRandomMiner_def values_of_def
      mutate_def Let_def)

lemma demo_reuse_reachable: "reachable demo_env demo_reuse"
proof -
  have "reachable demo_env demo_reuse_joined"
    unfolding demo_reuse_joined_def
    by (rule reachable_run [OF reachable.start])
       (simp add: demo_reuse_events_def join_workshop_def disconnect_def updateStats_def
          values_of_def mutate_def boot_def initializeBlockchain_def workshopState0_def Let_def)
  then show ?thesis
    unfolding demo_reuse_def
    by (rule reachable_run) (simp add: random_ok_def demo_reuse_joined_eq)
qed

subsection \<open>Scenario: a fee that the funds test rounds away\<close>

definition demo_rounded :: system where
  "demo_rounded =
     fire demo_env (SendTransaction ''s1'' ''bob'' (Number (Fin 100)) (Number tiny) (8001 / 2) 4000
       (0, 4000)) demo_joined"

lemma demo_rounded_eq:
  "send_transaction demo_env ''s1'' ''bob'' (Number (Fin 100)) (Number tiny) (8001 / 2) 4000 (0, 4000)
     (ws demo_joined)
     = (ws demo_rounded, Inr (demo_tx ''alice'' ''bob'' (Fin 100) tiny (8001 / 2) 4000))"
  by (simp add: demo_rounded_def demo_joined_eq demo_tx_def alice_def bob_def mike_def
      send_transaction_def insufficient_def parseFloat_def values_of_def mutate_def Let_def)

lemma demo_rounded_state:
  "demo_rounded =
     \<lparr>ws = \<lparr>participants = [(''s1'', alice\<lparr>balance := Fin 0\<rparr>), (''s2'', bob), (''s3'', mike)],
             mempool = [demo_tx ''alice'' ''bob'' (Fin 100) tiny (8001 / 2) 4000],
             blockchain = [genesisBlock 0], currentMiner = None, nextMiningTime = None,
             stats = \<lparr>totalTransactions = 1, totalBlocks = 0, activeUsers = 2, activeMiners = 1\<rparr>\<rparr>,
      sockets = [''s3'', ''s2'', ''s1'']\<rparr>"
  by (simp add: demo_rounded_def demo_joined_eq demo_tx_def alice_def bob_def mike_def
      send_transaction_def insufficient_def parseFloat_def values_of_def mutate_def Let_def)

subsection \<open>Scenario: an amount that the recipient's balance rounds away\<close>

definition demo_dust :: system where
  "demo_dust =
     run demo_env [SendTransaction ''s1'' ''bob'' (Number tiny) (Number (Fin 0)) (8001 / 2) 4000
       (0, 4000), Sweep (0, 5000)] demo_joined"

lemma demo_dust_eq:
  "demo_dust =
     \<lparr>ws = \<lparr>participants = [(''s1'', alice), (''s2'', bob), (''s3'', mike)],
             mempool = [demo_tx ''alice'' ''bob'' tiny (Fin 0) (8001 / 2) 4000],
             blockchain = [genesisBlock 0], currentMiner = Some ''mike'',
             nextMiningTime = Some 35000,
             stats = \<lparr>totalTransactions = 1, totalBlocks = 0, activeUsers = 2, activeMiners = 1\<rparr>\<rparr>,
      sockets = [''s3'', ''s2'', ''s1'']\<rparr>"
  by (simp add: demo_dust_def demo_joined_eq demo_tx_def alice_def bob_def mike_def
      send_transaction_def insufficient_def parseFloat_def sweep_def triggerMining_def
      getRandomMiner_def values_of_def mutate_def Let_def)

lemma demo_dust_reachable: "reachable demo_env demo_dust"
  unfolding demo_dust_def
  by (rule reachable_run [OF demo_joined_reachable]) (simp add: random_ok_def demo_joined_eq)

subsection \<open>Scenario: an amount and a fee that are binary fractions\<close>

definition demo_half :: system where
  "demo_half =
     fire demo_env (SendTransaction ''s1'' ''bob'' (Number (Fin (1 / 2))) (Number (Fin (1 / 4)))
       (8001 / 2) 4000 (0, 4000)) demo_joined"

lemma demo_half_eq:
  "send_transaction demo_env ''s1'' ''bob'' (Number (Fin (1 / 2))) (Number (Fin (1 / 4))) (8001 / 2)
     4000 (0, 4000) (ws demo_joined)
     = (ws demo_half, Inr (demo_tx ''alice'' ''bob'' (Fin (1 / 2)) (Fin (1 / 4)) (8001 / 2) 4000))"
  by (simp add: demo_half_def demo_joined_eq demo_tx_def alice_def bob_def mike_def
      send_transaction_def insufficient_def parseFloat_def values_of_def mutate_def Let_def)

lemma demo_half_state:
  "demo_half =
     \<lparr>ws = \<lparr>participants = [(''s1'', alice\<lparr>balance := Fin (397 / 4)\<rparr>), (''s2'', bob),
                             (''s3'', mike)],
             mempool = [demo_tx ''alice'' ''bob'' (Fin (1 / 2)) (Fin (1 / 4)) (8001 / 2) 4000],
             blockchain = [genesisBlock 0], currentMiner = None, nextMiningTime = None,
             stats = \<lparr>totalTransactions = 1, totalBlocks = 0, activeUsers = 2, activeMiners = 1\<rparr>\<rparr>,
      sockets = [''s3'', ''s2'', ''s1'']\<rparr>"
  by (simp add: demo_half_def demo_joined_eq demo_tx_def alice_def bob_def mike_def
      send_transaction_def insufficient_def parseFloat_def values_of_def mutate_def Let_def)

subsection \<open>Scenario: amount and fee sent as strings\<close>

text \<open>
  An environment that converts the strings of this scenario as JavaScript does. A user
  with balance 100 who sends the strings \<open>10\<close> and \<open>1\<close> is refused: the funds test
  sees their concatenation, 101.
\<close>

definition str_env :: env where
  "str_env =
     demo_env\<lparr>toNumber := (\<lambda>s. if s = ''101'' then Fin 101 else NaN),
              parseFloat_str := (\<lambda>s. if s = ''10'' then Fin 10 else if s = ''1'' then Fin 1 else NaN)\<rparr>"

lemma demo_strings:
  "parseFloat str_env (Str ''10'') = Fin 10 \<and> parseFloat str_env (Str ''1'') = Fin 1 \<and>
   send_transaction str_env ''s1'' ''bob'' (Str ''10'') (Str ''1'') (8001 / 2) 4000 (0, 4000)
       (ws demo_joined)
     = (ws demo_joined, Inl FundsError)"
  by (simp add: str_env_def parseFloat_def demo_joined_eq alice_def send_transaction_def
      insufficient_def)

section \<open>Lemmas for the claims\<close>

fun is_send :: "event \<Rightarrow> bool" where
  "is_send (SendTransaction sid to a f idv now trig) = True"
| "is_send _ = False"

fun is_mine :: "event \<Rightarrow> bool" where
  "is_mine (MineBlock sid now) = True"
| "is_mine _ = False"

fun is_join :: "event \<Rightarrow> bool" where
  "is_join (JoinWorkshop sid nick rl now) = True"
| "is_join _ = False"

lemma other_events_mempool:
  "\<not> is_send ev \<Longrightarrow> \<not> is_mine ev \<Longrightarrow> mempool (ws (fire E ev sys)) = mempool (ws sys)"
  by (cases ev) simp_all

lemma send_transaction_full:
  "valid_parties E sid to a f st \<Longrightarrow> 5 \<le> length (mempool st) \<Longrightarrow>
   send_transaction E sid to a f idv now trig st = (st, Inl CapacityError)"
  by (auto simp: send_transaction_def valid_parties_def Let_def find_None_iff split: option.splits)

lemma genesis_no_digest: "genesis_hash \<noteq> generateBlockHash E b"
  using sha256_hex_not_genesis by (metis generateBlockHash_def)



lemma chain_ok_linked:
  "chain_ok E bs \<Longrightarrow> 0 < N \<Longrightarrow> N < length bs \<Longrightarrow> previousHash (bs ! N) = hash (bs ! (N - 1))"
  by (simp add: chain_ok_def)

lemma generateTransactionHash_hash [simp]:
  "generateTransactionHash E (tx\<lparr>tx_hash := h\<rparr>) = generateTransactionHash E tx"
  by (simp add: generateTransactionHash_def)

subsection \<open>Who is credited\<close>

text \<open>
  The keys of the participants that carry a nickname, in join order; and the key of the
  entry the mining handler credits for a transaction, the first of them.
\<close>

definition carriers :: "(string \<times> participant) list \<Rightarrow> string \<Rightarrow> string list" where
  "carriers ps nick = map fst (filter (\<lambda>(k, p). nickname p = nick) ps)"

definition recipient_key :: "(string \<times> participant) list \<Rightarrow> transaction \<Rightarrow> string option" where
  "recipient_key ps tx = map_option fst (find_entry (\<lambda>p. nickname p = tx_to tx) ps)"

text \<open>
  Key \<open>k\<close> is beyond doubt for a list of transactions when, for each of them whose
  recipient nickname the participant under \<open>k\<close> carries, nobody else carries it. The
  amounts that go to \<open>k\<close> are then those of the transactions whose recipient nickname
  is carried by \<open>k\<close> alone.
\<close>

definition unambiguous :: "(string \<times> participant) list \<Rightarrow> transaction list \<Rightarrow> string \<Rightarrow> bool" where
  "unambiguous ps txs k =
     (\<forall>tx\<in>set txs. k \<in> set (carriers ps (tx_to tx)) \<longrightarrow> carriers ps (tx_to tx) = [k])"

definition credits :: "(string \<times> participant) list \<Rightarrow> transaction list \<Rightarrow> string \<Rightarrow> jsnum list" where
  "credits ps txs k = map amount (filter (\<lambda>tx. carriers ps (tx_to tx) = [k]) txs)"

lemma recipient_key_carriers:
  "recipient_key ps tx = (case carriers ps (tx_to tx) of [] \<Rightarrow> None | k # ks \<Rightarrow> Some k)"
  by (induction ps) (auto simp: recipient_key_def find_entry_def carriers_def)

lemma recipient_key_None: "recipient_key ps tx = None \<longleftrightarrow> carriers ps (tx_to tx) = []"
  by (simp add: recipient_key_carriers split: list.split)

lemma carriers_shape:
  "carriers ps nick = map fst (filter (\<lambda>(k, n, b). n = nick) (shape ps))"
  by (induction ps) (auto simp: carriers_def shape_def)

lemma recipient_key_cong: "shape ps' = shape ps \<Longrightarrow> recipient_key ps' tx = recipient_key ps tx"
  by (simp add: recipient_key_carriers carriers_shape)

lemma unambiguous_filter:
  assumes "unambiguous ps txs k"
  shows "filter (\<lambda>tx. recipient_key ps tx = Some k) txs
     = filter (\<lambda>tx. carriers ps (tx_to tx) = [k]) txs"
proof (rule filter_cong [OF refl])
  fix tx assume tx: "tx \<in> set txs"
  show "(recipient_key ps tx = Some k) = (carriers ps (tx_to tx) = [k])"
  proof
    assume "recipient_key ps tx = Some k"
    then have "k \<in> set (carriers ps (tx_to tx))"
      by (auto simp: recipient_key_carriers split: list.splits)
    with assms tx show "carriers ps (tx_to tx) = [k]" by (auto simp: unambiguous_def)
  next
    assume "carriers ps (tx_to tx) = [k]"
    then show "recipient_key ps tx = Some k" by (simp add: recipient_key_carriers)
  qed
qed

lemma map_of_creditRecipient:
  "map_of (creditRecipient tx ps) k =
     map_option (\<lambda>p. if recipient_key ps tx = Some k then p\<lparr>balance := fadd (balance p) (amount tx)\<rparr> else p)
       (map_of ps k)"
proof (cases "find_entry (\<lambda>p. nickname p = tx_to tx) ps")
  case None
  then show ?thesis
    by (simp add: creditRecipient_def recipient_key_def option.map_ident)
next
  case (Some e)
  then show ?thesis
    by (cases e) (auto simp: creditRecipient_def recipient_key_def map_of_mutate option.map_ident
        intro: option.map_cong)
qed

lemma balance_foldl_credit:
  "map_option balance (map_of (foldl (\<lambda>ps tx. creditRecipient tx ps) ps txs) k) =
     map_option (\<lambda>p. foldl fadd (balance p)
         (map amount (filter (\<lambda>tx. recipient_key ps tx = Some k) txs)))
       (map_of ps k)"
proof (induction txs arbitrary: ps)
  case Nil
  show ?case by simp
next
  case (Cons tx txs)
  have c: "filter (\<lambda>t. recipient_key (creditRecipient tx ps) t = Some k) txs
      = filter (\<lambda>t. recipient_key ps t = Some k) txs"
    by (simp add: recipient_key_cong [of "creditRecipient tx ps" ps])
  show ?case
    by (cases "map_of ps k") (simp_all add: Cons.IH c map_of_creditRecipient)
qed

lemma other_creditRecipient:
  assumes "\<And>p x. g (p\<lparr>balance := x\<rparr>) = g p"
  shows "map_option g (map_of (creditRecipient tx ps) k) = map_option g (map_of ps k)"
  using assms by (cases "map_of ps k") (simp_all add: map_of_creditRecipient)

lemma other_foldl_credit:
  assumes "\<And>p x. g (p\<lparr>balance := x\<rparr>) = g p"
  shows "map_option g (map_of (foldl (\<lambda>ps tx. creditRecipient tx ps) ps txs) k) = map_option g (map_of ps k)"
  by (induction txs arbitrary: ps) (simp_all add: other_creditRecipient [OF assms])

lemma other_mutate:
  assumes "\<And>p. g (f p) = g p"
  shows "map_option g (map_of (mutate k f ps) k') = map_option g (map_of ps k')"
  using assms by (cases "map_of ps k") (auto simp: map_of_mutate option.map_comp comp_def)

lemma foldl_fee:
  "foldl (\<lambda>sum tx. fadd sum (fee tx)) x txs = foldl fadd x (map fee txs)"
  by (induction txs arbitrary: x) simp_all

subsection \<open>What an accepted submission and a successful mine leave behind\<close>

lemma send_transaction_Inr:
  assumes "send_transaction E sid to a f idv now trig st = (st', Inr tx)"
  shows "\<exists>sender.
     map_of (participants st) sid = Some sender \<and>
     participants st' = mutate sid
         (\<lambda>p. p\<lparr>balance := fsub (balance p) (fadd (amount tx) (fee tx))\<rparr>) (participants st) \<and>
     mempool st' = mempool st @ [tx] \<and>
     tx_from tx = nickname sender \<and> tx_to tx = to \<and>
     amount tx = parseFloat E a \<and> fee tx = parseFloat E f \<and>
     tx_timestamp tx = now \<and> tx_hash tx = generateTransactionHash E tx \<and>
     totalTransactions (stats st') = totalTransactions (stats st) + 1 \<and>
     blockchain st' = blockchain st"
proof -
  have acc: "accepts E sid to a f st"
  proof (rule ccontr)
    assume "\<not> accepts E sid to a f st"
    from send_transaction_reject [OF this, where idv = idv and now = now and trig = trig]
      assms show False by auto
  qed
  from send_transaction_accept [OF acc, where idv = idv and now = now and trig = trig] assms
  obtain sender where s: "map_of (participants st) sid = Some sender"
    and st': "st' = (if length (mempool (submitted E sid (nickname sender) to a f idv now st)) \<ge> 3
         then triggerMining trig (submitted E sid (nickname sender) to a f idv now st)
         else submitted E sid (nickname sender) to a f idv now st)"
    and tx: "tx = last (mempool (submitted E sid (nickname sender) to a f idv now st))"
    by auto
  have f: "tx_from tx = nickname sender \<and> tx_to tx = to \<and>
     amount tx = parseFloat E a \<and> fee tx = parseFloat E f \<and>
     tx_timestamp tx = now \<and> tx_hash tx = generateTransactionHash E tx"
    by (simp add: tx submitted_def generateTransactionHash_def)
  have "participants st' = mutate sid
         (\<lambda>p. p\<lparr>balance := fsub (balance p) (fadd (amount tx) (fee tx))\<rparr>) (participants st)"
    "mempool st' = mempool st @ [tx]"
    "totalTransactions (stats st') = totalTransactions (stats st) + 1"
    "blockchain st' = blockchain st"
    using f by (simp_all add: st' tx submitted_def)
  with f s show ?thesis by blast
qed

lemma mine_block_Inr:
  assumes "mine_block E sid now st = (st', Inr blk)" "blockchain st \<noteq> []"
  shows "\<exists>m. map_of (participants st) sid = Some m \<and> role m = ''miner'' \<and>
     currentMiner st = Some (nickname m) \<and> mempool st \<noteq> [] \<and>
     blk = block_of E (nickname m) now st \<and>
     mempool st' = drop 5 (mempool st) \<and>
     participants st' = mutate sid
        (rewardMiner (foldl fadd (Fin 0) (map fee (take 5 (mempool st)))))
        (foldl (\<lambda>ps tx. creditRecipient tx ps) (participants st) (take 5 (mempool st)))"
proof -
  have mm: "may_mine sid st \<and> mempool st \<noteq> []"
  proof (rule ccontr)
    assume "\<not> (may_mine sid st \<and> mempool st \<noteq> [])"
    from mine_block_reject [OF this, of E now] assms(1) show False by auto
  qed
  then obtain m where m: "map_of (participants st) sid = Some m" "role m = ''miner''"
    "currentMiner st = Some (nickname m)" "mempool st \<noteq> []"
    by (auto simp: may_mine_def split: option.splits)
  from mine_block_commit [OF m assms(2), of E now] assms(1)
  have "blk = block_of E (nickname m) now st" "mempool st' = drop 5 (mempool st)"
    "participants st' = mutate sid
        (rewardMiner (foldl fadd (Fin 0) (map fee (take 5 (mempool st)))))
        (foldl (\<lambda>ps tx. creditRecipient tx ps) (participants st) (take 5 (mempool st)))"
    by (auto simp: foldl_fee)
  with m show ?thesis by blast
qed

text \<open>
  The balances after a successful mine. To the balance under a key that is beyond doubt,
  the amounts that go to it are added one after the other, in the order of the block.
  And every balance grows only by amounts of included transactions whose recipient
  nickname its participant carries, each taken at most once.
\<close>

lemma mine_block_first_carrier:
  assumes "mine_block E sid now st = (st', Inr blk)" "blockchain st \<noteq> []"
  shows "map_option balance (map_of (participants st') k) =
     map_option (\<lambda>p. foldl fadd (balance p)
         (map amount (filter (\<lambda>tx. recipient_key (participants st) tx = Some k) (transactions blk))))
       (map_of (participants st) k)"
proof -
  from mine_block_Inr [OF assms(1,2)] obtain m where
    m: "map_of (participants st) sid = Some m"
    and blk: "blk = block_of E (nickname m) now st"
    and p: "participants st' = mutate sid
        (rewardMiner (foldl fadd (Fin 0) (map fee (take 5 (mempool st)))))
        (foldl (\<lambda>ps tx. creditRecipient tx ps) (participants st) (take 5 (mempool st)))"
    by blast
  have t: "transactions blk = take 5 (mempool st)" by (simp add: blk)
  have "map_option balance (map_of (participants st') k)
      = map_option balance (map_of (foldl (\<lambda>ps tx. creditRecipient tx ps) (participants st)
          (take 5 (mempool st))) k)"
    unfolding p by (rule other_mutate) (simp add: rewardMiner_def)
  also have "\<dots> = map_option (\<lambda>p. foldl fadd (balance p)
         (map amount (filter (\<lambda>tx. recipient_key (participants st) tx = Some k) (take 5 (mempool st)))))
       (map_of (participants st) k)"
    by (rule balance_foldl_credit)
  finally show ?thesis by (simp add: t)
qed

lemma mine_block_balances:
  assumes "mine_block E sid now st = (st', Inr blk)" "blockchain st \<noteq> []"
    "unambiguous (participants st) (transactions blk) k"
  shows "map_option balance (map_of (participants st') k) =
     map_option (\<lambda>p. foldl fadd (balance p) (credits (participants st) (transactions blk) k))
       (map_of (participants st) k)"
  using mine_block_first_carrier [OF assms(1,2), of k] unambiguous_filter [OF assms(3)]
  by (simp add: credits_def)

lemma mine_block_credited_only:
  assumes "mine_block E sid now st = (st', Inr blk)" "blockchain st \<noteq> []"
  shows "\<exists>sub. subseq sub (filter (\<lambda>tx. k \<in> set (carriers (participants st) (tx_to tx)))
                          (transactions blk)) \<and>
     map_option balance (map_of (participants st') k) =
       map_option (\<lambda>p. foldl fadd (balance p) (map amount sub)) (map_of (participants st) k)"
proof -
  let ?first = "\<lambda>tx. recipient_key (participants st) tx = Some k"
  let ?carries = "\<lambda>tx. k \<in> set (carriers (participants st) (tx_to tx))"
  have "filter ?first (transactions blk) = filter ?first (filter ?carries (transactions blk))"
    unfolding filter_filter
    by (rule filter_cong) (auto simp: recipient_key_carriers split: list.splits)
  then have "subseq (filter ?first (transactions blk)) (filter ?carries (transactions blk))"
    by (metis subseq_filter_left)
  with mine_block_first_carrier [OF assms, of k] show ?thesis by blast
qed

lemma balances_other:
  "\<not> is_send ev \<Longrightarrow> \<not> is_mine ev \<Longrightarrow> \<not> is_join ev \<Longrightarrow>
   map (\<lambda>(k, p). (k, balance p)) (participants (ws (fire E ev sys)))
     = map (\<lambda>(k, p). (k, balance p)) (participants (ws sys))"
proof (cases ev)
  case (Disconnect sid)
  have "map (\<lambda>(k, p). (k, balance p)) (mutate sid (\<lambda>p. p\<lparr>online := False\<rparr>) ps)
      = map (\<lambda>(k, p). (k, balance p)) ps" for ps
    by (induction ps) (auto simp: mutate_def)
  then show ?thesis
    by (simp add: Disconnect disconnect_def split: option.split)
qed simp_all

subsection \<open>The tokens in the system\<close>

text \<open>
  The tokens in the system: all balances, the mining rewards of the miners, and the
  amounts and fees that wait in the pool, each number taken at its rational value.
\<close>

definition rewards_of :: "participant \<Rightarrow> jsnum" where
  "rewards_of p =
     (if role p = ''miner'' then (case miningRewards p of None \<Rightarrow> Fin 0 | Some r \<Rightarrow> r) else Fin 0)"

definition total :: "workshopState \<Rightarrow> rat" where
  "total st =
     sum_list (map (\<lambda>(k, p). val (balance p)) (participants st))
     + sum_list (map (\<lambda>(k, p). val (rewards_of p)) (participants st))
     + sum_list (map (\<lambda>tx. val (amount tx) + val (fee tx)) (mempool st))"

text \<open>What a block's transactions credit to nobody: no participant carries the nickname.\<close>

definition burnt :: "(string \<times> participant) list \<Rightarrow> transaction list \<Rightarrow> rat" where
  "burnt ps txs =
     sum_list (map (\<lambda>tx. val (amount tx)) (filter (\<lambda>tx. carriers ps (tx_to tx) = []) txs))"

text \<open>
  A state in which the double arithmetic of the handlers is exact: every balance, reward,
  pooled amount and pooled fee is a whole number, and their magnitudes add up to less
  than \<open>2^53\<close>.
\<close>

definition all_whole :: "workshopState \<Rightarrow> bool" where
  "all_whole st =
     ((\<forall>(k, p)\<in>set (participants st). whole (balance p) \<and> whole (rewards_of p)) \<and>
      (\<forall>tx\<in>set (mempool st). whole (amount tx) \<and> whole (fee tx)))"

definition magnitude :: "workshopState \<Rightarrow> rat" where
  "magnitude st =
     sum_list (map (\<lambda>(k, p). mag (balance p)) (participants st))
     + sum_list (map (\<lambda>(k, p). mag (rewards_of p)) (participants st))
     + sum_list (map (\<lambda>tx. mag (amount tx) + mag (fee tx)) (mempool st))"

definition exact_state :: "workshopState \<Rightarrow> bool" where
  "exact_state st = (all_whole st \<and> magnitude st < 2 ^ 53)"

text \<open>
  More generally, a step whose double additions and subtractions are all exact, none of
  them being rounded: the sum of amount and fee and the debit of a submission; the
  credits, the sum of the fees and the reward of a mine.
\<close>

definition exact_add :: "jsnum \<Rightarrow> jsnum \<Rightarrow> bool" where
  "exact_add x y = (fadd x y = Fin (val x + val y))"

definition exact_sub :: "jsnum \<Rightarrow> jsnum \<Rightarrow> bool" where
  "exact_sub x y = (fsub x y = Fin (val x - val y))"

definition exact_send :: "env \<Rightarrow> string \<Rightarrow> payload \<Rightarrow> payload \<Rightarrow> workshopState \<Rightarrow> bool" where
  "exact_send E sid a f st =
     (case map_of (participants st) sid of
        None \<Rightarrow> False
      | Some sender \<Rightarrow>
          exact_add (parseFloat E a) (parseFloat E f) \<and>
          exact_sub (balance sender) (fadd (parseFloat E a) (parseFloat E f)))"

fun exact_credits :: "(string \<times> participant) list \<Rightarrow> transaction list \<Rightarrow> bool" where
  "exact_credits ps [] = True"
| "exact_credits ps (tx # txs) =
     ((case find_entry (\<lambda>p. nickname p = tx_to tx) ps of
         None \<Rightarrow> True
       | Some (k, recipient) \<Rightarrow> exact_add (balance recipient) (amount tx)) \<and>
      exact_credits (creditRecipient tx ps) txs)"

fun exact_sum :: "jsnum \<Rightarrow> jsnum list \<Rightarrow> bool" where
  "exact_sum x [] = True"
| "exact_sum x (y # ys) = (exact_add x y \<and> exact_sum (fadd x y) ys)"

definition exact_mine :: "string \<Rightarrow> workshopState \<Rightarrow> bool" where
  "exact_mine sid st =
     (case map_of (participants st) sid of
        None \<Rightarrow> False
      | Some m \<Rightarrow>
          exact_credits (participants st) (take 5 (mempool st)) \<and>
          exact_sum (Fin 0) (map fee (take 5 (mempool st))) \<and>
          exact_add (rewards_of m) (foldl fadd (Fin 0) (map fee (take 5 (mempool st)))))"

lemma mutate_absent: "map_of ps k = None \<Longrightarrow> mutate k f ps = ps"
  by (induction ps) (auto simp: mutate_def split: if_splits)

lemma sum_mutate:
  "distinct (map fst ps) \<Longrightarrow> map_of ps k = Some p \<Longrightarrow>
   sum_list (map (\<lambda>(k, p). g p) (mutate k f ps)) = sum_list (map (\<lambda>(k, p). (g p :: rat)) ps) + (g (f p) - g p)"
proof (induction ps)
  case Nil
  then show ?case by simp
next
  case (Cons e ps)
  obtain k' q where e: "e = (k', q)" by (cases e)
  show ?case
  proof (cases "k' = k")
    case True
    with Cons.prems e have "map_of ps k = None" "q = p"
      by (auto simp: map_of_eq_None_iff)
    with True e mutate_absent [of ps k f] show ?thesis
      by (simp add: mutate_def)
  next
    case False
    with Cons e have "sum_list (map (\<lambda>(k, p). g p) (mutate k f ps))
        = sum_list (map (\<lambda>(k, p). g p) ps) + (g (f p) - g p)" by simp
    with False e show ?thesis by (simp add: mutate_def)
  qed
qed

lemma sum_mutate_same:
  "(\<And>p. g (f p) = g p) \<Longrightarrow>
   sum_list (map (\<lambda>(k, p). g p) (mutate k f ps)) = sum_list (map (\<lambda>(k, p). (g p :: rat)) ps)"
  by (induction ps) (auto simp: mutate_def)

lemma set_mutate_distinct:
  assumes "distinct (map fst ps)" "map_of ps k = Some r" "(k', p') \<in> set (mutate k f ps)"
  shows "(k', p') \<in> set ps \<or> p' = f r"
proof -
  from assms(3) obtain p where p: "(k', p) \<in> set ps" "p' = (if k' = k then f p else p)"
    by (auto simp: mutate_def split: if_splits)
  show ?thesis
  proof (cases "k' = k")
    case True
    with p(1) assms(1) have "map_of ps k = Some p" by simp
    with assms(2) p(2) True show ?thesis by simp
  next
    case False
    with p show ?thesis by simp
  qed
qed

lemma elem_le_sum_list:
  "(k, p) \<in> set ps \<Longrightarrow> (\<And>q. 0 \<le> g q) \<Longrightarrow> g p \<le> sum_list (map (\<lambda>(k, p). (g p :: rat)) ps)"
proof (induction ps)
  case Nil
  then show ?case by simp
next
  case (Cons e ps)
  have n: "0 \<le> sum_list (map (\<lambda>(k, p). g p) ps)"
    by (rule sum_list_nonneg) (auto simp: Cons.prems(2))
  show ?case
  proof (cases "e = (k, p)")
    case True
    with n show ?thesis by simp
  next
    case False
    with Cons have "g p \<le> sum_list (map (\<lambda>(k, p). g p) ps)" by simp
    moreover have "0 \<le> (case e of (k, p) \<Rightarrow> g p)" by (cases e) (simp add: Cons.prems(2))
    ultimately show ?thesis by simp
  qed
qed

lemma find_entry_Some:
  "find_entry P ps = Some (k, p) \<Longrightarrow> distinct (map fst ps) \<Longrightarrow> map_of ps k = Some p"
  by (auto simp: find_entry_def dest!: find_Some_pred)

lemma map_fst_creditRecipient [simp]: "map fst (creditRecipient tx ps) = map fst ps"
  by (simp add: creditRecipient_def split: option.split)

lemma map_fst_foldl_credit [simp]:
  "map fst (foldl (\<lambda>ps tx. creditRecipient tx ps) ps txs) = map fst ps"
  by (induction txs arbitrary: ps) simp_all

text \<open>One credit, and the credits of a block, where the sums are exact.\<close>

lemma credit_exact:
  assumes d: "distinct (map fst ps)" and w: "\<forall>(k, p)\<in>set ps. whole (balance p)"
    and wa: "whole (amount tx)"
    and b: "sum_list (map (\<lambda>(k, p). mag (balance p)) ps) + mag (amount tx) < 2 ^ 53"
  shows "sum_list (map (\<lambda>(k, p). val (balance p)) (creditRecipient tx ps))
      = sum_list (map (\<lambda>(k, p). val (balance p)) ps)
        + (if carriers ps (tx_to tx) = [] then 0 else val (amount tx)) \<and>
    (\<forall>(k, p)\<in>set (creditRecipient tx ps). whole (balance p)) \<and>
    sum_list (map (\<lambda>(k, p). mag (balance p)) (creditRecipient tx ps))
      \<le> sum_list (map (\<lambda>(k, p). mag (balance p)) ps) + mag (amount tx)"
proof (cases "find_entry (\<lambda>p. nickname p = tx_to tx) ps")
  case None
  then have "recipient_key ps tx = None" by (simp add: recipient_key_def)
  then have "carriers ps (tx_to tx) = []" by (simp add: recipient_key_None)
  with None w show ?thesis by (simp add: creditRecipient_def)
next
  case (Some e)
  obtain k r where e: "e = (k, r)" by (cases e)
  with Some d have r: "map_of ps k = Some r" by (simp add: find_entry_Some)
  then have mem: "(k, r) \<in> set ps" by (rule map_of_SomeD)
  from Some e have "recipient_key ps tx = Some k" by (simp add: recipient_key_def)
  then have ne: "carriers ps (tx_to tx) \<noteq> []" using recipient_key_None [of ps tx] by simp
  let ?f = "\<lambda>p. p\<lparr>balance := fadd (balance p) (amount tx)\<rparr>"
  have c: "creditRecipient tx ps = mutate k ?f ps" using Some e by (simp add: creditRecipient_def)
  from mem w have wr: "whole (balance r)" by auto
  from elem_le_sum_list [OF mem, of "\<lambda>p. mag (balance p)"]
  have "mag (balance r) \<le> sum_list (map (\<lambda>(k, p). mag (balance p)) ps)" by simp
  with b have br: "mag (balance r) + mag (amount tx) < 2 ^ 53" by simp
  note fw = fadd_whole [OF wr wa br]
  have 1: "sum_list (map (\<lambda>(k, p). val (balance p)) (creditRecipient tx ps))
      = sum_list (map (\<lambda>(k, p). val (balance p)) ps) + val (amount tx)"
    unfolding c using sum_mutate [OF d r, of "\<lambda>p. val (balance p)" ?f] fw(1) by simp
  have 2: "\<forall>(k, p)\<in>set (creditRecipient tx ps). whole (balance p)"
  proof (clarify)
    fix k' p' assume "(k', p') \<in> set (creditRecipient tx ps)"
    then have "(k', p') \<in> set ps \<or> p' = ?f r"
      unfolding c by (rule set_mutate_distinct [OF d r])
    with w fw(2) show "whole (balance p')" by auto
  qed
  have 3: "sum_list (map (\<lambda>(k, p). mag (balance p)) (creditRecipient tx ps))
      \<le> sum_list (map (\<lambda>(k, p). mag (balance p)) ps) + mag (amount tx)"
    unfolding c using sum_mutate [OF d r, of "\<lambda>p. mag (balance p)" ?f] fw(3) by simp
  from 1 2 3 ne show ?thesis by simp
qed

lemma carriers_credit [simp]: "carriers (creditRecipient tx ps) nick = carriers ps nick"
  by (simp add: carriers_shape)

lemma foldl_credit_exact:
  "distinct (map fst ps) \<Longrightarrow> \<forall>(k, p)\<in>set ps. whole (balance p) \<Longrightarrow>
   \<forall>tx\<in>set txs. whole (amount tx) \<Longrightarrow>
   sum_list (map (\<lambda>(k, p). mag (balance p)) ps) + sum_list (map (\<lambda>tx. mag (amount tx)) txs) < 2 ^ 53 \<Longrightarrow>
   sum_list (map (\<lambda>(k, p). val (balance p)) (foldl (\<lambda>ps tx. creditRecipient tx ps) ps txs))
     = sum_list (map (\<lambda>(k, p). val (balance p)) ps) + sum_list (map (\<lambda>tx. val (amount tx)) txs)
       - burnt ps txs"
proof (induction txs arbitrary: ps)
  case Nil
  show ?case by (simp add: burnt_def)
next
  case (Cons tx txs)
  have n: "0 \<le> sum_list (map (\<lambda>tx. mag (amount tx)) txs)" by (rule sum_list_nonneg) auto
  with Cons.prems(4) have b: "sum_list (map (\<lambda>(k, p). mag (balance p)) ps) + mag (amount tx) < 2 ^ 53"
    by simp
  from Cons.prems(3) have wa: "whole (amount tx)" by simp
  note ce = credit_exact [OF Cons.prems(1,2) wa b]
  have "sum_list (map (\<lambda>(k, p). val (balance p))
          (foldl (\<lambda>ps tx. creditRecipient tx ps) (creditRecipient tx ps) txs))
     = sum_list (map (\<lambda>(k, p). val (balance p)) (creditRecipient tx ps))
       + sum_list (map (\<lambda>tx. val (amount tx)) txs) - burnt (creditRecipient tx ps) txs"
  proof (rule Cons.IH)
    show "distinct (map fst (creditRecipient tx ps))" using Cons.prems(1) by simp
    show "\<forall>(k, p)\<in>set (creditRecipient tx ps). whole (balance p)" using ce by blast
    show "\<forall>tx\<in>set txs. whole (amount tx)" using Cons.prems(3) by simp
    from ce have "sum_list (map (\<lambda>(k, p). mag (balance p)) (creditRecipient tx ps))
      \<le> sum_list (map (\<lambda>(k, p). mag (balance p)) ps) + mag (amount tx)" by blast
    with Cons.prems(4)
    show "sum_list (map (\<lambda>(k, p). mag (balance p)) (creditRecipient tx ps))
        + sum_list (map (\<lambda>tx. mag (amount tx)) txs) < 2 ^ 53" by simp
  qed
  moreover from ce have "sum_list (map (\<lambda>(k, p). val (balance p)) (creditRecipient tx ps))
      = sum_list (map (\<lambda>(k, p). val (balance p)) ps)
        + (if carriers ps (tx_to tx) = [] then 0 else val (amount tx))" by blast
  ultimately show ?case by (simp add: burnt_def)
qed

lemma sum_rewards_credit:
  "sum_list (map (\<lambda>(k, p). val (rewards_of p)) (creditRecipient tx ps))
     = sum_list (map (\<lambda>(k, p). val (rewards_of p)) ps)"
  by (simp add: creditRecipient_def sum_mutate_same rewards_of_def split: option.split)

lemma sum_rewards_foldl_credit:
  "sum_list (map (\<lambda>(k, p). val (rewards_of p)) (foldl (\<lambda>ps tx. creditRecipient tx ps) ps txs))
     = sum_list (map (\<lambda>(k, p). val (rewards_of p)) ps)"
  by (induction txs arbitrary: ps) (simp_all add: sum_rewards_credit)

lemma sum_pool_split:
  "sum_list (map (\<lambda>tx. g tx + h tx) pool)
     = sum_list (map g (take n pool)) + sum_list (map h (take n pool))
       + sum_list (map (\<lambda>tx. g tx + (h tx :: rat)) (drop n pool))"
proof -
  have "sum_list (map (\<lambda>tx. g tx + h tx) (take n pool @ drop n pool))
     = sum_list (map g (take n pool)) + sum_list (map h (take n pool))
       + sum_list (map (\<lambda>tx. g tx + h tx) (drop n pool))"
    unfolding map_append sum_list_append by (simp add: sum_list_addf)
  then show ?thesis by simp
qed

lemma total_send:
  assumes "distinct (map fst (participants st))" "exact_state st"
    "send_transaction E sid to a f idv now trig st = (st', Inr tx)"
    "whole (parseFloat E a)" "whole (parseFloat E f)"
    "magnitude st + mag (parseFloat E a) + mag (parseFloat E f) < 2 ^ 53"
  shows "total st' = total st"
proof -
  from send_transaction_Inr [OF assms(3)] obtain sender where
    s: "map_of (participants st) sid = Some sender"
    and p: "participants st' = mutate sid
         (\<lambda>p. p\<lparr>balance := fsub (balance p) (fadd (amount tx) (fee tx))\<rparr>) (participants st)"
    and m: "mempool st' = mempool st @ [tx]"
    and t: "amount tx = parseFloat E a" "fee tx = parseFloat E f"
    by blast
  from s have mem: "(sid, sender) \<in> set (participants st)" by (rule map_of_SomeD)
  with assms(2) have wb: "whole (balance sender)" by (auto simp: exact_state_def all_whole_def)
  have "0 \<le> sum_list (map (\<lambda>(k, p). mag (rewards_of p)) (participants st))"
    "0 \<le> sum_list (map (\<lambda>tx. mag (amount tx) + mag (fee tx)) (mempool st))"
    by (rule sum_list_nonneg, auto)+
  with elem_le_sum_list [OF mem, of "\<lambda>p. mag (balance p)"]
  have "mag (balance sender) \<le> magnitude st" by (simp add: magnitude_def)
  with assms(6) have b: "mag (balance sender) + (mag (amount tx) + mag (fee tx)) < 2 ^ 53"
    by (simp add: t)
  then have b1: "mag (amount tx) + mag (fee tx) < 2 ^ 53"
    using mag_nonneg [of "balance sender"] by linarith
  from assms(4,5) have w: "whole (amount tx)" "whole (fee tx)" by (simp_all add: t)
  note fw = fadd_whole [OF w b1]
  from b fw(3) have b2: "mag (balance sender) + mag (fadd (amount tx) (fee tx)) < 2 ^ 53" by simp
  from fsub_whole [OF wb fw(2) b2] fw(1)
  have d: "fsub (balance sender) (fadd (amount tx) (fee tx))
      = Fin (val (balance sender) - (val (amount tx) + val (fee tx)))" by simp
  have "sum_list (map (\<lambda>(k, p). val (balance p)) (participants st'))
      = sum_list (map (\<lambda>(k, p). val (balance p)) (participants st)) - (val (amount tx) + val (fee tx))"
    unfolding p
    using sum_mutate [OF assms(1) s, of "\<lambda>p. val (balance p)"
        "\<lambda>p. p\<lparr>balance := fsub (balance p) (fadd (amount tx) (fee tx))\<rparr>"] d
    by simp
  moreover have "sum_list (map (\<lambda>(k, p). val (rewards_of p)) (participants st'))
      = sum_list (map (\<lambda>(k, p). val (rewards_of p)) (participants st))"
    unfolding p by (rule sum_mutate_same) (simp add: rewards_of_def)
  ultimately show ?thesis by (simp add: total_def m)
qed

lemma total_mine:
  assumes "distinct (map fst (participants st))" "blockchain st \<noteq> []" "exact_state st"
    "mine_block E sid now st = (st', Inr blk)"
  shows "total st' = total st - burnt (participants st) (transactions blk)"
proof -
  let ?txs = "take 5 (mempool st)"
  let ?fees = "foldl fadd (Fin 0) (map fee ?txs)"
  let ?credited = "foldl (\<lambda>ps tx. creditRecipient tx ps) (participants st) ?txs"
  from mine_block_Inr [OF assms(4,2)] obtain m where
    m: "map_of (participants st) sid = Some m" "role m = ''miner''"
    and blk: "blk = block_of E (nickname m) now st"
    and pool: "mempool st' = drop 5 (mempool st)"
    and p: "participants st' = mutate sid (rewardMiner ?fees) ?credited"
    by blast
  have t: "transactions blk = ?txs" by (simp add: blk)
  from assms(3) have wp: "\<forall>(k, p)\<in>set (participants st). whole (balance p)"
    and wr: "\<forall>(k, p)\<in>set (participants st). whole (rewards_of p)"
    and wt: "\<forall>tx\<in>set (mempool st). whole (amount tx) \<and> whole (fee tx)"
    and mg: "magnitude st < 2 ^ 53"
    by (auto simp: exact_state_def all_whole_def)
  have nn: "0 \<le> sum_list (map (\<lambda>(k, p). mag (balance p)) (participants st))"
    "0 \<le> sum_list (map (\<lambda>(k, p). mag (rewards_of p)) (participants st))"
    "0 \<le> sum_list (map (\<lambda>tx. mag (amount tx) + mag (fee tx)) (drop 5 (mempool st)))"
    "0 \<le> sum_list (map (\<lambda>tx. mag (amount tx)) ?txs)"
    "0 \<le> sum_list (map (\<lambda>tx. mag (fee tx)) ?txs)"
    by (rule sum_list_nonneg, auto)+
  note sp = sum_pool_split [of "\<lambda>tx. mag (amount tx)" "\<lambda>tx. mag (fee tx)" "mempool st" 5]
  have wtx: "\<forall>tx\<in>set ?txs. whole (amount tx)" "\<forall>y\<in>set (map fee ?txs). whole y"
    using wt by (auto dest: in_set_takeD)
  have b1: "sum_list (map (\<lambda>(k, p). mag (balance p)) (participants st))
      + sum_list (map (\<lambda>tx. mag (amount tx)) ?txs) < 2 ^ 53"
    using mg nn sp by (simp add: magnitude_def)
  have bal: "sum_list (map (\<lambda>(k, p). val (balance p)) (participants st'))
      = sum_list (map (\<lambda>(k, p). val (balance p)) (participants st))
        + sum_list (map (\<lambda>tx. val (amount tx)) ?txs) - burnt (participants st) ?txs"
    unfolding p using foldl_credit_exact [OF assms(1) wp wtx(1) b1]
    by (simp add: sum_mutate_same rewardMiner_def)
  have d: "distinct (map fst ?credited)" using assms(1) by simp
  have "map_option role (map_of ?credited sid) = Some ''miner''"
    "map_option miningRewards (map_of ?credited sid) = Some (miningRewards m)"
    using m by (simp_all add: other_foldl_credit)
  then obtain mc where mc: "map_of ?credited sid = Some mc" "role mc = ''miner''"
    "miningRewards mc = miningRewards m"
    by auto
  from m have mem: "(sid, m) \<in> set (participants st)" by (auto dest: map_of_SomeD)
  with wr have wm: "whole (rewards_of m)" by auto
  from elem_le_sum_list [OF mem, of "\<lambda>p. mag (rewards_of p)"]
  have "mag (rewards_of m) \<le> sum_list (map (\<lambda>(k, p). mag (rewards_of p)) (participants st))"
    by simp
  with mg nn sp have b2: "mag (rewards_of m) + sum_list (map mag (map fee ?txs)) < 2 ^ 53"
    by (simp add: magnitude_def comp_def)
  then have b3: "mag (Fin 0) + sum_list (map mag (map fee ?txs)) < 2 ^ 53"
    using mag_nonneg [of "rewards_of m"] by (simp add: mag_def)
  have w0: "whole (Fin 0)" by simp
  from foldl_fadd_whole [OF w0 wtx(2) b3]
  have fe: "?fees = Fin (val (Fin 0) + sum_list (map val (map fee ?txs)))" "whole ?fees"
    "mag ?fees \<le> mag (Fin 0) + sum_list (map mag (map fee ?txs))"
    by blast+
  have vf: "val ?fees = sum_list (map (\<lambda>tx. val (fee tx)) ?txs)"
    unfolding fe(1) by (simp add: comp_def)
  from b2 fe(3) have b4: "mag (rewards_of m) + mag ?fees < 2 ^ 53" by (simp add: mag_def)
  have rm: "rewards_of mc = rewards_of m" using mc(2,3) m(2) by (simp add: rewards_of_def)
  have "rewards_of (rewardMiner ?fees mc) = fadd (rewards_of m) ?fees"
    using mc(2,3) m(2) by (simp add: rewards_of_def rewardMiner_def)
  also have "\<dots> = Fin (val (rewards_of m) + val ?fees)"
    by (rule fadd_whole(1) [OF wm fe(2) b4])
  finally have "val (rewards_of (rewardMiner ?fees mc)) - val (rewards_of mc)
      = sum_list (map (\<lambda>tx. val (fee tx)) ?txs)"
    by (simp only: val.simps rm vf)
  with sum_mutate [OF d mc(1), of "\<lambda>p. val (rewards_of p)" "rewardMiner ?fees"]
  have rew: "sum_list (map (\<lambda>(k, p). val (rewards_of p)) (participants st'))
      = sum_list (map (\<lambda>(k, p). val (rewards_of p)) (participants st))
        + sum_list (map (\<lambda>tx. val (fee tx)) ?txs)"
    unfolding p by (simp add: sum_rewards_foldl_credit)
  show ?thesis
    unfolding total_def bal rew pool t
    using sum_pool_split [of "\<lambda>tx. val (amount tx)" "\<lambda>tx. val (fee tx)" "mempool st" 5] by simp
qed

text \<open>The same for steps whose sums are exact.\<close>

lemma total_send_exact:
  assumes "distinct (map fst (participants st))" "exact_send E sid a f st"
    "send_transaction E sid to a f idv now trig st = (st', Inr tx)"
  shows "total st' = total st"
proof -
  from send_transaction_Inr [OF assms(3)] obtain sender where
    s: "map_of (participants st) sid = Some sender"
    and p: "participants st' = mutate sid
         (\<lambda>p. p\<lparr>balance := fsub (balance p) (fadd (amount tx) (fee tx))\<rparr>) (participants st)"
    and m: "mempool st' = mempool st @ [tx]"
    and t: "amount tx = parseFloat E a" "fee tx = parseFloat E f"
    by blast
  from assms(2) s have x: "exact_add (amount tx) (fee tx)"
    "exact_sub (balance sender) (fadd (amount tx) (fee tx))"
    by (simp_all add: exact_send_def t)
  note e = x(1) [unfolded exact_add_def] x(2) [unfolded exact_sub_def]
  have d: "val (fsub (balance sender) (fadd (amount tx) (fee tx)))
      = val (balance sender) - (val (amount tx) + val (fee tx))"
    by (simp only: e(2) val.simps) (simp only: e(1) val.simps)
  have "sum_list (map (\<lambda>(k, p). val (balance p)) (participants st'))
      = sum_list (map (\<lambda>(k, p). val (balance p)) (participants st)) - (val (amount tx) + val (fee tx))"
    unfolding p
    using sum_mutate [OF assms(1) s, of "\<lambda>p. val (balance p)"
        "\<lambda>p. p\<lparr>balance := fsub (balance p) (fadd (amount tx) (fee tx))\<rparr>"] d
    by simp
  moreover have "sum_list (map (\<lambda>(k, p). val (rewards_of p)) (participants st'))
      = sum_list (map (\<lambda>(k, p). val (rewards_of p)) (participants st))"
    unfolding p by (rule sum_mutate_same) (simp add: rewards_of_def)
  ultimately show ?thesis by (simp add: total_def m)
qed

lemma foldl_credit_sum:
  "distinct (map fst ps) \<Longrightarrow> exact_credits ps txs \<Longrightarrow>
   sum_list (map (\<lambda>(k, p). val (balance p)) (foldl (\<lambda>ps tx. creditRecipient tx ps) ps txs))
     = sum_list (map (\<lambda>(k, p). val (balance p)) ps) + sum_list (map (\<lambda>tx. val (amount tx)) txs)
       - burnt ps txs"
proof (induction txs arbitrary: ps)
  case Nil
  show ?case by (simp add: burnt_def)
next
  case (Cons tx txs)
  from Cons.prems have x: "exact_credits (creditRecipient tx ps) txs" by simp
  from Cons.prems(1) have d: "distinct (map fst (creditRecipient tx ps))" by simp
  note IH = Cons.IH [OF d x]
  show ?case
  proof (cases "find_entry (\<lambda>p. nickname p = tx_to tx) ps")
    case None
    then have "recipient_key ps tx = None" by (simp add: recipient_key_def)
    then have c: "carriers ps (tx_to tx) = []" by (simp add: recipient_key_None)
    from None have "creditRecipient tx ps = ps" by (simp add: creditRecipient_def)
    with IH c show ?thesis by (simp add: burnt_def)
  next
    case (Some e)
    obtain k r where e: "e = (k, r)" by (cases e)
    with Some Cons.prems(1) have r: "map_of ps k = Some r" by (simp add: find_entry_Some)
    from Some e have "recipient_key ps tx = Some k" by (simp add: recipient_key_def)
    then have ne: "carriers ps (tx_to tx) \<noteq> []" using recipient_key_None [of ps tx] by simp
    let ?f = "\<lambda>p. p\<lparr>balance := fadd (balance p) (amount tx)\<rparr>"
    have c: "creditRecipient tx ps = mutate k ?f ps" using Some e by (simp add: creditRecipient_def)
    from Cons.prems(2) Some e have "fadd (balance r) (amount tx) = Fin (val (balance r) + val (amount tx))"
      by (simp add: exact_add_def)
    then have "val (fadd (balance r) (amount tx)) - val (balance r) = val (amount tx)" by simp
    with sum_mutate [OF Cons.prems(1) r, of "\<lambda>p. val (balance p)" ?f]
    have "sum_list (map (\<lambda>(k, p). val (balance p)) (creditRecipient tx ps))
      = sum_list (map (\<lambda>(k, p). val (balance p)) ps) + val (amount tx)"
      unfolding c by simp
    with IH ne show ?thesis by (simp add: burnt_def)
  qed
qed

lemma exact_sum_val:
  "exact_sum x ys \<Longrightarrow> val (foldl fadd x ys) = val x + sum_list (map val ys)"
proof (induction ys arbitrary: x)
  case Nil
  show ?case by simp
next
  case (Cons y ys)
  from Cons.prems have a: "exact_add x y" and b: "exact_sum (fadd x y) ys" by simp_all
  have "val (fadd x y) = val x + val y" by (simp only: a [unfolded exact_add_def] val.simps)
  with Cons.IH [OF b] show ?case by simp
qed

lemma total_mine_exact:
  assumes "distinct (map fst (participants st))" "blockchain st \<noteq> []" "exact_mine sid st"
    "mine_block E sid now st = (st', Inr blk)"
  shows "total st' = total st - burnt (participants st) (transactions blk)"
proof -
  let ?txs = "take 5 (mempool st)"
  let ?fees = "foldl fadd (Fin 0) (map fee ?txs)"
  let ?credited = "foldl (\<lambda>ps tx. creditRecipient tx ps) (participants st) ?txs"
  from mine_block_Inr [OF assms(4,2)] obtain m where
    m: "map_of (participants st) sid = Some m" "role m = ''miner''"
    and blk: "blk = block_of E (nickname m) now st"
    and pool: "mempool st' = drop 5 (mempool st)"
    and p: "participants st' = mutate sid (rewardMiner ?fees) ?credited"
    by blast
  have t: "transactions blk = ?txs" by (simp add: blk)
  from assms(3) m(1) have x: "exact_credits (participants st) ?txs"
    "exact_sum (Fin 0) (map fee ?txs)" "exact_add (rewards_of m) ?fees"
    by (simp_all add: exact_mine_def)
  have bal: "sum_list (map (\<lambda>(k, p). val (balance p)) (participants st'))
      = sum_list (map (\<lambda>(k, p). val (balance p)) (participants st))
        + sum_list (map (\<lambda>tx. val (amount tx)) ?txs) - burnt (participants st) ?txs"
    unfolding p using foldl_credit_sum [OF assms(1) x(1)]
    by (simp add: sum_mutate_same rewardMiner_def)
  have d: "distinct (map fst ?credited)" using assms(1) by simp
  have "map_option role (map_of ?credited sid) = Some ''miner''"
    "map_option miningRewards (map_of ?credited sid) = Some (miningRewards m)"
    using m by (simp_all add: other_foldl_credit)
  then obtain mc where mc: "map_of ?credited sid = Some mc" "role mc = ''miner''"
    "miningRewards mc = miningRewards m"
    by auto
  have vf: "val ?fees = sum_list (map (\<lambda>tx. val (fee tx)) ?txs)"
    using exact_sum_val [OF x(2)] by (simp add: comp_def)
  have rm: "rewards_of mc = rewards_of m" using mc(2,3) m(2) by (simp add: rewards_of_def)
  have "rewards_of (rewardMiner ?fees mc) = fadd (rewards_of m) ?fees"
    using mc(2,3) m(2) by (simp add: rewards_of_def rewardMiner_def)
  also have "\<dots> = Fin (val (rewards_of m) + val ?fees)"
    using x(3) by (simp only: exact_add_def)
  finally have "val (rewards_of (rewardMiner ?fees mc)) - val (rewards_of mc)
      = sum_list (map (\<lambda>tx. val (fee tx)) ?txs)"
    by (simp only: val.simps rm vf)
  with sum_mutate [OF d mc(1), of "\<lambda>p. val (rewards_of p)" "rewardMiner ?fees"]
  have rew: "sum_list (map (\<lambda>(k, p). val (rewards_of p)) (participants st'))
      = sum_list (map (\<lambda>(k, p). val (rewards_of p)) (participants st))
        + sum_list (map (\<lambda>tx. val (fee tx)) ?txs)"
    unfolding p by (simp add: sum_rewards_foldl_credit)
  show ?thesis
    unfolding total_def bal rew pool t
    using sum_pool_split [of "\<lambda>tx. val (amount tx)" "\<lambda>tx. val (fee tx)" "mempool st" 5] by simp
qed

lemma burnt_none:
  "\<forall>tx\<in>set txs. carriers ps (tx_to tx) \<noteq> [] \<Longrightarrow> burnt ps txs = 0"
proof -
  assume "\<forall>tx\<in>set txs. carriers ps (tx_to tx) \<noteq> []"
  then have "filter (\<lambda>tx. carriers ps (tx_to tx) = []) txs = []"
    by (simp add: filter_empty_conv)
  then show ?thesis by (simp add: burnt_def)
qed

lemma total_other:
  "\<not> is_send ev \<Longrightarrow> \<not> is_mine ev \<Longrightarrow> \<not> is_join ev \<Longrightarrow> total (ws (fire E ev sys)) = total (ws sys)"
proof (cases ev)
  case (Disconnect sid)
  show ?thesis
    by (simp add: Disconnect total_def disconnect_def sum_mutate_same rewards_of_def
        split: option.split)
qed (simp_all add: total_def)

lemma update_absent: "map_of al k = None \<Longrightarrow> AList.update k v al = al @ [(k, v)]"
  by (induction al) (auto split: if_splits)

lemma total_join_new:
  assumes "map_of (participants st) sid = None"
    "join_workshop sid nick rl now st = (st', Inr p)"
  shows "total st' = total st + (if rl = ''user'' then 100 else 0)"
  using assms
  by (auto simp: join_workshop_def Let_def total_def update_absent rewards_of_def
      split: option.splits)

subsection \<open>The mining trigger\<close>

definition online_miners :: "workshopState \<Rightarrow> participant list" where
  "online_miners st = filter (\<lambda>p. role p = ''miner'' \<and> online p) (values_of (participants st))"

lemma triggerMining_active: "truthy (currentMiner st) \<Longrightarrow> triggerMining trig st = st"
  by (simp add: triggerMining_def)

lemma triggerMining_no_miner:
  "online_miners st = [] \<Longrightarrow> triggerMining trig st = st"
  by (simp add: triggerMining_def getRandomMiner_def online_miners_def)

text \<open>
  The miner selected: the one at index \<open>\<lfloor>q\<rfloor>\<close>, where \<open>q\<close> is the double product of the
  random number and the number of online miners. (With ten miners and the double
  nearest to 0.7 the product is 7, lemma \<open>round64_seven_tenths\<close>, where the exact
  product is below 7.)
\<close>

lemma triggerMining_selects:
  assumes "\<not> truthy (currentMiner st)" "online_miners st \<noteq> []"
    "round64 (fst trig * of_nat (length (online_miners st))) = Fin q"
    "0 \<le> q" "nat \<lfloor>q\<rfloor> < length (online_miners st)"
  shows "triggerMining trig st =
     st\<lparr>currentMiner := Some (nickname (online_miners st ! nat \<lfloor>q\<rfloor>)),
        nextMiningTime := Some (snd trig + 30000)\<rparr>
     \<and> online_miners st ! nat \<lfloor>q\<rfloor> \<in> set (online_miners st)"
  using assms
  by (simp add: triggerMining_def getRandomMiner_def online_miners_def [symmetric] Let_def)

section \<open>The claims\<close>

text \<open>
  C1, as amended. In every reachable state each block after the first carries its
  predecessor's hash. When a miner whose nickname equals the assignment mines a
  non-empty pool, the handler succeeds: the first \<open>min 5 (pool size)\<close> transactions leave
  the front of the pool in arrival order and are the block's transactions; the block is
  appended with the previous chain length as number, the previous tail's hash as
  \<open>previousHash\<close> and the Merkle root of the included hashes. Each included transaction's
  amount is added to its recipient's balance, in double arithmetic and in the order of
  the block, when the recipient is then the only participant carrying the recipient
  nickname (the theorem says it of every key \<open>k\<close> that is beyond doubt); the sum is the
  exact one when the balance and the amounts are whole numbers whose magnitudes add up
  to less than \<open>2^53\<close>. Every balance grows only by amounts of included transactions
  whose recipient nickname its participant carries, each taken at most once; a
  participant that carries none of the recipient nicknames keeps its balance, and an
  amount whose recipient nickname nobody carries any more is added to no balance. The
  miner's \<open>miningRewards\<close> grows by the double sum of the included fees, which is the
  exact sum for whole numbers below \<open>2^53\<close>; \<open>blocksMined\<close> and \<open>totalBlocks\<close> grow by
  one; the assignment is cleared; and the new chain is linked as well. Nothing more is
  said here of a recipient nickname that several participants carry.
\<close>

theorem mine_block_success:
  assumes "reachable E sys"
  shows "(\<forall>N. 0 < N \<and> N < length (blockchain (ws sys)) \<longrightarrow>
            previousHash (blockchain (ws sys) ! N) = hash (blockchain (ws sys) ! (N - 1))) \<and>
    (\<forall>m. map_of (participants (ws sys)) sid = Some m \<and> role m = ''miner'' \<and>
          currentMiner (ws sys) = Some (nickname m) \<and> mempool (ws sys) \<noteq> [] \<longrightarrow>
       (\<exists>blk st' m' r n.
          mine_block E sid now (ws sys) = (st', Inr blk) \<and>
          transactions blk = take (min 5 (length (mempool (ws sys)))) (mempool (ws sys)) \<and>
          mempool st' = drop (min 5 (length (mempool (ws sys)))) (mempool (ws sys)) \<and>
          blockchain st' = blockchain (ws sys) @ [blk] \<and>
          number blk = length (blockchain (ws sys)) \<and>
          previousHash blk = hash (last (blockchain (ws sys))) \<and>
          merkleRoot blk = buildMerkleTree E (map tx_hash (transactions blk)) \<and>
          hash blk = generateBlockHash E blk \<and>
          miner blk = nickname m \<and> timestamp blk = now \<and>
          (\<forall>k. unambiguous (participants (ws sys)) (transactions blk) k \<longrightarrow>
             map_option balance (map_of (participants st') k) =
               map_option (\<lambda>p. foldl fadd (balance p)
                   (credits (participants (ws sys)) (transactions blk) k))
                 (map_of (participants (ws sys)) k)) \<and>
          (\<forall>k p. map_of (participants (ws sys)) k = Some p \<and>
                 unambiguous (participants (ws sys)) (transactions blk) k \<and>
                 whole (balance p) \<and>
                 (\<forall>x\<in>set (credits (participants (ws sys)) (transactions blk) k). whole x) \<and>
                 mag (balance p)
                   + sum_list (map mag (credits (participants (ws sys)) (transactions blk) k))
                   < 2 ^ 53 \<longrightarrow>
             map_option balance (map_of (participants st') k) =
               Some (Fin (val (balance p)
                 + sum_list (map val (credits (participants (ws sys)) (transactions blk) k))))) \<and>
          (\<forall>k. \<exists>sub. subseq sub (filter (\<lambda>tx. k \<in> set (carriers (participants (ws sys)) (tx_to tx)))
                                   (transactions blk)) \<and>
             map_option balance (map_of (participants st') k) =
               map_option (\<lambda>p. foldl fadd (balance p) (map amount sub))
                 (map_of (participants (ws sys)) k)) \<and>
          (\<forall>k. (\<forall>tx\<in>set (transactions blk). k \<notin> set (carriers (participants (ws sys)) (tx_to tx))) \<longrightarrow>
             map_option balance (map_of (participants st') k) =
               map_option balance (map_of (participants (ws sys)) k)) \<and>
          map_of (participants st') sid = Some m' \<and>
          miningRewards m = Some r \<and> blocksMined m = Some n \<and>
          miningRewards m' = Some (fadd r (foldl fadd (Fin 0) (map fee (transactions blk)))) \<and>
          (whole r \<and> (\<forall>x\<in>set (map fee (transactions blk)). whole x) \<and>
             mag r + sum_list (map mag (map fee (transactions blk))) < 2 ^ 53 \<longrightarrow>
             miningRewards m' = Some (Fin (val r + sum_list (map val (map fee (transactions blk)))))) \<and>
          blocksMined m' = Some (n + 1) \<and>
          totalBlocks (stats st') = totalBlocks (stats (ws sys)) + 1 \<and>
          currentMiner st' = None \<and>
          (\<forall>N. 0 < N \<and> N < length (blockchain st') \<longrightarrow>
             previousHash (blockchain st' ! N) = hash (blockchain st' ! (N - 1)))))"
proof -
  let ?st = "ws sys"
  from assms have c: "chain_ok E (blockchain ?st)" by (rule reachable_chain)
  then have ne: "blockchain ?st \<noteq> []" by (simp add: chain_ok_def)
  from assms have l: "length (mempool ?st) \<le> 5" by (rule reachable_pool)
  have A: "\<forall>N. 0 < N \<and> N < length (blockchain ?st) \<longrightarrow>
            previousHash (blockchain ?st ! N) = hash (blockchain ?st ! (N - 1))"
    using chain_ok_linked [OF c] by blast
  have B: "\<exists>blk st' m' r n.
          mine_block E sid now ?st = (st', Inr blk) \<and>
          transactions blk = take (min 5 (length (mempool ?st))) (mempool ?st) \<and>
          mempool st' = drop (min 5 (length (mempool ?st))) (mempool ?st) \<and>
          blockchain st' = blockchain ?st @ [blk] \<and>
          number blk = length (blockchain ?st) \<and>
          previousHash blk = hash (last (blockchain ?st)) \<and>
          merkleRoot blk = buildMerkleTree E (map tx_hash (transactions blk)) \<and>
          hash blk = generateBlockHash E blk \<and>
          miner blk = nickname m \<and> timestamp blk = now \<and>
          (\<forall>k. unambiguous (participants ?st) (transactions blk) k \<longrightarrow>
             map_option balance (map_of (participants st') k) =
               map_option (\<lambda>p. foldl fadd (balance p)
                   (credits (participants ?st) (transactions blk) k))
                 (map_of (participants ?st) k)) \<and>
          (\<forall>k p. map_of (participants ?st) k = Some p \<and>
                 unambiguous (participants ?st) (transactions blk) k \<and>
                 whole (balance p) \<and>
                 (\<forall>x\<in>set (credits (participants ?st) (transactions blk) k). whole x) \<and>
                 mag (balance p)
                   + sum_list (map mag (credits (participants ?st) (transactions blk) k))
                   < 2 ^ 53 \<longrightarrow>
             map_option balance (map_of (participants st') k) =
               Some (Fin (val (balance p)
                 + sum_list (map val (credits (participants ?st) (transactions blk) k))))) \<and>
          (\<forall>k. \<exists>sub. subseq sub (filter (\<lambda>tx. k \<in> set (carriers (participants ?st) (tx_to tx)))
                                   (transactions blk)) \<and>
             map_option balance (map_of (participants st') k) =
               map_option (\<lambda>p. foldl fadd (balance p) (map amount sub))
                 (map_of (participants ?st) k)) \<and>
          (\<forall>k. (\<forall>tx\<in>set (transactions blk). k \<notin> set (carriers (participants ?st) (tx_to tx))) \<longrightarrow>
             map_option balance (map_of (participants st') k) =
               map_option balance (map_of (participants ?st) k)) \<and>
          map_of (participants st') sid = Some m' \<and>
          miningRewards m = Some r \<and> blocksMined m = Some n \<and>
          miningRewards m' = Some (fadd r (foldl fadd (Fin 0) (map fee (transactions blk)))) \<and>
          (whole r \<and> (\<forall>x\<in>set (map fee (transactions blk)). whole x) \<and>
             mag r + sum_list (map mag (map fee (transactions blk))) < 2 ^ 53 \<longrightarrow>
             miningRewards m' = Some (Fin (val r + sum_list (map val (map fee (transactions blk)))))) \<and>
          blocksMined m' = Some (n + 1) \<and>
          totalBlocks (stats st') = totalBlocks (stats ?st) + 1 \<and>
          currentMiner st' = None \<and>
          (\<forall>N. 0 < N \<and> N < length (blockchain st') \<longrightarrow>
             previousHash (blockchain st' ! N) = hash (blockchain st' ! (N - 1)))"
    if m: "map_of (participants ?st) sid = Some m" "role m = ''miner''"
      "currentMiner ?st = Some (nickname m)" "mempool ?st \<noteq> []" for m
  proof -
    let ?txs = "take 5 (mempool ?st)"
    let ?blk = "block_of E (nickname m) now ?st"
    let ?fees = "foldl fadd (Fin 0) (map fee ?txs)"
    let ?credited = "foldl (\<lambda>ps tx. creditRecipient tx ps) (participants ?st) ?txs"
    let ?ps' = "mutate sid (rewardMiner ?fees) ?credited"
    let ?st' = "?st\<lparr>mempool := drop 5 (mempool ?st),
         blockchain := blockchain ?st @ [?blk],
         stats := (stats ?st)\<lparr>totalBlocks := totalBlocks (stats ?st) + 1\<rparr>,
         participants := ?ps', currentMiner := None\<rparr>"
    have eq: "mine_block E sid now ?st = (?st', Inr ?blk)"
      using mine_block_commit [OF m ne, of E now] by (simp add: foldl_fee)
    from reachable_miner [OF assms] m(1,2) obtain r n
      where rn: "miningRewards m = Some r" "blocksMined m = Some n"
      by (auto simp: miner_inv_def dest!: map_of_SomeD)
    have "map_option miningRewards (map_of ?credited sid) = Some (Some r)"
      "map_option blocksMined (map_of ?credited sid) = Some (Some n)"
      using m(1) rn by (simp_all add: other_foldl_credit)
    then obtain mc where mc: "map_of ?credited sid = Some mc" "miningRewards mc = Some r"
      "blocksMined mc = Some n"
      by auto
    have mp: "map_of ?ps' sid = Some (rewardMiner ?fees mc)"
      using mc(1) by (simp add: map_of_mutate)
    have bal: "map_option balance (map_of ?ps' k) =
        map_option (\<lambda>p. foldl fadd (balance p) (credits (participants ?st) ?txs k))
          (map_of (participants ?st) k)"
      if "unambiguous (participants ?st) ?txs k" for k
      using mine_block_balances [OF eq ne, of k] that by simp
    have exact: "map_option balance (map_of ?ps' k) =
        Some (Fin (val (balance p) + sum_list (map val (credits (participants ?st) ?txs k))))"
      if "map_of (participants ?st) k = Some p" "unambiguous (participants ?st) ?txs k"
        "whole (balance p)" "\<forall>x\<in>set (credits (participants ?st) ?txs k). whole x"
        "mag (balance p) + sum_list (map mag (credits (participants ?st) ?txs k)) < 2 ^ 53"
      for k p
      using bal [OF that(2)] foldl_fadd_whole [OF that(3,4,5)] that(1) by simp
    have only: "\<exists>sub. subseq sub (filter (\<lambda>tx. k \<in> set (carriers (participants ?st) (tx_to tx))) ?txs) \<and>
        map_option balance (map_of ?ps' k) =
          map_option (\<lambda>p. foldl fadd (balance p) (map amount sub)) (map_of (participants ?st) k)"
      for k
      using mine_block_credited_only [OF eq ne, of k] by simp
    have keep: "map_option balance (map_of ?ps' k) = map_option balance (map_of (participants ?st) k)"
      if "\<forall>tx\<in>set ?txs. k \<notin> set (carriers (participants ?st) (tx_to tx))" for k
    proof -
      from that have u: "unambiguous (participants ?st) ?txs k" by (simp add: unambiguous_def)
      from that have "filter (\<lambda>tx. carriers (participants ?st) (tx_to tx) = [k]) ?txs = []"
        by (auto simp: filter_empty_conv)
      then have "credits (participants ?st) ?txs k = []" by (simp add: credits_def)
      with bal [OF u] show ?thesis by simp
    qed
    have t: "take (min 5 (length (mempool ?st))) (mempool ?st) = ?txs"
      "drop (min 5 (length (mempool ?st))) (mempool ?st) = drop 5 (mempool ?st)"
      using l by (simp_all add: min_def)
    have link: "\<forall>N. 0 < N \<and> N < length (blockchain ?st') \<longrightarrow>
             previousHash (blockchain ?st' ! N) = hash (blockchain ?st' ! (N - 1))"
      using chain_ok_linked [OF chain_ok_append [OF c, of "nickname m" now]] by simp
    have rw: "miningRewards (rewardMiner ?fees mc) = Some (fadd r ?fees)"
      "blocksMined (rewardMiner ?fees mc) = Some (n + 1)"
      using mc(2,3) by (simp_all add: rewardMiner_def)
    have rwx: "miningRewards (rewardMiner ?fees mc) = Some (Fin (val r + sum_list (map val (map fee ?txs))))"
      if w: "whole r" "\<forall>x\<in>set (map fee ?txs). whole x"
        and b: "mag r + sum_list (map mag (map fee ?txs)) < 2 ^ 53"
    proof -
      have w0: "whole (Fin 0)" by simp
      from b have b0: "mag (Fin 0) + sum_list (map mag (map fee ?txs)) < 2 ^ 53"
        using mag_nonneg [of r] by (simp add: mag_def)
      from foldl_fadd_whole [OF w0 w(2) b0]
      have fe: "?fees = Fin (val (Fin 0) + sum_list (map val (map fee ?txs)))" "whole ?fees"
        "mag ?fees \<le> mag (Fin 0) + sum_list (map mag (map fee ?txs))"
        by blast+
      have vf: "val ?fees = sum_list (map val (map fee ?txs))" unfolding fe(1) by simp
      from b fe(3) have "mag r + mag ?fees < 2 ^ 53" by (simp add: mag_def)
      from fadd_whole(1) [OF w(1) fe(2) this] show ?thesis by (simp only: rw(1) vf)
    qed
    show ?thesis
      apply (rule exI [of _ ?blk], rule exI [of _ ?st'], rule exI [of _ "rewardMiner ?fees mc"],
          rule exI [of _ r], rule exI [of _ n])
      apply (intro conjI)
      subgoal by (rule eq)
      subgoal by (simp add: t)
      subgoal by (simp add: t)
      subgoal by simp
      subgoal by simp
      subgoal by simp
      subgoal by simp
      subgoal by simp
      subgoal by simp
      subgoal by simp
      subgoal using bal by simp
      subgoal using exact by simp
      subgoal using only by simp
      subgoal using keep by simp
      subgoal using mp by simp
      subgoal by (rule rn)
      subgoal by (rule rn)
      subgoal using rw by simp
      subgoal using rwx by simp
      subgoal using rw by simp
      subgoal by simp
      subgoal by simp
      subgoal by (rule link)
      done
  qed
  from A B show ?thesis by blast
qed

theorem mine_block_success_witness:
  "\<exists>blk. mine_block demo_env ''s3'' 6000 (ws demo_assigned) = (ws demo_mined, Inr blk) \<and>
     number blk = 1 \<and> previousHash blk = genesis_hash \<and>
     transactions blk = [demo_tx ''alice'' ''bob'' (Fin 10) (Fin 1) (8001 / 2) 4000] \<and>
     mempool (ws demo_mined) = [] \<and>
     carriers (participants (ws demo_assigned)) ''bob'' = [''s2''] \<and>
     map_option balance (map_of (participants (ws demo_assigned)) ''s2'') = Some (Fin 100) \<and>
     map_option balance (map_of (participants (ws demo_mined)) ''s2'') = Some (Fin 110) \<and>
     map_option balance (map_of (participants (ws demo_mined)) ''s1'') = Some (Fin 89) \<and>
     map_option miningRewards (map_of (participants (ws demo_mined)) ''s3'') = Some (Some (Fin 1)) \<and>
     map_option blocksMined (map_of (participants (ws demo_mined)) ''s3'') = Some (Some 1) \<and>
     currentMiner (ws demo_mined) = None \<and>
     previousHash (blockchain (ws demo_mined) ! 1) = hash (blockchain (ws demo_mined) ! 0)"
proof -
  have ln: "0 < (1 :: nat) \<and> 1 < length (blockchain (ws demo_mined))"
    by (simp add: demo_mined_eq)
  from mine_block_success [OF demo_mined_reachable, of "''s3''" 7000, THEN conjunct1, THEN spec,
      THEN mp, OF ln]
  have lk: "previousHash (blockchain (ws demo_mined) ! 1) = hash (blockchain (ws demo_mined) ! 0)"
    by simp
  have pre: "map_of (participants (ws demo_assigned)) ''s3'' = Some mike \<and> role mike = ''miner'' \<and>
      currentMiner (ws demo_assigned) = Some (nickname mike) \<and> mempool (ws demo_assigned) \<noteq> []"
    by (simp add: demo_assigned_eq mike_def)
  from mine_block_success [OF demo_assigned_reachable, of "''s3''" 6000, THEN conjunct2,
      rule_format, OF pre]
  obtain blk st' m' r n where f:
    "mine_block demo_env ''s3'' 6000 (ws demo_assigned) = (st', Inr blk)"
    "transactions blk = take (min 5 (length (mempool (ws demo_assigned)))) (mempool (ws demo_assigned))"
    "mempool st' = drop (min 5 (length (mempool (ws demo_assigned)))) (mempool (ws demo_assigned))"
    "number blk = length (blockchain (ws demo_assigned))"
    "previousHash blk = hash (last (blockchain (ws demo_assigned)))"
    "\<forall>k. unambiguous (participants (ws demo_assigned)) (transactions blk) k \<longrightarrow>
       map_option balance (map_of (participants st') k) =
         map_option (\<lambda>p. foldl fadd (balance p)
             (credits (participants (ws demo_assigned)) (transactions blk) k))
           (map_of (participants (ws demo_assigned)) k)"
    "\<forall>k. (\<forall>tx\<in>set (transactions blk). k \<notin> set (carriers (participants (ws demo_assigned)) (tx_to tx))) \<longrightarrow>
       map_option balance (map_of (participants st') k) =
         map_option balance (map_of (participants (ws demo_assigned)) k)"
    "map_of (participants st') ''s3'' = Some m'"
    "miningRewards mike = Some r" "blocksMined mike = Some n"
    "miningRewards m' = Some (fadd r (foldl fadd (Fin 0) (map fee (transactions blk))))"
    "blocksMined m' = Some (n + 1)"
    "currentMiner st' = None"
    "\<forall>k p. map_of (participants (ws demo_assigned)) k = Some p \<and>
       unambiguous (participants (ws demo_assigned)) (transactions blk) k \<and>
       whole (balance p) \<and>
       (\<forall>x\<in>set (credits (participants (ws demo_assigned)) (transactions blk) k). whole x) \<and>
       mag (balance p)
         + sum_list (map mag (credits (participants (ws demo_assigned)) (transactions blk) k))
         < 2 ^ 53 \<longrightarrow>
       map_option balance (map_of (participants st') k) =
         Some (Fin (val (balance p)
           + sum_list (map val (credits (participants (ws demo_assigned)) (transactions blk) k))))"
    "whole r \<and> (\<forall>x\<in>set (map fee (transactions blk)). whole x) \<and>
       mag r + sum_list (map mag (map fee (transactions blk))) < 2 ^ 53 \<longrightarrow>
       miningRewards m' = Some (Fin (val r + sum_list (map val (map fee (transactions blk)))))"
    by (elim exE conjE)
  from f(1) have st': "st' = ws demo_mined" by (simp add: demo_mined_def)
  have txs: "transactions blk = [demo_tx ''alice'' ''bob'' (Fin 10) (Fin 1) (8001 / 2) 4000]"
    using f(2) by (simp add: demo_assigned_eq)
  have ca: "carriers (participants (ws demo_assigned)) ''bob'' = [''s2'']"
    by (simp add: carriers_def demo_assigned_eq alice_def bob_def mike_def)
  have u: "unambiguous (participants (ws demo_assigned)) (transactions blk) ''s2''"
    by (simp add: txs unambiguous_def ca)
  have cr: "credits (participants (ws demo_assigned)) (transactions blk) ''s2'' = [Fin 10]"
    by (simp add: txs credits_def ca)
  have b0: "map_option balance (map_of (participants (ws demo_assigned)) ''s2'') = Some (Fin 100)"
    by (simp add: demo_assigned_eq bob_def)
  have b: "map_option balance (map_of (participants (ws demo_mined)) ''s2'') = Some (Fin 110)"
    using f(6) [THEN spec, THEN mp, OF u] by (simp add: st' cr) (simp add: demo_assigned_eq bob_def)
  have n1: "\<forall>tx\<in>set (transactions blk). ''s1'' \<notin> set (carriers (participants (ws demo_assigned)) (tx_to tx))"
    by (simp add: txs ca)
  have a: "map_option balance (map_of (participants (ws demo_mined)) ''s1'') = Some (Fin 89)"
    using f(7) [THEN spec, THEN mp, OF n1] by (simp add: st') (simp add: demo_assigned_eq alice_def)
  have rn: "r = Fin 0" "n = 0" using f(9,10) by (simp_all add: mike_def)
  have fe: "foldl fadd (Fin 0) (map fee (transactions blk)) = Fin 1" by (simp add: txs)
  have xb: "map_of (participants (ws demo_assigned)) ''s2'' = Some bob \<and>
       unambiguous (participants (ws demo_assigned)) (transactions blk) ''s2'' \<and>
       whole (balance bob) \<and>
       (\<forall>x\<in>set (credits (participants (ws demo_assigned)) (transactions blk) ''s2''). whole x) \<and>
       mag (balance bob)
         + sum_list (map mag (credits (participants (ws demo_assigned)) (transactions blk) ''s2''))
         < 2 ^ 53"
    using u by (simp add: cr) (simp add: demo_assigned_eq bob_def mag_def)
  from f(14) [THEN spec, THEN spec, THEN mp, OF xb]
  have e: "map_option balance (map_of (participants st') ''s2'') = Some (Fin (100 + 10))"
    by (simp add: cr bob_def)
  have xr: "whole r \<and> (\<forall>x\<in>set (map fee (transactions blk)). whole x) \<and>
       mag r + sum_list (map mag (map fee (transactions blk))) < 2 ^ 53"
    by (simp add: rn txs mag_def)
  from f(15) [THEN mp, OF xr]
  have w: "miningRewards m' = Some (Fin (0 + 1))" by (simp add: rn txs)
  show ?thesis
    using f(1,3,4,5,8,11,12,13) txs b a ca b0 e w lk
    by (simp add: st' rn fe) (simp add: demo_assigned_eq genesisBlock_def)
qed

text \<open>
  C1 as stated fails in two ways. When no participant carries the recipient nickname
  any more (the recipient took another nickname), the block includes the transaction
  and no balance grows. And the credit is a double sum: with the amount \<open>2^(-50)\<close> the
  recipient's balance of 100 is 100 afterwards, not 100 plus the amount.
\<close>

theorem mine_credit_counterexample:
  "reachable demo_env demo_renamed \<and>
   mine_block demo_env ''s3'' 6000 (ws demo_renamed)
     = (fst (mine_block demo_env ''s3'' 6000 (ws demo_renamed)),
        Inr (block_of demo_env ''mike'' 6000 (ws demo_renamed))) \<and>
   map amount (transactions (block_of demo_env ''mike'' 6000 (ws demo_renamed))) = [Fin 10] \<and>
   map tx_to (transactions (block_of demo_env ''mike'' 6000 (ws demo_renamed))) = [''bob''] \<and>
   map (\<lambda>(k, p). (k, nickname p, balance p)) (participants (ws demo_renamed))
     = [(''s1'', ''alice'', Fin 89), (''s2'', ''robert'', Fin 100), (''s3'', ''mike'', Fin 0)] \<and>
   map (\<lambda>(k, p). (k, nickname p, balance p))
       (participants (fst (mine_block demo_env ''s3'' 6000 (ws demo_renamed))))
     = [(''s1'', ''alice'', Fin 89), (''s2'', ''robert'', Fin 100), (''s3'', ''mike'', Fin 0)] \<and>
   reachable demo_env demo_dust \<and>
   mine_block demo_env ''s3'' 6000 (ws demo_dust)
     = (fst (mine_block demo_env ''s3'' 6000 (ws demo_dust)),
        Inr (block_of demo_env ''mike'' 6000 (ws demo_dust))) \<and>
   map amount (transactions (block_of demo_env ''mike'' 6000 (ws demo_dust))) = [tiny] \<and>
   val tiny = 1 / 2 ^ 50 \<and>
   map tx_to (transactions (block_of demo_env ''mike'' 6000 (ws demo_dust))) = [''bob''] \<and>
   map (\<lambda>(k, p). (k, nickname p, balance p)) (participants (ws demo_dust))
     = [(''s1'', ''alice'', Fin 100), (''s2'', ''bob'', Fin 100), (''s3'', ''mike'', Fin 0)] \<and>
   map (\<lambda>(k, p). (k, nickname p, balance p))
       (participants (fst (mine_block demo_env ''s3'' 6000 (ws demo_dust))))
     = [(''s1'', ''alice'', Fin 100), (''s2'', ''bob'', Fin 100), (''s3'', ''mike'', Fin 0)]"
proof -
  have 1: "map (\<lambda>(k, p). (k, nickname p, balance p))
       (participants (fst (mine_block demo_env ''s3'' 6000 (ws demo_renamed))))
     = [(''s1'', ''alice'', Fin 89), (''s2'', ''robert'', Fin 100), (''s3'', ''mike'', Fin 0)]"
    by (simp add: mine_block_commit [where m = mike] demo_renamed_eq mike_def)
       (simp add: alice_def robert_def mike_def creditRecipient_def find_entry_def mutate_def
          rewardMiner_def)
  have 2: "snd (mine_block demo_env ''s3'' 6000 (ws demo_renamed))
     = Inr (block_of demo_env ''mike'' 6000 (ws demo_renamed))"
    by (simp add: mine_block_commit [where m = mike] demo_renamed_eq mike_def)
  have 3: "map (\<lambda>(k, p). (k, nickname p, balance p))
       (participants (fst (mine_block demo_env ''s3'' 6000 (ws demo_dust))))
     = [(''s1'', ''alice'', Fin 100), (''s2'', ''bob'', Fin 100), (''s3'', ''mike'', Fin 0)]"
    by (simp add: mine_block_commit [where m = mike] demo_dust_eq mike_def)
       (simp add: alice_def bob_def mike_def creditRecipient_def find_entry_def mutate_def
          rewardMiner_def)
  have 4: "snd (mine_block demo_env ''s3'' 6000 (ws demo_dust))
     = Inr (block_of demo_env ''mike'' 6000 (ws demo_dust))"
    by (simp add: mine_block_commit [where m = mike] demo_dust_eq mike_def)
  have 5: "map amount (transactions (block_of demo_env ''mike'' 6000 (ws demo_renamed))) = [Fin 10]"
    "map tx_to (transactions (block_of demo_env ''mike'' 6000 (ws demo_renamed))) = [''bob'']"
    "map (\<lambda>(k, p). (k, nickname p, balance p)) (participants (ws demo_renamed))
     = [(''s1'', ''alice'', Fin 89), (''s2'', ''robert'', Fin 100), (''s3'', ''mike'', Fin 0)]"
    by (simp_all add: demo_renamed_eq alice_def robert_def mike_def)
  have 6: "map amount (transactions (block_of demo_env ''mike'' 6000 (ws demo_dust))) = [tiny]"
    "map tx_to (transactions (block_of demo_env ''mike'' 6000 (ws demo_dust))) = [''bob'']"
    "map (\<lambda>(k, p). (k, nickname p, balance p)) (participants (ws demo_dust))
     = [(''s1'', ''alice'', Fin 100), (''s2'', ''bob'', Fin 100), (''s3'', ''mike'', Fin 0)]"
    by (simp_all add: demo_dust_eq alice_def bob_def mike_def)
  from 1 2 3 4 5 6 demo_renamed_reachable demo_dust_reachable val_tiny show ?thesis
    by (simp add: prod_eq_iff)
qed

text \<open>
  C2. The Merkle root of no hashes is the all-zero sentinel and the root of one hash is
  that hash. For two or more hashes, none of them the empty string (a digest has 64
  characters), the loop of \<open>buildMerkleTree\<close> computes each level exactly as the
  specification words it (adjacent pairs left to right, the last element of an odd level
  paired with itself, each pair's concatenation hashed) and ends with the single hash it
  returns; so the function agrees with \<open>spec_merkleRoot\<close>. Equal inputs give equal roots.
\<close>

theorem buildMerkleTree_spec:
  "buildMerkleTree E [] = sentinel \<and> buildMerkleTree E [h] = h \<and>
   (2 \<le> length hs \<and> (\<forall>x\<in>set hs. x \<noteq> []) \<longrightarrow>
      spec_reduce E hs = [buildMerkleTree E hs] \<and>
      nextLevel E hs = spec_pairs E hs) \<and>
   ((\<forall>x\<in>set hs. x \<noteq> []) \<longrightarrow> buildMerkleTree E hs = spec_merkleRoot E hs) \<and>
   (hs = hs' \<longrightarrow> buildMerkleTree E hs = buildMerkleTree E hs')"
proof -
  have a: "buildMerkleTree E [] = sentinel" by (simp add: buildMerkleTree_def)
  have b: "buildMerkleTree E [h] = h" by (simp add: buildMerkleTree_def)
  have c: "spec_reduce E hs = [buildMerkleTree E hs] \<and> nextLevel E hs = spec_pairs E hs"
    if "2 \<le> length hs" "\<forall>x\<in>set hs. x \<noteq> []"
    using that buildMerkleTree_while [of hs E] whileLevel_spec_reduce [of hs E]
      nextLevel_spec_pairs [of hs E] by simp
  have d: "buildMerkleTree E hs = spec_merkleRoot E hs" if ne: "\<forall>x\<in>set hs. x \<noteq> []"
  proof (cases hs)
    case Nil
    then show ?thesis by (simp add: buildMerkleTree_def spec_merkleRoot_def)
  next
    case (Cons x xs)
    show ?thesis
    proof (cases xs)
      case Nil
      with Cons show ?thesis by (simp add: buildMerkleTree_def spec_merkleRoot_def)
    next
      case (Cons y ys)
      with \<open>hs = x # xs\<close> have l: "2 \<le> length hs" by simp
      from c [OF l ne] have "hd (spec_reduce E hs) = buildMerkleTree E hs" by simp
      with Cons \<open>hs = x # xs\<close> show ?thesis by (simp add: spec_merkleRoot_def)
    qed
  qed
  from a b c d show ?thesis by blast
qed

theorem buildMerkleTree_spec_witness:
  "spec_reduce demo_env [''aa'', ''bb'', ''cc''] = [buildMerkleTree demo_env [''aa'', ''bb'', ''cc'']]
   \<and> buildMerkleTree demo_env [''aa'', ''bb'', ''cc''] = spec_merkleRoot demo_env [''aa'', ''bb'', ''cc'']
   \<and> buildMerkleTree demo_env [''aa'', ''bb'', ''cc'']
       = sha256_hex demo_env (sha256_hex demo_env ''aabb'' @ sha256_hex demo_env ''cccc'')"
proof -
  have "buildMerkleTree demo_env [''aa'', ''bb'', ''cc'']
       = sha256_hex demo_env (sha256_hex demo_env ''aabb'' @ sha256_hex demo_env ''cccc'')"
    by (simp add: buildMerkleTree_def whileLevel.simps sha256_hex_nonempty)
  then show ?thesis 
  using buildMerkleTree_spec [of demo_env "''aa''" "[''aa'', ''bb'', ''cc'']" "[''aa'', ''bb'', ''cc'']"]
  by simp
qed

text \<open>
  C3, as amended. When a submission is accepted, the transaction carries \<^verbatim>\<open>parseFloat\<close>
  of the payload's amount and fee, and the sender's balance becomes the double
  \<open>balance - (amount + fee)\<close>, once; that is the exact difference when balance, amount
  and fee are whole numbers whose magnitudes add up to less than \<open>2^53\<close>. The
  transaction, whose hash is the digest of \<open>from:to:amount:fee:timestamp\<close>, is appended
  to the pool; \<open>totalTransactions\<close> grows by one; every entry other than the sender's is
  unchanged, so a recipient other than the sender is not credited at submission. In
  particular a sender with balance 100 who sends 10 with fee 1 into an empty pool with
  no earlier transaction ends with 89, the pool holding that transaction and
  \<open>totalTransactions = 1\<close>. The credit comes with the block: a successful mine takes up
  to five transactions from the front of the pool into the block and adds their amounts, one
  after the other in double arithmetic, to the balances of their recipients, a
  recipient being credited when it is then the only participant carrying the recipient
  nickname; every balance grows only by amounts of included transactions whose
  recipient nickname its participant carries, each taken at most once, so nobody is
  credited when nobody carries the nickname any more. Events other than a join, a
  submission and mining change no balance.
\<close>

theorem send_transaction_accepted:
  assumes "send_transaction E sid to a f idv now trig st = (st', Inr tx)"
  shows "\<exists>sender.
     map_of (participants st) sid = Some sender \<and>
     amount tx = parseFloat E a \<and> fee tx = parseFloat E f \<and>
     participants st' = mutate sid
         (\<lambda>p. p\<lparr>balance := fsub (balance p) (fadd (amount tx) (fee tx))\<rparr>) (participants st) \<and>
     map_option balance (map_of (participants st') sid)
       = Some (fsub (balance sender) (fadd (amount tx) (fee tx))) \<and>
     (whole (balance sender) \<and> whole (amount tx) \<and> whole (fee tx) \<and>
        mag (balance sender) + mag (amount tx) + mag (fee tx) < 2 ^ 53 \<longrightarrow>
        map_option balance (map_of (participants st') sid)
          = Some (Fin (val (balance sender) - (val (amount tx) + val (fee tx))))) \<and>
     (\<forall>k. k \<noteq> sid \<longrightarrow> map_of (participants st') k = map_of (participants st) k) \<and>
     mempool st' = mempool st @ [tx] \<and>
     tx_from tx = nickname sender \<and> tx_to tx = to \<and> tx_timestamp tx = now \<and>
     tx_hash tx = sha256_hex E (tx_from tx @ '':'' @ tx_to tx @ '':'' @ numToString E (amount tx)
                    @ '':'' @ numToString E (fee tx) @ '':'' @ decimal (tx_timestamp tx)) \<and>
     totalTransactions (stats st') = totalTransactions (stats st) + 1 \<and>
     blockchain st' = blockchain st \<and>
     (balance sender = Fin 100 \<and> a = Number (Fin 10) \<and> f = Number (Fin 1) \<and> mempool st = [] \<and>
        totalTransactions (stats st) = 0
        \<longrightarrow> map_option balance (map_of (participants st') sid) = Some (Fin 89) \<and> mempool st' = [tx] \<and>
            totalTransactions (stats st') = 1) \<and>
     (\<forall>sys sid' now' st'' blk. reachable E sys \<and> mine_block E sid' now' (ws sys) = (st'', Inr blk) \<longrightarrow>
        transactions blk = take 5 (mempool (ws sys)) \<and>
        mempool st'' = drop 5 (mempool (ws sys)) \<and>
        (\<forall>k. unambiguous (participants (ws sys)) (transactions blk) k \<longrightarrow>
           map_option balance (map_of (participants st'') k) =
             map_option (\<lambda>p. foldl fadd (balance p)
                 (credits (participants (ws sys)) (transactions blk) k))
               (map_of (participants (ws sys)) k)) \<and>
        (\<forall>k. \<exists>sub. subseq sub (filter (\<lambda>t. k \<in> set (carriers (participants (ws sys)) (tx_to t)))
                                 (transactions blk)) \<and>
           map_option balance (map_of (participants st'') k) =
             map_option (\<lambda>p. foldl fadd (balance p) (map amount sub))
               (map_of (participants (ws sys)) k)) \<and>
        (\<forall>k. (\<forall>t\<in>set (transactions blk). k \<notin> set (carriers (participants (ws sys)) (tx_to t))) \<longrightarrow>
           map_option balance (map_of (participants st'') k) =
             map_option balance (map_of (participants (ws sys)) k))) \<and>
     (\<forall>ev sys. \<not> is_send ev \<and> \<not> is_mine ev \<and> \<not> is_join ev \<longrightarrow>
        map (\<lambda>(k, p). (k, balance p)) (participants (ws (fire E ev sys)))
          = map (\<lambda>(k, p). (k, balance p)) (participants (ws sys)))"
proof -
  from send_transaction_Inr [OF assms] obtain sender where
    s: "map_of (participants st) sid = Some sender"
    and p: "participants st' = mutate sid
         (\<lambda>p. p\<lparr>balance := fsub (balance p) (fadd (amount tx) (fee tx))\<rparr>) (participants st)"
    and m: "mempool st' = mempool st @ [tx]"
    and f: "tx_from tx = nickname sender" "tx_to tx = to" "amount tx = parseFloat E a"
      "fee tx = parseFloat E f" "tx_timestamp tx = now" "tx_hash tx = generateTransactionHash E tx"
    and t: "totalTransactions (stats st') = totalTransactions (stats st) + 1"
    and c: "blockchain st' = blockchain st"
    by blast
  have b: "map_option balance (map_of (participants st') sid)
      = Some (fsub (balance sender) (fadd (amount tx) (fee tx)))"
    by (simp add: p map_of_mutate s)
  have x: "whole (balance sender) \<and> whole (amount tx) \<and> whole (fee tx) \<and>
        mag (balance sender) + mag (amount tx) + mag (fee tx) < 2 ^ 53 \<longrightarrow>
        map_option balance (map_of (participants st') sid)
          = Some (Fin (val (balance sender) - (val (amount tx) + val (fee tx))))"
  proof
    assume h: "whole (balance sender) \<and> whole (amount tx) \<and> whole (fee tx) \<and>
        mag (balance sender) + mag (amount tx) + mag (fee tx) < 2 ^ 53"
    then have b1: "mag (amount tx) + mag (fee tx) < 2 ^ 53"
      using mag_nonneg [of "balance sender"] by linarith
    from h have w: "whole (amount tx)" "whole (fee tx)" "whole (balance sender)" by simp_all
    note fw = fadd_whole [OF w(1,2) b1]
    from h fw(3) have b2: "mag (balance sender) + mag (fadd (amount tx) (fee tx)) < 2 ^ 53" by simp
    from fsub_whole [OF w(3) fw(2) b2] fw(1)
    have "fsub (balance sender) (fadd (amount tx) (fee tx))
        = Fin (val (balance sender) - (val (amount tx) + val (fee tx)))" by simp
    with b show "map_option balance (map_of (participants st') sid)
          = Some (Fin (val (balance sender) - (val (amount tx) + val (fee tx))))" by simp
  qed
  have o: "\<forall>k. k \<noteq> sid \<longrightarrow> map_of (participants st') k = map_of (participants st) k"
    by (simp add: p map_of_mutate)
  have h: "tx_hash tx = sha256_hex E (tx_from tx @ '':'' @ tx_to tx @ '':'' @ numToString E (amount tx)
                    @ '':'' @ numToString E (fee tx) @ '':'' @ decimal (tx_timestamp tx))"
    using f(6) by (simp add: generateTransactionHash_def)
  have sc: "balance sender = Fin 100 \<and> a = Number (Fin 10) \<and> f = Number (Fin 1) \<and> mempool st = [] \<and>
        totalTransactions (stats st) = 0
        \<longrightarrow> map_option balance (map_of (participants st') sid) = Some (Fin 89) \<and> mempool st' = [tx] \<and>
            totalTransactions (stats st') = 1"
    using b m t f(3,4) by (auto simp: parseFloat_def)
  have mi: "\<forall>sys sid' now' st'' blk. reachable E sys \<and> mine_block E sid' now' (ws sys) = (st'', Inr blk) \<longrightarrow>
        transactions blk = take 5 (mempool (ws sys)) \<and>
        mempool st'' = drop 5 (mempool (ws sys)) \<and>
        (\<forall>k. unambiguous (participants (ws sys)) (transactions blk) k \<longrightarrow>
           map_option balance (map_of (participants st'') k) =
             map_option (\<lambda>p. foldl fadd (balance p)
                 (credits (participants (ws sys)) (transactions blk) k))
               (map_of (participants (ws sys)) k)) \<and>
        (\<forall>k. \<exists>sub. subseq sub (filter (\<lambda>t. k \<in> set (carriers (participants (ws sys)) (tx_to t)))
                                 (transactions blk)) \<and>
           map_option balance (map_of (participants st'') k) =
             map_option (\<lambda>p. foldl fadd (balance p) (map amount sub))
               (map_of (participants (ws sys)) k)) \<and>
        (\<forall>k. (\<forall>t\<in>set (transactions blk). k \<notin> set (carriers (participants (ws sys)) (tx_to t))) \<longrightarrow>
           map_option balance (map_of (participants st'') k) =
             map_option balance (map_of (participants (ws sys)) k))"
  proof (intro allI impI, elim conjE)
    fix sys sid' now' st'' blk
    assume r: "reachable E sys" and e: "mine_block E sid' now' (ws sys) = (st'', Inr blk)"
    from reachable_chain [OF r] have ne: "blockchain (ws sys) \<noteq> []" by (simp add: chain_ok_def)
    from mine_block_Inr [OF e ne] obtain mm where
      mm: "map_of (participants (ws sys)) sid' = Some mm"
      and blk: "blk = block_of E (nickname mm) now' (ws sys)"
      and pool: "mempool st'' = drop 5 (mempool (ws sys))"
      by blast
    have t: "transactions blk = take 5 (mempool (ws sys))" by (simp add: blk)
    have bal: "map_option balance (map_of (participants st'') k) =
             map_option (\<lambda>p. foldl fadd (balance p)
                 (credits (participants (ws sys)) (transactions blk) k))
               (map_of (participants (ws sys)) k)"
      if "unambiguous (participants (ws sys)) (transactions blk) k" for k
      using that by (rule mine_block_balances [OF e ne])
    have only: "\<exists>sub. subseq sub (filter (\<lambda>t. k \<in> set (carriers (participants (ws sys)) (tx_to t)))
                                 (transactions blk)) \<and>
           map_option balance (map_of (participants st'') k) =
             map_option (\<lambda>p. foldl fadd (balance p) (map amount sub))
               (map_of (participants (ws sys)) k)" for k
      by (rule mine_block_credited_only [OF e ne])
    have keep: "map_option balance (map_of (participants st'') k) =
             map_option balance (map_of (participants (ws sys)) k)"
      if "\<forall>t\<in>set (transactions blk). k \<notin> set (carriers (participants (ws sys)) (tx_to t))" for k
    proof -
      from that have u: "unambiguous (participants (ws sys)) (transactions blk) k"
        by (simp add: unambiguous_def)
      from that have "filter (\<lambda>t. carriers (participants (ws sys)) (tx_to t) = [k]) (transactions blk) = []"
        by (auto simp: filter_empty_conv)
      then have "credits (participants (ws sys)) (transactions blk) k = []" by (simp add: credits_def)
      with bal [OF u] show ?thesis by simp
    qed
    from t pool bal only keep
    show "transactions blk = take 5 (mempool (ws sys)) \<and>
        mempool st'' = drop 5 (mempool (ws sys)) \<and>
        (\<forall>k. unambiguous (participants (ws sys)) (transactions blk) k \<longrightarrow>
           map_option balance (map_of (participants st'') k) =
             map_option (\<lambda>p. foldl fadd (balance p)
                 (credits (participants (ws sys)) (transactions blk) k))
               (map_of (participants (ws sys)) k)) \<and>
        (\<forall>k. \<exists>sub. subseq sub (filter (\<lambda>t. k \<in> set (carriers (participants (ws sys)) (tx_to t)))
                                 (transactions blk)) \<and>
           map_option balance (map_of (participants st'') k) =
             map_option (\<lambda>p. foldl fadd (balance p) (map amount sub))
               (map_of (participants (ws sys)) k)) \<and>
        (\<forall>k. (\<forall>t\<in>set (transactions blk). k \<notin> set (carriers (participants (ws sys)) (tx_to t))) \<longrightarrow>
           map_option balance (map_of (participants st'') k) =
             map_option balance (map_of (participants (ws sys)) k))"
      by blast
  qed
  have fr: "\<forall>ev sys. \<not> is_send ev \<and> \<not> is_mine ev \<and> \<not> is_join ev \<longrightarrow>
        map (\<lambda>(k, p). (k, balance p)) (participants (ws (fire E ev sys)))
          = map (\<lambda>(k, p). (k, balance p)) (participants (ws sys))"
    using balances_other by blast
  show ?thesis
    apply (rule exI [of _ sender])
    apply (intro conjI)
    subgoal by (rule s)
    subgoal by (rule f)
    subgoal by (rule f)
    subgoal by (rule p)
    subgoal by (rule b)
    subgoal by (rule x)
    subgoal by (rule o)
    subgoal by (rule m)
    subgoal by (rule f)
    subgoal by (rule f)
    subgoal by (rule f)
    subgoal by (rule h)
    subgoal by (rule t)
    subgoal by (rule c)
    subgoal by (rule sc)
    subgoal by (rule mi)
    subgoal by (rule fr)
    done
qed

theorem send_transaction_accepted_witness:
  "map_option balance (map_of (participants (ws demo_joined)) ''s1'') = Some (Fin 100) \<and>
   map_option balance (map_of (participants (ws demo_sent)) ''s1'') = Some (Fin 89) \<and>
   map_option balance (map_of (participants (ws demo_sent)) ''s2'') = Some (Fin 100) \<and>
   mempool (ws demo_sent) = [demo_tx ''alice'' ''bob'' (Fin 10) (Fin 1) (8001 / 2) 4000] \<and>
   totalTransactions (stats (ws demo_sent)) = 1 \<and>
   mempool (ws demo_assigned) = [demo_tx ''alice'' ''bob'' (Fin 10) (Fin 1) (8001 / 2) 4000] \<and>
   carriers (participants (ws demo_assigned)) ''bob'' = [''s2''] \<and>
   map_option balance (map_of (participants (ws demo_assigned)) ''s2'') = Some (Fin 100) \<and>
   map_option balance (map_of (participants (ws demo_mined)) ''s2'') = Some (Fin 110) \<and>
   map_option balance (map_of (participants (ws demo_mined)) ''s1'') = Some (Fin 89) \<and>
   mempool (ws demo_mined) = [] \<and>
   map (\<lambda>(k, p). (k, balance p)) (participants (ws (fire demo_env (Disconnect ''s2'') demo_sent)))
     = [(''s1'', Fin 89), (''s2'', Fin 100), (''s3'', Fin 0)]"
proof -
  from send_transaction_accepted [OF demo_sent_eq]
  obtain sender where s: "map_of (participants (ws demo_joined)) ''s1'' = Some sender"
    "\<forall>k. k \<noteq> ''s1'' \<longrightarrow> map_of (participants (ws demo_sent)) k = map_of (participants (ws demo_joined)) k"
    "balance sender = Fin 100 \<and> Number (Fin 10) = Number (Fin 10) \<and> Number (Fin 1) = Number (Fin 1) \<and>
       mempool (ws demo_joined) = [] \<and> totalTransactions (stats (ws demo_joined)) = 0
        \<longrightarrow> map_option balance (map_of (participants (ws demo_sent)) ''s1'') = Some (Fin 89) \<and>
            mempool (ws demo_sent) = [demo_tx ''alice'' ''bob'' (Fin 10) (Fin 1) (8001 / 2) 4000] \<and>
            totalTransactions (stats (ws demo_sent)) = 1"
    "\<forall>sys sid' now' st'' blk. reachable demo_env sys \<and> mine_block demo_env sid' now' (ws sys) = (st'', Inr blk) \<longrightarrow>
        transactions blk = take 5 (mempool (ws sys)) \<and>
        mempool st'' = drop 5 (mempool (ws sys)) \<and>
        (\<forall>k. unambiguous (participants (ws sys)) (transactions blk) k \<longrightarrow>
           map_option balance (map_of (participants st'') k) =
             map_option (\<lambda>p. foldl fadd (balance p)
                 (credits (participants (ws sys)) (transactions blk) k))
               (map_of (participants (ws sys)) k)) \<and>
        (\<forall>k. \<exists>sub. subseq sub (filter (\<lambda>t. k \<in> set (carriers (participants (ws sys)) (tx_to t)))
                                 (transactions blk)) \<and>
           map_option balance (map_of (participants st'') k) =
             map_option (\<lambda>p. foldl fadd (balance p) (map amount sub))
               (map_of (participants (ws sys)) k)) \<and>
        (\<forall>k. (\<forall>t\<in>set (transactions blk). k \<notin> set (carriers (participants (ws sys)) (tx_to t))) \<longrightarrow>
           map_option balance (map_of (participants st'') k) =
             map_option balance (map_of (participants (ws sys)) k))"
    "amount (demo_tx ''alice'' ''bob'' (Fin 10) (Fin 1) (8001 / 2) 4000)
       = parseFloat demo_env (Number (Fin 10))"
    "whole (balance sender) \<and> whole (amount (demo_tx ''alice'' ''bob'' (Fin 10) (Fin 1) (8001 / 2) 4000)) \<and>
       whole (fee (demo_tx ''alice'' ''bob'' (Fin 10) (Fin 1) (8001 / 2) 4000)) \<and>
       mag (balance sender) + mag (amount (demo_tx ''alice'' ''bob'' (Fin 10) (Fin 1) (8001 / 2) 4000))
         + mag (fee (demo_tx ''alice'' ''bob'' (Fin 10) (Fin 1) (8001 / 2) 4000)) < 2 ^ 53 \<longrightarrow>
       map_option balance (map_of (participants (ws demo_sent)) ''s1'')
         = Some (Fin (val (balance sender)
             - (val (amount (demo_tx ''alice'' ''bob'' (Fin 10) (Fin 1) (8001 / 2) 4000))
                + val (fee (demo_tx ''alice'' ''bob'' (Fin 10) (Fin 1) (8001 / 2) 4000)))))"
    "\<forall>ev sys. \<not> is_send ev \<and> \<not> is_mine ev \<and> \<not> is_join ev \<longrightarrow>
        map (\<lambda>(k, p). (k, balance p)) (participants (ws (fire demo_env ev sys)))
          = map (\<lambda>(k, p). (k, balance p)) (participants (ws sys))"
    by (elim exE conjE)
  from s(1) have bs: "balance sender = Fin 100" by (auto simp: demo_joined_eq alice_def)
  from s(6) have x: "map_option balance (map_of (participants (ws demo_sent)) ''s1'')
         = Some (Fin (100 - (10 + 1)))"
    by (simp add: bs mag_def)
  have ne: "\<not> is_send (Disconnect ''s2'') \<and> \<not> is_mine (Disconnect ''s2'') \<and> \<not> is_join (Disconnect ''s2'')"
    by simp
  from s(7) [THEN spec, THEN spec, THEN mp, OF ne, of demo_sent]
  have fr: "map (\<lambda>(k, p). (k, balance p)) (participants (ws (fire demo_env (Disconnect ''s2'') demo_sent)))
     = [(''s1'', Fin 89), (''s2'', Fin 100), (''s3'', Fin 0)]"
    by (simp add: demo_sent_state alice_def bob_def mike_def)
  from s(1) have "balance sender = Fin 100" by (auto simp: demo_joined_eq alice_def)
  with s(3) have 1: "map_option balance (map_of (participants (ws demo_sent)) ''s1'') = Some (Fin 89) \<and>
            mempool (ws demo_sent) = [demo_tx ''alice'' ''bob'' (Fin 10) (Fin 1) (8001 / 2) 4000] \<and>
            totalTransactions (stats (ws demo_sent)) = 1"
    by (simp add: demo_joined_eq)
  from s(2) have 2: "map_of (participants (ws demo_sent)) ''s2'' = map_of (participants (ws demo_joined)) ''s2''"
    by simp
  from s(4) [THEN spec, THEN spec, THEN spec, THEN spec, THEN spec, THEN mp,
      OF conjI [OF demo_assigned_reachable demo_mined_by]]
  have mi: "transactions (block_of demo_env ''mike'' 6000 (ws demo_assigned))
       = take 5 (mempool (ws demo_assigned))"
    "mempool (ws demo_mined) = drop 5 (mempool (ws demo_assigned))"
    "\<forall>k. unambiguous (participants (ws demo_assigned))
          (transactions (block_of demo_env ''mike'' 6000 (ws demo_assigned))) k \<longrightarrow>
       map_option balance (map_of (participants (ws demo_mined)) k) =
         map_option (\<lambda>p. foldl fadd (balance p)
             (credits (participants (ws demo_assigned))
                (transactions (block_of demo_env ''mike'' 6000 (ws demo_assigned))) k))
           (map_of (participants (ws demo_assigned)) k)"
    "\<forall>k. (\<forall>t\<in>set (transactions (block_of demo_env ''mike'' 6000 (ws demo_assigned))).
            k \<notin> set (carriers (participants (ws demo_assigned)) (tx_to t))) \<longrightarrow>
       map_option balance (map_of (participants (ws demo_mined)) k) =
         map_option balance (map_of (participants (ws demo_assigned)) k)"
    by blast+
  have ca: "carriers (participants (ws demo_assigned)) ''bob'' = [''s2'']"
    by (simp add: carriers_def demo_assigned_eq alice_def bob_def mike_def)
  have pool: "mempool (ws demo_assigned) = [demo_tx ''alice'' ''bob'' (Fin 10) (Fin 1) (8001 / 2) 4000]"
    by (simp add: demo_assigned_eq)
  have u: "unambiguous (participants (ws demo_assigned))
          (transactions (block_of demo_env ''mike'' 6000 (ws demo_assigned))) ''s2''"
    by (simp add: pool unambiguous_def ca)
  have cr: "credits (participants (ws demo_assigned))
          (transactions (block_of demo_env ''mike'' 6000 (ws demo_assigned))) ''s2'' = [Fin 10]"
    by (simp add: pool credits_def ca)
  have b0: "map_option balance (map_of (participants (ws demo_assigned)) ''s2'') = Some (Fin 100)"
    by (simp add: demo_assigned_eq bob_def)
  from mi(3) [THEN spec, THEN mp, OF u]
  have "map_option balance (map_of (participants (ws demo_mined)) ''s2'') =
      map_option (\<lambda>p. foldl fadd (balance p) [Fin 10]) (map_of (participants (ws demo_assigned)) ''s2'')"
    by (simp only: cr)
  then have 3: "map_option balance (map_of (participants (ws demo_mined)) ''s2'') = Some (Fin 110)"
    by (simp add: demo_assigned_eq bob_def)
  have 4: "mempool (ws demo_mined) = []" using mi(2) by (simp add: pool)
  have n1: "\<forall>t\<in>set (transactions (block_of demo_env ''mike'' 6000 (ws demo_assigned))).
            ''s1'' \<notin> set (carriers (participants (ws demo_assigned)) (tx_to t))"
    by (simp add: pool ca)
  from mi(4) [THEN spec, THEN mp, OF n1]
  have 5: "map_option balance (map_of (participants (ws demo_mined)) ''s1'') = Some (Fin 89)"
    by (simp add: demo_assigned_eq alice_def)
  from 1 2 3 4 5 ca pool b0 x fr show ?thesis by (simp add: demo_joined_eq alice_def bob_def)
qed

text \<open>
  C3 as stated fails in three ways. A user who sends to their own nickname is the
  recipient, and the recipient's balance is not unchanged at submission: it drops from
  100 to 89. The debit is a double difference: a sender with balance 100 who sends 100
  with fee \<open>2^(-50)\<close> is accepted and ends with 0, having paid 100 and not amount plus
  fee. And a recipient who has taken another nickname before the block is mined is not
  credited: \<open>bob\<close> of session \<open>s2\<close>, the recipient at submission, is \<open>robert\<close> when the
  block is mined and keeps the balance 100.
\<close>

theorem submission_counterexample:
  "snd (send_transaction demo_env ''s1'' ''alice'' (Number (Fin 10)) (Number (Fin 1)) (8001 / 2) 4000
          (0, 4000) (ws demo_joined))
     = Inr (demo_tx ''alice'' ''alice'' (Fin 10) (Fin 1) (8001 / 2) 4000) \<and>
   map_option balance (find (\<lambda>p. nickname p = ''alice'' \<and> online p)
     (values_of (participants (ws demo_joined)))) = Some (Fin 100) \<and>
   map_option balance (find (\<lambda>p. nickname p = ''alice'' \<and> online p)
     (values_of (participants (fst (send_transaction demo_env ''s1'' ''alice'' (Number (Fin 10))
        (Number (Fin 1)) (8001 / 2) 4000 (0, 4000) (ws demo_joined)))))) = Some (Fin 89) \<and>
   map_option balance (map_of (participants (ws demo_joined)) ''s1'') = Some (Fin 100) \<and>
   send_transaction demo_env ''s1'' ''bob'' (Number (Fin 100)) (Number tiny) (8001 / 2) 4000 (0, 4000)
       (ws demo_joined)
     = (ws demo_rounded, Inr (demo_tx ''alice'' ''bob'' (Fin 100) tiny (8001 / 2) 4000)) \<and>
   val (Fin 100) + val tiny = 100 + 1 / 2 ^ 50 \<and>
   map_option balance (map_of (participants (ws demo_rounded)) ''s1'') = Some (Fin 0) \<and>
   reachable demo_env demo_renamed \<and>
   map_option pid (find (\<lambda>p. nickname p = ''bob'' \<and> online p)
     (values_of (participants (ws demo_joined)))) = Some ''s2'' \<and>
   mempool (ws demo_sent) = [demo_tx ''alice'' ''bob'' (Fin 10) (Fin 1) (8001 / 2) 4000] \<and>
   snd (mine_block demo_env ''s3'' 6000 (ws demo_renamed))
     = Inr (block_of demo_env ''mike'' 6000 (ws demo_renamed)) \<and>
   transactions (block_of demo_env ''mike'' 6000 (ws demo_renamed))
     = [demo_tx ''alice'' ''bob'' (Fin 10) (Fin 1) (8001 / 2) 4000] \<and>
   map_option balance (map_of (participants (ws demo_renamed)) ''s2'') = Some (Fin 100) \<and>
   map_option balance (map_of (participants (fst (mine_block demo_env ''s3'' 6000 (ws demo_renamed))))
      ''s2'') = Some (Fin 100)"
proof -
  have 1: "snd (send_transaction demo_env ''s1'' ''alice'' (Number (Fin 10)) (Number (Fin 1)) (8001 / 2) 4000
          (0, 4000) (ws demo_joined))
     = Inr (demo_tx ''alice'' ''alice'' (Fin 10) (Fin 1) (8001 / 2) 4000) \<and>
   map_option balance (find (\<lambda>p. nickname p = ''alice'' \<and> online p)
     (values_of (participants (ws demo_joined)))) = Some (Fin 100) \<and>
   map_option balance (find (\<lambda>p. nickname p = ''alice'' \<and> online p)
     (values_of (participants (fst (send_transaction demo_env ''s1'' ''alice'' (Number (Fin 10))
        (Number (Fin 1)) (8001 / 2) 4000 (0, 4000) (ws demo_joined)))))) = Some (Fin 89)"
    by (simp add: demo_joined_eq demo_tx_def alice_def bob_def mike_def
        send_transaction_def insufficient_def parseFloat_def values_of_def mutate_def Let_def)
  have 2: "map_option balance (map_of (participants (ws demo_joined)) ''s1'') = Some (Fin 100)"
    "map_option pid (find (\<lambda>p. nickname p = ''bob'' \<and> online p)
       (values_of (participants (ws demo_joined)))) = Some ''s2''"
    by (simp_all add: demo_joined_eq alice_def bob_def mike_def values_of_def)
  have 3: "map_option balance (map_of (participants (ws demo_rounded)) ''s1'') = Some (Fin 0)"
    by (simp add: demo_rounded_state alice_def)
  have 4: "snd (mine_block demo_env ''s3'' 6000 (ws demo_renamed))
     = Inr (block_of demo_env ''mike'' 6000 (ws demo_renamed))"
    by (simp add: mine_block_commit [where m = mike] demo_renamed_eq mike_def)
  have 5: "map_option balance (map_of (participants (fst (mine_block demo_env ''s3'' 6000 (ws demo_renamed))))
      ''s2'') = Some (Fin 100)"
    by (simp add: mine_block_commit [where m = mike] demo_renamed_eq mike_def)
       (simp add: alice_def robert_def mike_def creditRecipient_def find_entry_def mutate_def
          rewardMiner_def)
  have 6: "transactions (block_of demo_env ''mike'' 6000 (ws demo_renamed))
     = [demo_tx ''alice'' ''bob'' (Fin 10) (Fin 1) (8001 / 2) 4000]"
    "map_option balance (map_of (participants (ws demo_renamed)) ''s2'') = Some (Fin 100)"
    "mempool (ws demo_sent) = [demo_tx ''alice'' ''bob'' (Fin 10) (Fin 1) (8001 / 2) 4000]"
    by (simp_all add: demo_renamed_eq demo_sent_state robert_def)
  from 1 2 3 4 5 6 demo_rounded_eq demo_renamed_reachable val_tiny show ?thesis by simp
qed






text \<open>
  C6. In every reachable state the pool holds at most 5 transactions. A submission to a
  pool of 5 is rejected, with \<open>CapacityError\<close> when the earlier checks pass; mining only
  drops transactions from the front; no other event changes the pool.
\<close>

theorem pool_bounded:
  assumes "reachable E sys"
  shows "length (mempool (ws sys)) \<le> 5 \<and>
    (\<forall>sid to a f idv now trig. length (mempool (ws sys)) = 5 \<longrightarrow>
        (\<exists>e. send_transaction E sid to a f idv now trig (ws sys) = (ws sys, Inl e)) \<and>
        (valid_parties E sid to a f (ws sys) \<longrightarrow>
           send_transaction E sid to a f idv now trig (ws sys) = (ws sys, Inl CapacityError))) \<and>
    (\<forall>sid now. \<exists>n. mempool (fst (mine_block E sid now (ws sys))) = drop n (mempool (ws sys))) \<and>
    (\<forall>ev. \<not> is_send ev \<and> \<not> is_mine ev \<longrightarrow> mempool (ws (fire E ev sys)) = mempool (ws sys))"
proof -
  have 1: "length (mempool (ws sys)) \<le> 5" using assms by (rule reachable_pool)
  have 2: "\<exists>e. send_transaction E sid to a f idv now trig (ws sys) = (ws sys, Inl e)"
    if "length (mempool (ws sys)) = 5" for sid to a f idv now trig
    using that by (intro send_transaction_reject) (simp add: accepts_def)
  have 3: "send_transaction E sid to a f idv now trig (ws sys) = (ws sys, Inl CapacityError)"
    if "length (mempool (ws sys)) = 5" "valid_parties E sid to a f (ws sys)" for sid to a f idv now trig
    using that by (intro send_transaction_full) simp_all
  have 4: "\<exists>n. mempool (fst (mine_block E sid now (ws sys))) = drop n (mempool (ws sys))" for sid now
    using mine_block_mempool [of E sid now "ws sys"] by (metis drop0)
  from 1 2 3 4 other_events_mempool show ?thesis by blast
qed

theorem pool_bounded_witness:
  "length (mempool (ws demo_full)) = 5 \<and>
   send_transaction demo_env ''s1'' ''bob'' (Number (Fin 10)) (Number (Fin 1)) (6011 / 2) 3005 (0, 3005) (ws demo_full)
     = (ws demo_full, Inl CapacityError) \<and>
   mempool (ws (fire demo_env (Disconnect ''s2'') demo_full)) = mempool (ws demo_full)"
proof -
  have l: "length (mempool (ws demo_full)) = 5" by (simp add: demo_full_eq)
  have v: "valid_parties demo_env ''s1'' ''bob'' (Number (Fin 10)) (Number (Fin 1)) (ws demo_full)"
    by (simp add: demo_full_eq valid_parties_def insufficient_def alice_def bob_def values_of_def)
  have e: "\<not> is_send (Disconnect ''s2'') \<and> \<not> is_mine (Disconnect ''s2'')" by simp
  from pool_bounded [OF demo_full_reachable] l v e show ?thesis by blast
qed

text \<open>
  C7, as amended. In every reachable state the hash of every block after the genesis
  block is the digest of \<open>previousHash:merkleRoot:timestamp:number\<close> of that block. The
  genesis block carries the fixed string \<open>genesis_hash\<close>, which is no digest.
\<close>

theorem block_hash_digest:
  assumes "reachable E sys"
  shows "hash (blockchain (ws sys) ! 0) = genesis_hash \<and>
    hash (blockchain (ws sys) ! 0) \<noteq> generateBlockHash E (blockchain (ws sys) ! 0) \<and>
    (\<forall>N. 0 < N \<and> N < length (blockchain (ws sys)) \<longrightarrow>
       hash (blockchain (ws sys) ! N) = generateBlockHash E (blockchain (ws sys) ! N) \<and>
       generateBlockHash E (blockchain (ws sys) ! N)
         = sha256_hex E (previousHash (blockchain (ws sys) ! N) @ '':''
             @ merkleRoot (blockchain (ws sys) ! N) @ '':''
             @ decimal (timestamp (blockchain (ws sys) ! N)) @ '':''
             @ decimal (number (blockchain (ws sys) ! N))))"
proof -
  from assms have c: "chain_ok E (blockchain (ws sys))" by (rule reachable_chain)
  then have g: "hash (blockchain (ws sys) ! 0) = genesis_hash" by (simp add: chain_ok_def)
  from c have "\<forall>N. 0 < N \<and> N < length (blockchain (ws sys)) \<longrightarrow>
       hash (blockchain (ws sys) ! N) = generateBlockHash E (blockchain (ws sys) ! N)"
    by (simp add: chain_ok_def)
  with g genesis_no_digest [of E] show ?thesis by (simp add: generateBlockHash_def)
qed

theorem block_hash_digest_witness:
  "length (blockchain (ws demo_mined)) = 2 \<and>
   hash (blockchain (ws demo_mined) ! 0) = genesis_hash \<and>
   hash (blockchain (ws demo_mined) ! 1) = generateBlockHash demo_env (blockchain (ws demo_mined) ! 1)"
  using block_hash_digest [OF demo_mined_reachable] by (simp add: demo_mined_eq)

text \<open>
  C7 as stated fails at the genesis block: its hash is not the digest of its fields.
\<close>

theorem genesis_hash_counterexample:
  "hash (blockchain (ws (boot 0)) ! 0)
     \<noteq> generateBlockHash demo_env (blockchain (ws (boot 0)) ! 0)"
  using genesis_no_digest [of demo_env "genesisBlock 0"]
  by (simp add: boot_def initializeBlockchain_def workshopState0_def genesisBlock_def)

text \<open>
  C8 fails on the code when the active assignment is the empty nickname: the trigger
  treats it as no assignment and selects again. Here the miner with the empty nickname
  holds the assignment, the periodic sweep fires, and the assignment moves to another
  miner with a new deadline. A fourth submission, which runs the trigger as well, does
  the same with no timer involved.
\<close>

theorem trigger_overrides_blank_assignment:
  "reachable demo_env demo_blank \<and>
   currentMiner (ws demo_blank) = Some [] \<and>
   may_mine ''s3'' (ws demo_blank) \<and>
   sweep (1 / 2, 50000) (ws demo_blank) = triggerMining (1 / 2, 50000) (ws demo_blank) \<and>
   currentMiner (triggerMining (1 / 2, 50000) (ws demo_blank)) = Some ''mike'' \<and>
   nextMiningTime (triggerMining (1 / 2, 50000) (ws demo_blank)) = Some 80000 \<and>
   nextMiningTime (ws demo_blank) = Some 34002 \<and>
   currentMiner (fst (send_transaction demo_env ''s1'' ''bob'' (Number (Fin 10)) (Number (Fin 1))
      (8007 / 2) 4003 (1 / 2, 4003) (ws demo_blank))) = Some ''mike'' \<and>
   nextMiningTime (fst (send_transaction demo_env ''s1'' ''bob'' (Number (Fin 10)) (Number (Fin 1))
      (8007 / 2) 4003 (1 / 2, 4003) (ws demo_blank))) = Some 34003"
  using demo_blank_reachable
  by (simp add: demo_blank_eq may_mine_def blank_def mike4_def alice_def bob_def sweep_def
      triggerMining_def getRandomMiner_def values_of_def send_transaction_def insufficient_def
      parseFloat_def mutate_def Let_def)

text \<open>
  C9 fails on the code: the mining handler looks the recipient nickname up again, among
  all participants, online or not. Here the transaction is accepted with the online
  \<open>bob\<close> of session \<open>s2\<close> as recipient, and the mined amount goes to the offline \<open>bob\<close>
  of session \<open>s0\<close>, who joined earlier.
\<close>

theorem mined_amount_goes_to_offline_namesake:
  "reachable demo_env demo_reuse \<and>
   find (\<lambda>p. nickname p = ''bob'' \<and> online p) (values_of (participants (ws demo_reuse_joined)))
     = Some bob \<and>
   pid bob = ''s2'' \<and>
   map (\<lambda>(k, p). (k, nickname p, online p, balance p)) (participants (ws demo_reuse))
     = [(''s0'', ''bob'', False, Fin 100), (''s1'', ''alice'', True, Fin 89),
        (''s2'', ''bob'', True, Fin 100), (''s3'', ''mike'', True, Fin 0)] \<and>
   map (\<lambda>(k, p). (k, nickname p, online p, balance p))
       (participants (fst (mine_block demo_env ''s3'' 6000 (ws demo_reuse))))
     = [(''s0'', ''bob'', False, Fin 110), (''s1'', ''alice'', True, Fin 89),
        (''s2'', ''bob'', True, Fin 100), (''s3'', ''mike'', True, Fin 0)]"
proof -
  have "map (\<lambda>(k, p). (k, nickname p, online p, balance p))
       (participants (fst (mine_block demo_env ''s3'' 6000 (ws demo_reuse))))
     = [(''s0'', ''bob'', False, Fin 110), (''s1'', ''alice'', True, Fin 89),
        (''s2'', ''bob'', True, Fin 100), (''s3'', ''mike'', True, Fin 0)]"
    by (simp add: mine_block_commit [where m = mike] demo_reuse_eq mike_def)
       (simp add: old_bob_def alice_def bob_def mike_def creditRecipient_def find_entry_def
          mutate_def rewardMiner_def)
  then show ?thesis
    using demo_reuse_reachable
    by (simp add: demo_reuse_eq demo_reuse_joined_eq old_bob_def alice_def bob_def mike_def
        values_of_def)
qed

text \<open>
  C10, as amended. Take the total of balances, mining rewards and pooled amounts and
  fees, each number at its exact value. In a reachable state, an accepted submission
  whose two double operations are exact (the sum of amount and fee, and the debit)
  leaves the total unchanged; a successful mine whose double additions are exact (the
  credits, the sum of the fees, the reward) lowers it by exactly the amounts of the
  included transactions whose recipient nickname no participant carries (they are
  credited to nobody), and leaves it unchanged when every included recipient nickname
  is carried by some participant. The same holds in a state whose numbers are whole
  with magnitudes adding up to less than \<open>2^53\<close>, for a whole amount and fee within
  that bound. Events other than a join, a submission and mining leave
  the total unchanged in every state, and the first join of a session adds 100 for a
  user and nothing otherwise. Where an operation is rounded, the total may drift.
\<close>

theorem token_accounting:
  assumes "reachable E sys"
  shows
   "(\<forall>st' tx. exact_send E sid a f (ws sys) \<and>
        send_transaction E sid to a f idv now trig (ws sys) = (st', Inr tx) \<longrightarrow>
        total st' = total (ws sys)) \<and>
    (\<forall>st' blk. exact_mine sid (ws sys) \<and> mine_block E sid now (ws sys) = (st', Inr blk) \<longrightarrow>
        total st' = total (ws sys) - burnt (participants (ws sys)) (transactions blk) \<and>
        ((\<forall>tx\<in>set (transactions blk). carriers (participants (ws sys)) (tx_to tx) \<noteq> [])
           \<longrightarrow> total st' = total (ws sys))) \<and>
    (\<forall>st' tx. exact_state (ws sys) \<and> whole (parseFloat E a) \<and> whole (parseFloat E f) \<and>
        magnitude (ws sys) + mag (parseFloat E a) + mag (parseFloat E f) < 2 ^ 53 \<and>
        send_transaction E sid to a f idv now trig (ws sys) = (st', Inr tx) \<longrightarrow>
        total st' = total (ws sys)) \<and>
    (\<forall>st' blk. exact_state (ws sys) \<and> mine_block E sid now (ws sys) = (st', Inr blk) \<longrightarrow>
        total st' = total (ws sys) - burnt (participants (ws sys)) (transactions blk) \<and>
        ((\<forall>tx\<in>set (transactions blk). carriers (participants (ws sys)) (tx_to tx) \<noteq> [])
           \<longrightarrow> total st' = total (ws sys))) \<and>
    (\<forall>ev. \<not> is_send ev \<and> \<not> is_mine ev \<and> \<not> is_join ev \<longrightarrow>
        total (ws (fire E ev sys)) = total (ws sys)) \<and>
    (\<forall>st' p. map_of (participants (ws sys)) sid = None \<and>
        join_workshop sid nick rl now (ws sys) = (st', Inr p) \<longrightarrow>
        total st' = total (ws sys) + (if rl = ''user'' then 100 else 0))"
proof -
  from reachable_keys [OF assms] have d: "distinct (map fst (participants (ws sys)))"
    by (simp add: keys_inv_def)
  from reachable_chain [OF assms] have ne: "blockchain (ws sys) \<noteq> []"
    by (simp add: chain_ok_def)
  have g1: "\<forall>st' tx. exact_send E sid a f (ws sys) \<and>
        send_transaction E sid to a f idv now trig (ws sys) = (st', Inr tx) \<longrightarrow>
        total st' = total (ws sys)"
    using total_send_exact [OF d] by blast
  have g2: "\<forall>st' blk. exact_mine sid (ws sys) \<and> mine_block E sid now (ws sys) = (st', Inr blk) \<longrightarrow>
        total st' = total (ws sys) - burnt (participants (ws sys)) (transactions blk) \<and>
        ((\<forall>tx\<in>set (transactions blk). carriers (participants (ws sys)) (tx_to tx) \<noteq> [])
           \<longrightarrow> total st' = total (ws sys))"
  proof (intro allI impI, elim conjE)
    fix st' blk
    assume x: "exact_mine sid (ws sys)" and e: "mine_block E sid now (ws sys) = (st', Inr blk)"
    from total_mine_exact [OF d ne x e]
    have t: "total st' = total (ws sys) - burnt (participants (ws sys)) (transactions blk)" .
    with burnt_none [of "transactions blk" "participants (ws sys)"]
    show "total st' = total (ws sys) - burnt (participants (ws sys)) (transactions blk) \<and>
        ((\<forall>tx\<in>set (transactions blk). carriers (participants (ws sys)) (tx_to tx) \<noteq> [])
           \<longrightarrow> total st' = total (ws sys))"
      by simp
  qed
  have 1: "\<forall>st' tx. exact_state (ws sys) \<and> whole (parseFloat E a) \<and> whole (parseFloat E f) \<and>
        magnitude (ws sys) + mag (parseFloat E a) + mag (parseFloat E f) < 2 ^ 53 \<and>
        send_transaction E sid to a f idv now trig (ws sys) = (st', Inr tx) \<longrightarrow>
        total st' = total (ws sys)"
    using total_send [OF d] by blast
  have 2: "\<forall>st' blk. exact_state (ws sys) \<and> mine_block E sid now (ws sys) = (st', Inr blk) \<longrightarrow>
        total st' = total (ws sys) - burnt (participants (ws sys)) (transactions blk) \<and>
        ((\<forall>tx\<in>set (transactions blk). carriers (participants (ws sys)) (tx_to tx) \<noteq> [])
           \<longrightarrow> total st' = total (ws sys))"
  proof (intro allI impI, elim conjE)
    fix st' blk
    assume x: "exact_state (ws sys)" and e: "mine_block E sid now (ws sys) = (st', Inr blk)"
    from total_mine [OF d ne x e]
    have t: "total st' = total (ws sys) - burnt (participants (ws sys)) (transactions blk)" .
    with burnt_none [of "transactions blk" "participants (ws sys)"]
    show "total st' = total (ws sys) - burnt (participants (ws sys)) (transactions blk) \<and>
        ((\<forall>tx\<in>set (transactions blk). carriers (participants (ws sys)) (tx_to tx) \<noteq> [])
           \<longrightarrow> total st' = total (ws sys))"
      by simp
  qed
  have 3: "\<forall>ev. \<not> is_send ev \<and> \<not> is_mine ev \<and> \<not> is_join ev \<longrightarrow>
        total (ws (fire E ev sys)) = total (ws sys)"
    using total_other by blast
  have 4: "\<forall>st' p. map_of (participants (ws sys)) sid = None \<and>
        join_workshop sid nick rl now (ws sys) = (st', Inr p) \<longrightarrow>
        total st' = total (ws sys) + (if rl = ''user'' then 100 else 0)"
    using total_join_new by blast
  from g1 g2 1 2 3 4 show ?thesis by blast
qed

theorem token_accounting_witness:
  "exact_state (ws demo_joined) \<and> exact_state (ws demo_assigned) \<and>
   total (ws demo_joined) = 200 \<and> total (ws demo_sent) = 200 \<and>
   total (ws demo_assigned) = 200 \<and> total (ws demo_mined) = 200 \<and>
   exact_send demo_env ''s1'' (Number (Fin (1 / 2))) (Number (Fin (1 / 4))) (ws demo_joined) \<and>
   total (ws demo_half) = 200 \<and>
   exact_mine ''s3'' (ws demo_assigned) \<and>
   total (ws (fire demo_env (Disconnect ''s2'') demo_sent)) = 200 \<and>
   total (ws (boot 0)) = 0 \<and>
   total (fst (join_workshop ''s1'' ''alice'' ''user'' 1000 (ws (boot 0)))) = 100"
proof -
  have j: "total (ws demo_joined) = 200"
    by (simp add: total_def demo_joined_eq alice_def bob_def mike_def rewards_of_def)
  have a: "total (ws demo_assigned) = 200"
    by (simp add: total_def demo_assigned_eq alice_def bob_def mike_def rewards_of_def)
  have xj: "exact_state (ws demo_joined)"
    by (simp add: exact_state_def all_whole_def magnitude_def mag_def demo_joined_eq alice_def
        bob_def mike_def rewards_of_def)
  have xa: "exact_state (ws demo_assigned)"
    by (simp add: exact_state_def all_whole_def magnitude_def mag_def demo_assigned_eq alice_def
        bob_def mike_def rewards_of_def)
  have s: "exact_state (ws demo_joined) \<and> whole (parseFloat demo_env (Number (Fin 10))) \<and>
      whole (parseFloat demo_env (Number (Fin 1))) \<and>
      magnitude (ws demo_joined) + mag (parseFloat demo_env (Number (Fin 10)))
        + mag (parseFloat demo_env (Number (Fin 1))) < 2 ^ 53 \<and>
      send_transaction demo_env ''s1'' ''bob'' (Number (Fin 10)) (Number (Fin 1)) (8001 / 2) 4000
        (0, 4000) (ws demo_joined)
        = (ws demo_sent, Inr (demo_tx ''alice'' ''bob'' (Fin 10) (Fin 1) (8001 / 2) 4000))"
    using xj demo_sent_eq
    by (simp add: parseFloat_def mag_def)
       (simp add: magnitude_def mag_def demo_joined_eq alice_def bob_def mike_def rewards_of_def)
  have r: "\<forall>tx\<in>set (transactions (block_of demo_env ''mike'' 6000 (ws demo_assigned))).
      carriers (participants (ws demo_assigned)) (tx_to tx) \<noteq> []"
    by (simp add: demo_assigned_eq carriers_def bob_def)
  from token_accounting [OF demo_joined_reachable, THEN conjunct2, THEN conjunct2, THEN conjunct1,
      THEN spec, THEN spec, THEN mp, OF s] j
  have t: "total (ws demo_sent) = 200" by simp
  from token_accounting [OF demo_assigned_reachable, THEN conjunct2, THEN conjunct2, THEN conjunct2,
      THEN conjunct1, THEN spec, THEN spec, THEN mp, OF conjI [OF xa demo_mined_by], THEN conjunct2,
      THEN mp, OF r] a
  have m: "total (ws demo_mined) = 200" by simp
  have ne: "\<not> is_send (Disconnect ''s2'') \<and> \<not> is_mine (Disconnect ''s2'') \<and> \<not> is_join (Disconnect ''s2'')"
    by simp
  from token_accounting [OF demo_sent_reachable, THEN conjunct2, THEN conjunct2, THEN conjunct2,
      THEN conjunct2, THEN conjunct1, THEN spec, THEN mp, OF ne] t
  have o: "total (ws (fire demo_env (Disconnect ''s2'') demo_sent)) = 200" by simp
  have b0: "total (ws (boot 0)) = 0"
    by (simp add: total_def boot_def initializeBlockchain_def workshopState0_def)
  have jn: "map_of (participants (ws (boot 0))) ''s1'' = None \<and>
      join_workshop ''s1'' ''alice'' ''user'' 1000 (ws (boot 0))
        = (fst (join_workshop ''s1'' ''alice'' ''user'' 1000 (ws (boot 0))), Inr alice)"
    by (simp add: join_workshop_def boot_def initializeBlockchain_def workshopState0_def
        values_of_def alice_def Let_def)
  from token_accounting [OF reachable.start, THEN conjunct2, THEN conjunct2, THEN conjunct2,
      THEN conjunct2, THEN conjunct2, THEN spec, THEN spec, THEN mp, OF jn] b0
  have n: "total (fst (join_workshop ''s1'' ''alice'' ''user'' 1000 (ws (boot 0)))) = 100" by simp
  have xs: "exact_send demo_env ''s1'' (Number (Fin (1 / 2))) (Number (Fin (1 / 4))) (ws demo_joined)"
    by (simp add: exact_send_def exact_add_def exact_sub_def parseFloat_def demo_joined_eq alice_def)
  from token_accounting [OF demo_joined_reachable, THEN conjunct1, THEN spec, THEN spec, THEN mp,
      OF conjI [OF xs demo_half_eq]] j
  have h: "total (ws demo_half) = 200" by simp
  have xm: "exact_mine ''s3'' (ws demo_assigned)"
    by (simp add: exact_mine_def exact_add_def demo_assigned_eq demo_tx_def alice_def bob_def
        mike_def rewards_of_def find_entry_def creditRecipient_def mutate_def)
  from token_accounting [OF demo_assigned_reachable, THEN conjunct2, THEN conjunct1, THEN spec,
      THEN spec, THEN mp, OF conjI [OF xm demo_mined_by], THEN conjunct2, THEN mp, OF r] a
  have m': "total (ws demo_mined) = 200" by simp
  from j t a m xj xa o b0 n xs h xm show ?thesis by simp
qed

text \<open>
  C10 as stated fails in two ways. A mine after the recipient took another nickname:
  the amount leaves the pool and reaches no balance, and the total drops from 200 to
  190. And a submission whose fee is rounded away in the sum with the amount: 100 with
  fee \<open>2^(-50)\<close> from a balance of 100 leaves the balance 0 and the pool holding 100 and
  the fee, so the total grows from 200 by \<open>2^(-50)\<close>.
\<close>

theorem token_total_counterexample:
  "reachable demo_env demo_renamed \<and>
   snd (mine_block demo_env ''s3'' 6000 (ws demo_renamed))
     = Inr (block_of demo_env ''mike'' 6000 (ws demo_renamed)) \<and>
   total (ws demo_renamed) = 200 \<and>
   total (fst (mine_block demo_env ''s3'' 6000 (ws demo_renamed))) = 190 \<and>
   reachable demo_env demo_joined \<and>
   send_transaction demo_env ''s1'' ''bob'' (Number (Fin 100)) (Number tiny) (8001 / 2) 4000 (0, 4000)
       (ws demo_joined)
     = (ws demo_rounded, Inr (demo_tx ''alice'' ''bob'' (Fin 100) tiny (8001 / 2) 4000)) \<and>
   total (ws demo_joined) = 200 \<and>
   total (ws demo_rounded) = 200 + 1 / 2 ^ 50"
proof -
  have "total (ws demo_renamed) = 200"
    by (simp add: total_def demo_renamed_eq alice_def robert_def mike_def rewards_of_def)
  moreover have "total (fst (mine_block demo_env ''s3'' 6000 (ws demo_renamed))) = 190"
    by (simp add: mine_block_commit [where m = mike] demo_renamed_eq mike_def)
       (simp add: total_def alice_def robert_def mike_def rewards_of_def creditRecipient_def
          find_entry_def mutate_def rewardMiner_def)
  moreover have "snd (mine_block demo_env ''s3'' 6000 (ws demo_renamed))
     = Inr (block_of demo_env ''mike'' 6000 (ws demo_renamed))"
    by (simp add: mine_block_commit [where m = mike] demo_renamed_eq mike_def)
  moreover have "total (ws demo_joined) = 200"
    by (simp add: total_def demo_joined_eq alice_def bob_def mike_def rewards_of_def)
  moreover have "total (ws demo_rounded) = 200 + 1 / 2 ^ 50"
    by (simp add: total_def demo_rounded_state alice_def bob_def mike_def rewards_of_def val_tiny)
  ultimately show ?thesis
    using demo_renamed_reachable demo_joined_reachable demo_rounded_eq by simp
qed


end
